(* ===== verification/Relayer_Prelude.thy ===== *)
theory Relayer_Prelude
  imports Main "HOL-Library.Word"
begin

text \<open>
  Shared vocabulary of the development: the machine-integer types of the relayer and the
  saturating and checked operations it uses on them, the result type of fallible Rust code,
  the writer that records what a handler sends to the outside, and the list lemmas on
  index-based updates and removals that the pending pools of the handlers need.
\<close>

named_theorems eff_simps "unfolding rules of the effect writer"
named_theorems word_nat_simps "machine arithmetic read as natural numbers"

section \<open>Machine integers\<close>

type_synonym u8 = "8 word"
type_synonym u32 = "32 word"
type_synonym u64 = "64 word"
type_synonym u128 = "128 word"
type_synonym u256 = "256 word"
type_synonym chain_id = "64 word"
type_synonym address = "160 word"
type_synonym b256 = "256 word"
type_synonym bytes = "8 word list"

text \<open>
  Rust's \<open>saturating_sub\<close>, \<open>saturating_add\<close> and the \<open>checked_\<close> family. Plain
  \<open>+\<close>, \<open>-\<close> and \<open>*\<close> on words wrap, as they do in the release profile the
  relayer ships with (\<open>overflow-checks\<close> is off there).
\<close>

definition saturating_sub :: "'a::len word \<Rightarrow> 'a word \<Rightarrow> 'a word" where
  "saturating_sub a b = (if b \<le> a then a - b else 0)"

definition saturating_add :: "'a::len word \<Rightarrow> 'a word \<Rightarrow> 'a word" where
  "saturating_add a b = (if unat a + unat b < 2 ^ LENGTH('a) then a + b else - 1)"

definition checked_mul :: "'a::len word \<Rightarrow> 'a word \<Rightarrow> 'a word option" where
  "checked_mul a b = (if unat a * unat b < 2 ^ LENGTH('a) then Some (a * b) else None)"

definition checked_div :: "'a::len word \<Rightarrow> 'a word \<Rightarrow> 'a word option" where
  "checked_div a b = (if b = 0 then None else Some (a div b))"

definition checked_sub :: "'a::len word \<Rightarrow> 'a word \<Rightarrow> 'a word option" where
  "checked_sub a b = (if b \<le> a then Some (a - b) else None)"

lemma unat_minus_one [simp]: "unat (- 1 :: 'a::len word) = 2 ^ LENGTH('a) - 1"
  by (simp add: unsigned_minus_1_eq_mask mask_eq_exp_minus_1)

lemma unat_ucast_up:
  fixes w :: "'a::len word"
  assumes "LENGTH('a) \<le> LENGTH('b::len)"
  shows "unat (ucast w :: 'b word) = unat w"
proof -
  have "unat w < 2 ^ LENGTH('a)" by (rule unsigned_less)
  also have "\<dots> \<le> 2 ^ LENGTH('b)" using assms by simp
  finally show ?thesis
    by (simp add: unsigned_ucast_eq take_bit_nat_eq_self)
qed

lemma unat_saturating_sub [simp, word_nat_simps]:
  "unat (saturating_sub a b) = unat a - unat b"
  by (auto simp: saturating_sub_def unat_sub word_le_nat_alt)

lemma unat_saturating_add [simp, word_nat_simps]:
  "unat (saturating_add (a::'a::len word) b) = min (unat a + unat b) (2 ^ LENGTH('a) - 1)"
proof (cases "unat a + unat b < 2 ^ LENGTH('a)")
  case True
  then show ?thesis
    by (simp add: saturating_add_def unat_word_ariths)
next
  case False
  then show ?thesis
    by (simp add: saturating_add_def)
qed

lemma checked_mul_SomeD:
  "checked_mul (a::'a::len word) b = Some c \<Longrightarrow> unat c = unat a * unat b"
  by (auto simp: checked_mul_def unat_word_ariths split: if_splits)

lemma checked_mul_None_iff:
  "checked_mul (a::'a::len word) b = None \<longleftrightarrow> 2 ^ LENGTH('a) \<le> unat a * unat b"
  by (auto simp: checked_mul_def)

lemma checked_div_SomeD:
  "checked_div a b = Some c \<Longrightarrow> b \<noteq> 0 \<and> unat c = unat a div unat b"
  by (auto simp: checked_div_def unat_div split: if_splits)

lemma checked_sub_SomeD:
  "checked_sub a b = Some c \<Longrightarrow> b \<le> a \<and> unat c = unat a - unat b"
  by (auto simp: checked_sub_def unat_sub split: if_splits)

section \<open>Results of fallible code\<close>

text \<open>
  A Rust function that returns \<open>eyre::Result\<close> ends in \<open>Ok\<close>, in an error that its caller
  sees, or in a panic (\<open>panic!\<close>, \<open>unwrap\<close>, \<open>expect\<close>) that no caller handles. The
  errors of calls that leave the process (JSON-RPC, contract calls, storage queries) are all
  \<open>RpcError\<close>; the others are the messages the code itself raises.
\<close>

datatype error =
    RpcError
  | InvalidChainId
  | ProviderInternalError
  | ClientNotFound chain_id
  | MaxTxFeeExceedsAmount u256 u256
  | GasFeeOverflow
  | PriceNormalizationOverflow
  | FeeTimesPriceOverflow
  | DecimalAdjustmentOverflow
  | DivisionByPrice
  | DecimalNormalization
  | FeeExceedsMaxTxFee u256 u256
  | UnsupportedTxType
  | SendError
  | SignatureError
  | NonceTooLow
  | InvalidTxid
  | DecodeError
  | FeeRateUnavailable
  | FormatError
  | PriceUnavailable

datatype 'a res = Ok 'a | Err error | Panic

fun bind_res :: "'a res \<Rightarrow> ('a \<Rightarrow> 'b res) \<Rightarrow> 'b res" where
  "bind_res (Ok x) k = k x"
| "bind_res (Err e) k = Err e"
| "bind_res Panic k = Panic"

fun is_ok :: "'a res \<Rightarrow> bool" where
  "is_ok (Ok x) = True"
| "is_ok r = False"

definition ok_or :: "'a option \<Rightarrow> error \<Rightarrow> 'a res" where
  "ok_or x e = (case x of None \<Rightarrow> Err e | Some v \<Rightarrow> Ok v)"

definition unwrap :: "'a option \<Rightarrow> 'a res" where
  "unwrap x = (case x of None \<Rightarrow> Panic | Some v \<Rightarrow> Ok v)"

lemma bind_res_Ok_iff: "bind_res m k = Ok y \<longleftrightarrow> (\<exists>x. m = Ok x \<and> k x = Ok y)"
  by (cases m) auto

lemma bind_res_eq_Err_iff:
  "bind_res m k = Err e \<longleftrightarrow> m = Err e \<or> (\<exists>x. m = Ok x \<and> k x = Err e)"
  by (cases m) auto

lemma ok_or_Ok_iff [simp]: "ok_or x e = Ok v \<longleftrightarrow> x = Some v"
  by (cases x) (auto simp: ok_or_def)

lemma unwrap_Ok_iff [simp]: "unwrap x = Ok v \<longleftrightarrow> x = Some v"
  by (cases x) (auto simp: unwrap_def)

lemma unwrap_simps [simp]: "unwrap (Some v) = Ok v" "unwrap None = Panic"
  by (simp_all add: unwrap_def)

text \<open>
  Indexing a vector panics out of range; collecting an iterator of results stops at the first
  one that is not \<open>Ok\<close>.
\<close>

definition vec_index :: "'a list \<Rightarrow> nat \<Rightarrow> 'a res" where
  "vec_index xs i = (if i < length xs then Ok (xs ! i) else Panic)"

fun traverse_res :: "('a \<Rightarrow> 'b res) \<Rightarrow> 'a list \<Rightarrow> 'b list res" where
  "traverse_res f [] = Ok []"
| "traverse_res f (x # xs) =
     bind_res (f x) (\<lambda>y. bind_res (traverse_res f xs) (\<lambda>ys. Ok (y # ys)))"

lemma vec_index_Ok_iff [simp]: "vec_index xs i = Ok x \<longleftrightarrow> i < length xs \<and> x = xs ! i"
  by (auto simp: vec_index_def)

lemma traverse_res_Ok_iff:
  "traverse_res f xs = Ok ys \<longleftrightarrow> list_all2 (\<lambda>x y. f x = Ok y) xs ys"
  by (induction xs arbitrary: ys) (auto simp: bind_res_Ok_iff list_all2_Cons1)

lemma traverse_res_map:
  "(\<And>x. x \<in> set xs \<Longrightarrow> f x = Ok (g x)) \<Longrightarrow> traverse_res f xs = Ok (map g xs)"
  by (induction xs) auto

lemma traverse_res_Panic_iff:
  "(\<And>x e. x \<in> set xs \<Longrightarrow> f x \<noteq> Err e) \<Longrightarrow>
     traverse_res f xs = Panic \<longleftrightarrow> (\<exists>x \<in> set xs. f x = Panic)"
proof (induction xs)
  case (Cons x xs)
  have no_err: "traverse_res f ys \<noteq> Err e" if "set ys \<subseteq> set xs" for ys e
    using that Cons.prems by (induction ys) (auto simp: bind_res_eq_Err_iff)
  with Cons show ?case
    by (cases "f x"; cases "traverse_res f xs") force+
qed simp

lemma map_filter_append: "List.map_filter f (xs @ ys) = List.map_filter f xs @ List.map_filter f ys"
  by (simp add: List.map_filter_def)

lemma map_filter_map_Some: "(\<And>x. g (f x) = Some (h x)) \<Longrightarrow> List.map_filter g (map f xs) = map h xs"
  by (induction xs) (simp_all add: List.map_filter_simps)

lemma map_filter_map_None: "(\<And>x. g (f x) = None) \<Longrightarrow> List.map_filter g (map f xs) = []"
  by (induction xs) (simp_all add: List.map_filter_simps)

lemma sort_key_tagged:
  "map snd (sort_key fst (map (\<lambda>x. (k x, x)) xs)) = sort_key k xs"
proof -
  have ins: "insort_key fst (k y, y) (map (\<lambda>x. (k x, x)) ys)
      = map (\<lambda>x. (k x, x)) (insort_key k y ys)" for y ys
    by (induction ys) auto
  have "sort_key fst (map (\<lambda>x. (k x, x)) xs) = map (\<lambda>x. (k x, x)) (sort_key k xs)"
    by (induction xs) (simp_all add: ins)
  then show ?thesis by (simp add: comp_def)
qed

section \<open>The effect writer\<close>

text \<open>
  A handler is modelled by the list of things it sends out (transactions, channel messages,
  unsigned extrinsics), in order, together with how it ended. What was sent before an error
  or a panic stays sent.
\<close>

type_synonym ('f, 'a) eff = "'f list \<times> 'a res"

definition ret :: "'a \<Rightarrow> ('f, 'a) eff" where
  "ret x = ([], Ok x)"

definition lift :: "'a res \<Rightarrow> ('f, 'a) eff" where
  "lift r = ([], r)"

definition emit :: "'f \<Rightarrow> ('f, unit) eff" where
  "emit f = ([f], Ok ())"

fun bind_eff :: "('f, 'a) eff \<Rightarrow> ('a \<Rightarrow> ('f, 'b) eff) \<Rightarrow> ('f, 'b) eff" where
  "bind_eff (fs, Ok x) k = (fs @ fst (k x), snd (k x))"
| "bind_eff (fs, Err e) k = (fs, Err e)"
| "bind_eff (fs, Panic) k = (fs, Panic)"

text \<open>\<open>if let Err(e) = m { log }\<close>: an error is logged and dropped, a panic is not.\<close>

fun log_err :: "('f, unit) eff \<Rightarrow> ('f, unit) eff" where
  "log_err (fs, Err e) = (fs, Ok ())"
| "log_err (fs, r) = (fs, r)"

fun for_each :: "('a \<Rightarrow> ('f, unit) eff) \<Rightarrow> 'a list \<Rightarrow> ('f, unit) eff" where
  "for_each f [] = ret ()"
| "for_each f (x # xs) = bind_eff (f x) (\<lambda>_. for_each f xs)"

lemma bind_eff_ret [simp, eff_simps]: "bind_eff (ret x) k = k x"
  by (simp add: ret_def)

lemma bind_eff_lift_Ok [simp, eff_simps]: "bind_eff (lift (Ok x)) k = k x"
  by (simp add: lift_def)

lemma bind_eff_lift_Err [simp, eff_simps]: "bind_eff (lift (Err e)) k = ([], Err e)"
  by (simp add: lift_def)

lemma bind_eff_lift_Panic [simp, eff_simps]: "bind_eff (lift Panic) k = ([], Panic)"
  by (simp add: lift_def)

lemma ret_proj [simp]: "fst (ret x) = []" "snd (ret x) = Ok x"
  by (simp_all add: ret_def)

lemma lift_proj [simp]: "fst (lift r) = []" "snd (lift r) = r"
  by (simp_all add: lift_def)

lemma emit_proj [simp]: "fst (emit f) = [f]" "snd (emit f) = Ok ()"
  by (simp_all add: emit_def)

lemma bind_eff_emit [simp, eff_simps]: "bind_eff (emit f) k = (f # fst (k ()), snd (k ()))"
  by (simp add: emit_def)

lemma bind_eff_assoc: "bind_eff (bind_eff m f) g = bind_eff m (\<lambda>x. bind_eff (f x) g)"
proof (cases m)
  case (Pair fs r)
  then show ?thesis
  proof (cases r)
    case (Ok x)
    then show ?thesis
      using Pair by (cases "f x"; cases "snd (f x)") auto
  qed auto
qed

lemma bind_eff_OkE:
  assumes "bind_eff m k = (fs, Ok y)"
  obtains gs x hs where "m = (gs, Ok x)" and "k x = (hs, Ok y)" and "fs = gs @ hs"
proof (cases m)
  case (Pair gs r)
  with assms that show thesis
    by (cases r; cases "k (case r of Ok x \<Rightarrow> x)") auto
qed

lemma fst_bind_eff_mem:
  "f \<in> set (fst (bind_eff m k)) \<longleftrightarrow>
     f \<in> set (fst m) \<or> (\<exists>x. snd m = Ok x \<and> f \<in> set (fst (k x)))"
  by (cases m; cases "snd m") auto

lemma fst_bind_eff:
  "fst (bind_eff m k) = fst m @ (case snd m of Ok x \<Rightarrow> fst (k x) | _ \<Rightarrow> [])"
  by (cases m; cases "snd m") auto

lemma snd_bind_eff:
  "snd (bind_eff m k) = bind_res (snd m) (\<lambda>x. snd (k x))"
  by (cases m; cases "snd m") auto

lemma bind_eff_length_le:
  "fst m = [] \<Longrightarrow> (\<And>x. snd m = Ok x \<Longrightarrow> length (fst (k x)) \<le> n) \<Longrightarrow> length (fst (bind_eff m k)) \<le> n"
  by (cases m; cases "snd m") auto

lemma log_err_not_Err [simp]: "snd (log_err m) \<noteq> Err e"
  by (cases m; cases "snd m") auto

lemma fst_log_err [simp]: "fst (log_err m) = fst m"
  by (cases m; cases "snd m") auto

lemma log_err_Ok_iff: "snd (log_err m) = Ok () \<longleftrightarrow> snd m \<noteq> Panic"
  by (cases m; cases "snd m") auto

lemma for_each_all_ok:
  "(\<And>x. x \<in> set xs \<Longrightarrow> snd (f x) = Ok ()) \<Longrightarrow>
     for_each f xs = (concat (map (\<lambda>x. fst (f x)) xs), Ok ())"
proof (induction xs)
  case Nil
  then show ?case by (simp add: ret_def)
next
  case (Cons x xs)
  then obtain fs where "f x = (fs, Ok ())"
    by (metis list.set_intros(1) prod.collapse)
  with Cons show ?case by simp
qed

lemma for_each_mem:
  "f \<in> set (fst (for_each g xs)) \<Longrightarrow> \<exists>x \<in> set xs. f \<in> set (fst (g x))"
  by (induction xs) (auto simp: fst_bind_eff_mem)

section \<open>Byte strings\<close>

text \<open>\<open>to_be_bytes\<close> of a word of \<open>n\<close> bytes, and \<open>copy_from_slice\<close> into a buffer.\<close>

definition to_be_bytes :: "nat \<Rightarrow> 'a::len word \<Rightarrow> bytes" where
  "to_be_bytes n w = map (\<lambda>i. ucast (drop_bit (8 * (n - 1 - i)) w)) [0..<n]"

definition ascii :: "string \<Rightarrow> bytes" where
  "ascii = map of_char"

definition copy_from_slice :: "nat \<Rightarrow> bytes \<Rightarrow> bytes \<Rightarrow> bytes" where
  "copy_from_slice off src buf = take off buf @ src @ drop (off + length src) buf"

lemma length_to_be_bytes [simp]: "length (to_be_bytes n w) = n"
  by (simp add: to_be_bytes_def)

lemma length_copy_from_slice [simp]:
  "off + length src \<le> length buf \<Longrightarrow> length (copy_from_slice off src buf) = length buf"
  by (simp add: copy_from_slice_def)

lemma bit_to_be_bytes:
  assumes "k < 8 * n"
  shows "bit (to_be_bytes n w ! (n - 1 - k div 8)) (k mod 8) = bit w k"
proof -
  have "k div 8 < n" and "n - 1 - (n - 1 - k div 8) = k div 8"
    using assms by (auto simp: less_mult_imp_div_less mult.commute)
  then show ?thesis
    by (simp add: to_be_bytes_def bit_simps mult.commute)
qed

lemma to_be_bytes_inject:
  fixes v w :: "'a::len word"
  assumes "LENGTH('a) = 8 * n"
  shows "to_be_bytes n v = to_be_bytes n w \<longleftrightarrow> v = w"
proof
  assume eq: "to_be_bytes n v = to_be_bytes n w"
  show "v = w"
  proof (rule bit_word_eqI)
    fix k
    assume "k < LENGTH('a)"
    with assms have "k < 8 * n" by simp
    then show "bit v k = bit w k"
      using bit_to_be_bytes [of k n v] bit_to_be_bytes [of k n w] eq by simp
  qed
qed simp

section \<open>Vectors updated and pruned by index\<close>

text \<open>
  \<open>Vec::get_mut\<close> followed by an assignment, and \<open>Vec::remove\<close> behind a length test: out of
  range, both leave the vector alone.
\<close>

definition get_mut :: "nat \<Rightarrow> ('a \<Rightarrow> 'a) \<Rightarrow> 'a list \<Rightarrow> 'a list" where
  "get_mut i f xs = (if i < length xs then xs[i := f (xs ! i)] else xs)"

definition remove_index :: "nat \<Rightarrow> 'a list \<Rightarrow> 'a list" where
  "remove_index i xs = (if i < length xs then take i xs @ drop (Suc i) xs else xs)"

lemma length_get_mut [simp]: "length (get_mut i f xs) = length xs"
  by (simp add: get_mut_def)

lemma nth_get_mut:
  "j < length xs \<Longrightarrow> get_mut i f xs ! j = (if i = j then f (xs ! j) else xs ! j)"
  by (auto simp: get_mut_def nth_list_update)

lemma length_fold_get_mut [simp]: "length (fold (\<lambda>i. get_mut i (g i)) is xs) = length xs"
  by (induction "is" arbitrary: xs) auto

lemma nth_fold_get_mut:
  assumes "distinct is" and "j < length xs"
  shows "fold (\<lambda>i. get_mut i (g i)) is xs ! j = (if j \<in> set is then g j (xs ! j) else xs ! j)"
  using assms by (induction "is" arbitrary: xs) (auto simp: nth_get_mut)

lemma fold_get_mut_eq_map:
  "fold (\<lambda>i. get_mut i (g i)) (filter Q [0..<length xs]) xs
   = map (\<lambda>i. if Q i then g i (xs ! i) else xs ! i) [0..<length xs]"
  by (rule nth_equalityI) (auto simp: nth_fold_get_mut)

lemma nths_cong_index:
  "(\<And>i. i < length xs \<Longrightarrow> i \<in> A \<longleftrightarrow> i \<in> B) \<Longrightarrow> nths xs A = nths xs B"
  unfolding nths_def
  by (intro arg_cong [where f = "map fst"] filter_cong) (auto simp: set_zip)

lemma remove_index_last_of:
  assumes "set is \<subseteq> {..<m}"
  shows "nths (remove_index m xs) (- set is) = nths xs (- insert m (set is))"
proof (cases "m < length xs")
  case True
  have ys: "xs = take m xs @ xs ! m # drop (Suc m) xs"
    using True by (rule id_take_nth_drop)
  have keep: "{j. j + m \<in> - set is} = UNIV" and keep': "{j. j + Suc m \<in> - insert m (set is)} = UNIV"
    using assms by (auto dest: subsetD)
  have same: "nths (take m xs) (- set is) = nths (take m xs) (- insert m (set is))"
    by (rule nths_cong_index) auto
  have "nths xs (- insert m (set is)) =
        nths (take m xs @ xs ! m # drop (Suc m) xs) (- insert m (set is))"
    using ys by simp
  also have "\<dots> = nths (take m xs) (- set is) @ drop (Suc m) xs"
    using True keep' by (simp add: nths_append nths_Cons same min_def add.commute nths_all)
  finally show ?thesis
    using True keep by (simp add: remove_index_def nths_append min_def add.commute nths_all)
next
  case False
  then show ?thesis
    by (auto simp: remove_index_def intro!: nths_cong_index)
qed

lemma fold_remove_index_desc:
  "sorted is \<Longrightarrow> distinct is \<Longrightarrow> fold remove_index (rev is) xs = nths xs (- set is)"
proof (induction "is" arbitrary: xs rule: rev_induct)
  case Nil
  then show ?case by (simp add: nths_all)
next
  case (snoc m "is")
  then have "set is \<subseteq> {..<m}"
    by (auto simp: sorted_append intro: le_neq_trans)
  with snoc show ?case
    by (simp add: sorted_append remove_index_last_of)
qed

lemma nths_map_index:
  "nths (map h xs) {i. i < length xs \<longrightarrow> keep (xs ! i)} = map h (filter keep xs)"
proof -
  have "nths xs {i. i < length xs \<longrightarrow> keep (xs ! i)} = nths xs {i. i < length xs \<and> keep (xs ! i)}"
    by (rule nths_cong_index) auto
  then show ?thesis
    by (simp add: nths_map filter_eq_nths)
qed

text \<open>Removing marked positions of a tabulated vector from the back keeps the unmarked ones.\<close>

lemma prune_map:
  "fold remove_index (rev (filter R [0..<n])) (map f [0..<n]) = map f (filter (\<lambda>i. \<not> R i) [0..<n])"
proof -
  have "fold remove_index (rev (filter R [0..<n])) (map f [0..<n]) =
      nths (map f [0..<n]) (- set (filter R [0..<n]))"
    by (rule fold_remove_index_desc) (simp_all add: sorted_wrt_filter)
  also have "\<dots> = nths (map f [0..<n]) {i. i < length [0..<n] \<longrightarrow> \<not> R ([0..<n] ! i)}"
    by (rule nths_cong_index) auto
  also have "\<dots> = map f (filter (\<lambda>i. \<not> R i) [0..<n])"
    by (rule nths_map_index)
  finally show ?thesis .
qed

lemma filter_index_nth:
  "map (\<lambda>i. F (xs ! i)) (filter (\<lambda>i. K (xs ! i)) [0..<length xs]) = map F (filter K xs)"
proof -
  have "map F (filter K (map ((!) xs) [0..<length xs])) =
      map (\<lambda>i. F (xs ! i)) (filter (\<lambda>i. K (xs ! i)) [0..<length xs])"
    by (simp add: filter_map comp_def)
  then show ?thesis
    by (simp add: map_nth)
qed

lemma enumerate_map: "enumerate 0 xs = map (\<lambda>i. (i, xs ! i)) [0..<length xs]"
  by (rule nth_equalityI) (simp_all add: nth_enumerate_eq)

text \<open>
  The reference behaviour of a pending pool that one pass sweeps: every entry is dropped
  (\<open>None\<close>) or kept, possibly changed (\<open>Some\<close>), by a decision on that entry alone. The
  handlers implement the pass with vectors of indices; an interpretation discharges the law.
\<close>

locale pending_pool =
  fixes sweep :: "'a list \<Rightarrow> 'a list"
    and decide :: "'a \<Rightarrow> 'a option"
  assumes sweep_decide: "sweep xs = List.map_filter decide xs"
begin

lemma sweep_append: "sweep (xs @ ys) = sweep xs @ sweep ys"
  by (simp add: sweep_decide List.map_filter_def)

lemma length_sweep: "length (sweep xs) \<le> length xs"
  by (simp add: sweep_decide List.map_filter_def)

lemma mem_sweep_iff: "y \<in> set (sweep xs) \<longleftrightarrow> (\<exists>x \<in> set xs. decide x = Some y)"
  by (force simp: sweep_decide List.map_filter_def)

lemma sweep_keys:
  assumes "\<And>x y. decide x = Some y \<Longrightarrow> key y = key x"
  shows "map key (sweep xs) = map key (filter (\<lambda>x. decide x \<noteq> None) xs)"
  using assms by (induction xs) (auto simp: sweep_decide List.map_filter_def)

lemma sweep_distinct:
  assumes "\<And>x y. decide x = Some y \<Longrightarrow> key y = key x" and "distinct (map key xs)"
  shows "distinct (map key (sweep xs))"
  using assms by (simp add: sweep_keys distinct_map_filter)

lemma sweep_key_set:
  assumes "\<And>x y. decide x = Some y \<Longrightarrow> key y = key x"
  shows "set (map key (sweep xs)) \<subseteq> set (map key xs)"
  using assms by (auto simp: sweep_keys)

end

section \<open>Cursors over block numbers\<close>

text \<open>
  A component that reads a chain forward processes one closed range \<open>[a, b]\<close> of block numbers
  per step. The contract: a step that stays below \<open>bound\<close> (the last representable block)
  starts where the cursor stands and leaves it one past the range's end. The client's fact: the
  ranges of any run of steps tile the blocks passed over, with no gap and no overlap.
\<close>

inductive cursor_steps ::
    "('s \<Rightarrow> (nat \<times> nat \<times> 's) option) \<Rightarrow> 's \<Rightarrow> (nat \<times> nat) list \<Rightarrow> 's \<Rightarrow> bool"
  for advance where
  cursor_done: "cursor_steps advance s [] s"
| cursor_step: "advance s = Some (a, b, s') \<Longrightarrow> cursor_steps advance s' rs t \<Longrightarrow>
     cursor_steps advance s ((a, b) # rs) t"

inductive_cases cursor_steps_NilE: "cursor_steps advance s [] t"
inductive_cases cursor_steps_ConsE: "cursor_steps advance s (r # rs) t"

lemma upt_split: "a \<le> c \<Longrightarrow> c \<le> b \<Longrightarrow> [a..<Suc b] = [a..<Suc c] @ [Suc c..<Suc b]"
  using upt_add_eq_append [of a "Suc c" "b - c"] by (simp del: upt_Suc)

lemma upt_tile: "a \<le> b \<Longrightarrow> Suc b \<le> c \<Longrightarrow> [a..<Suc b] @ [Suc b..<c] = [a..<c]"
  using upt_add_eq_append [of a "Suc b" "c - Suc b"] by (simp del: upt_Suc)

locale block_cursor =
  fixes advance :: "'s \<Rightarrow> (nat \<times> nat \<times> 's) option"
    and pos :: "'s \<Rightarrow> nat"
    and bound :: nat
  assumes advance_contiguous:
    "advance s = Some (a, b, s') \<Longrightarrow> b < bound \<Longrightarrow> a = pos s \<and> a \<le> b \<and> pos s' = Suc b"
begin

lemma steps_tile:
  assumes "cursor_steps advance s rs t" and "\<forall>(a, b) \<in> set rs. b < bound"
  shows "pos s \<le> pos t \<and> concat (map (\<lambda>(a, b). [a..<Suc b]) rs) = [pos s..<pos t]"
  using assms
proof (induction rule: cursor_steps.induct)
  case (cursor_step s a b s' rs t)
  then have "a = pos s" "a \<le> b" "pos s' = Suc b"
    using advance_contiguous by auto
  with cursor_step show ?case
    by (auto simp: upt_tile simp del: upt_Suc)
qed simp

end

end
