(* ===== verification/Cccp_Types.thy ===== *)
theory Cccp_Types
  imports Relayer_Prelude
begin

text \<open>
  The data of the cross-chain protocol: the status enumerations and their wire codes
  (\<open>primitives/src/eth.rs\<close>), socket messages, request identifiers and signature bundles
  (\<open>primitives/src/contracts/socket.rs\<close>, \<open>hooks.rs\<close>), and the metadata and contract
  addresses of a configured provider (\<open>primitives/src/eth.rs\<close>, \<open>cli.rs\<close>).
\<close>

section \<open>Status enumerations\<close>

datatype SocketEventStatus =
    Status_None | Requested | Failed | Executed | Reverted | Accepted | Rejected
  | Committed | Rollbacked

datatype RoundUpEventStatus = NextAuthorityRelayed | NextAuthorityCommitted

datatype RelayDirection = Inbound | Outbound

datatype GasCoefficient = Low | Mid | High

definition socket_status_from_u8 :: "u8 \<Rightarrow> SocketEventStatus res" where
  "socket_status_from_u8 s =
     (if s = 0 then Ok Status_None
      else if s = 1 then Ok Requested
      else if s = 2 then Ok Failed
      else if s = 3 then Ok Executed
      else if s = 4 then Ok Reverted
      else if s = 5 then Ok Accepted
      else if s = 6 then Ok Rejected
      else if s = 7 then Ok Committed
      else if s = 8 then Ok Rollbacked
      else Panic)"

fun socket_status_to_u8 :: "SocketEventStatus \<Rightarrow> u8" where
  "socket_status_to_u8 Status_None = 0"
| "socket_status_to_u8 Requested = 1"
| "socket_status_to_u8 Failed = 2"
| "socket_status_to_u8 Executed = 3"
| "socket_status_to_u8 Reverted = 4"
| "socket_status_to_u8 Accepted = 5"
| "socket_status_to_u8 Rejected = 6"
| "socket_status_to_u8 Committed = 7"
| "socket_status_to_u8 Rollbacked = 8"

text \<open>The discriminants of the enumeration start at 9.\<close>

fun roundup_status_to_u8 :: "RoundUpEventStatus \<Rightarrow> u8" where
  "roundup_status_to_u8 NextAuthorityRelayed = 9"
| "roundup_status_to_u8 NextAuthorityCommitted = 10"

definition roundup_status_from_u8 :: "u8 \<Rightarrow> RoundUpEventStatus res" where
  "roundup_status_from_u8 s =
     (if s = 9 then Ok NextAuthorityRelayed
      else if s = 10 then Ok NextAuthorityCommitted
      else Panic)"

definition gas_coefficient_from_bool :: "bool \<Rightarrow> GasCoefficient" where
  "gas_coefficient_from_bool is_native = (if is_native then Mid else Low)"

text \<open>
  The contract of a wire code: decoding what was encoded gives it back, a byte that decodes is
  the code of its status, and a byte that is no code panics rather than giving an error.
\<close>

locale wire_code =
  fixes from_u8 :: "u8 \<Rightarrow> 'a res"
    and to_u8 :: "'a \<Rightarrow> u8"
  assumes from_to: "from_u8 (to_u8 s) = Ok s"
    and to_from: "from_u8 b = Ok s \<Longrightarrow> to_u8 s = b"
    and no_err: "from_u8 b \<noteq> Err e"
begin

lemma to_u8_inject: "to_u8 s = to_u8 t \<longleftrightarrow> s = t"
  by (metis from_to res.inject(1))

lemma decodes_iff: "from_u8 b = Ok s \<longleftrightarrow> b = to_u8 s"
  using from_to to_from by blast

lemma panics_iff: "from_u8 b = Panic \<longleftrightarrow> b \<notin> range to_u8"
  by (metis decodes_iff no_err rangeE rangeI res.distinct(3) res.exhaust)

end

interpretation socket_code: wire_code socket_status_from_u8 socket_status_to_u8
proof unfold_locales
  show "socket_status_from_u8 (socket_status_to_u8 s) = Ok s" for s
    by (cases s) (simp_all add: socket_status_from_u8_def)
qed (auto simp: socket_status_from_u8_def split: if_splits)

interpretation roundup_code: wire_code roundup_status_from_u8 roundup_status_to_u8
proof unfold_locales
  show "roundup_status_from_u8 (roundup_status_to_u8 s) = Ok s" for s
    by (cases s) (simp_all add: roundup_status_from_u8_def)
qed (auto simp: roundup_status_from_u8_def split: if_splits)

section \<open>Bootstrap states\<close>

datatype BootstrapState =
    NodeSyncing
  | FlushingStalledTransactions
  | BootstrapRoundUpPhase1
  | BootstrapRoundUpPhase2
  | BootstrapSocketRelayQueue
  | BootstrapSocketRelay
  | NormalStart

text \<open>The derived order of the enumeration is the order of its variants.\<close>

fun bootstrap_rank :: "BootstrapState \<Rightarrow> nat" where
  "bootstrap_rank NodeSyncing = 0"
| "bootstrap_rank FlushingStalledTransactions = 1"
| "bootstrap_rank BootstrapRoundUpPhase1 = 2"
| "bootstrap_rank BootstrapRoundUpPhase2 = 3"
| "bootstrap_rank BootstrapSocketRelayQueue = 4"
| "bootstrap_rank BootstrapSocketRelay = 5"
| "bootstrap_rank NormalStart = 6"

lemma bootstrap_rank_inject [simp]: "bootstrap_rank a = bootstrap_rank b \<longleftrightarrow> a = b"
  by (cases a; cases b) auto

instantiation BootstrapState :: linorder
begin

definition less_eq_BootstrapState :: "BootstrapState \<Rightarrow> BootstrapState \<Rightarrow> bool" where
  "less_eq_BootstrapState a b \<longleftrightarrow> bootstrap_rank a \<le> bootstrap_rank b"

definition less_BootstrapState :: "BootstrapState \<Rightarrow> BootstrapState \<Rightarrow> bool" where
  "less_BootstrapState a b \<longleftrightarrow> bootstrap_rank a < bootstrap_rank b"

instance
  by standard
    (use bootstrap_rank_inject in \<open>auto simp: less_eq_BootstrapState_def less_BootstrapState_def\<close>)

end

lemmas bootstrap_order = less_eq_BootstrapState_def less_BootstrapState_def

lemma bootstrap_le_NormalStart [simp]: "s \<le> NormalStart"
  by (cases s) (auto simp: bootstrap_order)

section \<open>Socket messages\<close>

record RequestID =
  ChainIndex :: u32
  round_id :: u64
  sequence :: u128

record Instruction =
  ins_ChainIndex :: u32
  RBCmethod :: u128

record Task_Params =
  tokenIDX0 :: b256
  tokenIDX1 :: b256
  refund :: address
  to :: address
  amount :: u256
  variants :: bytes

record Socket_Message =
  req_id :: RequestID
  msg_status :: u8
  ins_code :: Instruction
  params :: Task_Params

text \<open>\<open>Into::<u32>::into(..ChainIndex) as ChainId\<close>: four big-endian bytes, widened.\<close>

definition src_chain_id :: "Socket_Message \<Rightarrow> chain_id" where
  "src_chain_id msg = ucast (ChainIndex (req_id msg))"

definition dst_chain_id :: "Socket_Message \<Rightarrow> chain_id" where
  "dst_chain_id msg = ucast (ins_ChainIndex (ins_code msg))"

definition set_status :: "SocketEventStatus \<Rightarrow> Socket_Message \<Rightarrow> Socket_Message" where
  "set_status s msg = msg\<lparr>msg_status := socket_status_to_u8 s\<rparr>"

lemma set_status_simps [simp]:
  "req_id (set_status s m) = req_id m" "ins_code (set_status s m) = ins_code m"
  "params (set_status s m) = params m" "msg_status (set_status s m) = socket_status_to_u8 s"
  "src_chain_id (set_status s m) = src_chain_id m" "dst_chain_id (set_status s m) = dst_chain_id m"
  "set_status s (set_status t m) = set_status s m"
  by (simp_all add: set_status_def src_chain_id_def dst_chain_id_def)

text \<open>The 32-byte key of a request, used as the idempotency key of the hooks contract.\<close>

definition request_id_bytes :: "RequestID \<Rightarrow> bytes" where
  "request_id_bytes r =
     copy_from_slice 12 (to_be_bytes 16 (sequence r))
       (copy_from_slice 4 (to_be_bytes 8 (round_id r))
         (copy_from_slice 0 (to_be_bytes 4 (ChainIndex r)) (replicate 32 0)))"

text \<open>
  The tree handed to the ABI encoder. The encoder itself belongs to the \<open>alloy\<close> crates, so
  it is an argument of everything that hashes or signs a message.
\<close>

datatype DynSolValue =
    SolFixedBytes b256 nat
  | SolUint u256 nat
  | SolAddress address
  | SolBytes bytes
  | SolArray "DynSolValue list"
  | SolTuple "DynSolValue list"

type_synonym abi_encoder = "DynSolValue \<Rightarrow> bytes"

definition right_padding_from :: "nat \<Rightarrow> 'a::len word \<Rightarrow> b256" where
  "right_padding_from n w = push_bit (8 * (32 - n)) (ucast w)"

definition socket_message_sol :: "Socket_Message \<Rightarrow> DynSolValue" where
  "socket_message_sol msg = SolTuple
     [SolTuple
        [SolFixedBytes (right_padding_from 4 (ChainIndex (req_id msg))) 4,
         SolUint (ucast (round_id (req_id msg))) 64,
         SolUint (ucast (sequence (req_id msg))) 128],
      SolUint (ucast (msg_status msg)) 8,
      SolTuple
        [SolFixedBytes (right_padding_from 4 (ins_ChainIndex (ins_code msg))) 4,
         SolFixedBytes (right_padding_from 16 (RBCmethod (ins_code msg))) 16],
      SolTuple
        [SolFixedBytes (tokenIDX0 (params msg)) 32,
         SolFixedBytes (tokenIDX1 (params msg)) 32,
         SolAddress (refund (params msg)),
         SolAddress (to (params msg)),
         SolUint (amount (params msg)) 256,
         SolBytes (variants (params msg))]]"

definition encode_socket_message :: "abi_encoder \<Rightarrow> Socket_Message \<Rightarrow> bytes" where
  "encode_socket_message abi_encode msg = abi_encode (socket_message_sol msg)"

text \<open>The parameters of a roundup, as encoded for signing.\<close>

definition encode_roundup_param :: "abi_encoder \<Rightarrow> u256 \<Rightarrow> address list \<Rightarrow> bytes" where
  "encode_roundup_param abi_encode_params rnd new_relayers =
     abi_encode_params (SolTuple [SolUint rnd 256, SolArray (map SolAddress new_relayers)])"

lemma ucast_inject_le:
  fixes v w :: "'a::len word"
  assumes "LENGTH('a) \<le> LENGTH('b::len)"
  shows "(ucast v :: 'b word) = ucast w \<longleftrightarrow> v = w"
proof
  assume eq: "(ucast v :: 'b word) = ucast w"
  show "v = w"
  proof (rule bit_word_eqI)
    fix k
    assume "k < LENGTH('a)"
    with assms arg_cong [OF eq, of "\<lambda>x. bit x k"] show "bit v k = bit w k"
      by (simp add: bit_simps)
  qed
qed simp

lemma right_padding_inject:
  fixes v w :: "'a::len word"
  assumes "LENGTH('a) = 8 * n" and "n \<le> 32"
  shows "right_padding_from n v = right_padding_from n w \<longleftrightarrow> v = w"
proof
  assume eq: "right_padding_from n v = right_padding_from n w"
  show "v = w"
  proof (rule bit_word_eqI)
    fix k
    assume "k < LENGTH('a)"
    with assms have "8 * (32 - n) + k < 256" by simp
    then show "bit v k = bit w k"
      using arg_cong [OF eq, of "\<lambda>x. bit x (8 * (32 - n) + k)"]
      by (simp add: right_padding_from_def bit_simps)
  qed
qed simp

lemma socket_message_sol_inject: "socket_message_sol m = socket_message_sol m' \<longleftrightarrow> m = m'"
proof
  assume eq: "socket_message_sol m = socket_message_sol m'"
  then have "req_id m = req_id m'"
    by (intro RequestID.equality)
      (simp_all add: socket_message_sol_def right_padding_inject ucast_inject_le)
  moreover from eq have "ins_code m = ins_code m'"
    by (intro Instruction.equality) (simp_all add: socket_message_sol_def right_padding_inject)
  moreover from eq have "params m = params m'"
    by (intro Task_Params.equality) (simp_all add: socket_message_sol_def)
  moreover from eq have "msg_status m = msg_status m'"
    by (simp add: socket_message_sol_def ucast_inject_le)
  ultimately show "m = m'"
    by (intro Socket_Message.equality) simp_all
qed simp

lemma request_id_bytes_eq:
  "request_id_bytes r =
     to_be_bytes 4 (ChainIndex r) @ to_be_bytes 8 (round_id r) @ to_be_bytes 16 (sequence r)
       @ replicate 4 0"
  by (simp add: request_id_bytes_def copy_from_slice_def)

section \<open>Signature bundles\<close>

record Signature =
  sig_r :: u256
  sig_s :: u256
  sig_v :: bool

record Signatures =
  sigs_r :: "u256 list"
  sigs_s :: "u256 list"
  sigs_v :: bytes

definition signatures_default :: Signatures where
  "signatures_default = \<lparr>sigs_r = [], sigs_s = [], sigs_v = []\<rparr>"

definition signatures_from_signature :: "Signature \<Rightarrow> Signatures" where
  "signatures_from_signature sig =
     \<lparr>sigs_r = [sig_r sig], sigs_s = [sig_s sig], sigs_v = [of_bool (sig_v sig) + 27]\<rparr>"

definition signatures_from_vec :: "Signature list \<Rightarrow> Signatures" where
  "signatures_from_vec sigs =
     \<lparr>sigs_r = map sig_r sigs, sigs_s = map sig_s sigs,
      sigs_v = map (\<lambda>sig. of_bool (sig_v sig) + 27) sigs\<rparr>"

definition vec_from_signatures :: "Signatures \<Rightarrow> Signature list res" where
  "vec_from_signatures ss =
     traverse_res
       (\<lambda>idx. bind_res (vec_index (sigs_r ss) idx) (\<lambda>r.
              bind_res (vec_index (sigs_s ss) idx) (\<lambda>s.
              bind_res (vec_index (sigs_v ss) idx) (\<lambda>v.
                Ok \<lparr>sig_r = r, sig_s = s, sig_v = (v - 27 \<noteq> 0)\<rparr>))))
       [0..<length (sigs_r ss)]"

text \<open>
  The signatures of a relay are ordered by the address each recovers to; \<open>recover\<close> stands for
  \<open>recover_message\<close> on the signed bytes, whose elliptic-curve recovery is third-party code.
\<close>

definition sort_by_signer :: "(Signature \<Rightarrow> address res) \<Rightarrow> Signatures \<Rightarrow> Signatures res" where
  "sort_by_signer recover ss =
     bind_res (vec_from_signatures ss) (\<lambda>sigs.
     bind_res (traverse_res (\<lambda>sig. bind_res (recover sig) (\<lambda>addr. Ok (addr, sig))) sigs) (\<lambda>keyed.
       Ok (signatures_from_vec (map snd (sort_key fst keyed)))))"

lemma vec_from_signatures_from_vec: "vec_from_signatures (signatures_from_vec sigs) = Ok sigs"
proof -
  have "vec_from_signatures (signatures_from_vec sigs)
      = Ok (map (\<lambda>i. sigs ! i) [0..<length sigs])"
    unfolding vec_from_signatures_def
    by (simp add: signatures_from_vec_def)
      (rule traverse_res_map, auto simp: vec_index_def)
  then show ?thesis
    by (simp add: map_nth)
qed

lemma vec_from_signatures_default: "vec_from_signatures signatures_default = Ok []"
  by (simp add: vec_from_signatures_def signatures_default_def)

lemma vec_from_signatures_panics_iff:
  "vec_from_signatures ss = Panic \<longleftrightarrow>
     length (sigs_s ss) < length (sigs_r ss) \<or> length (sigs_v ss) < length (sigs_r ss)"
  unfolding vec_from_signatures_def
  by (subst traverse_res_Panic_iff)
    (auto simp: vec_index_def not_less intro: order.strict_trans2)

lemma sort_by_signer_Ok:
  assumes "vec_from_signatures ss = Ok sigs"
    and "\<And>sig. sig \<in> set sigs \<Longrightarrow> recover sig = Ok (who sig)"
  shows "sort_by_signer recover ss = Ok (signatures_from_vec (sort_key who sigs))"
proof -
  have "traverse_res (\<lambda>sig. bind_res (recover sig) (\<lambda>addr. Ok (addr, sig))) sigs
      = Ok (map (\<lambda>sig. (who sig, sig)) sigs)"
    using assms(2) by (intro traverse_res_map) simp
  then show ?thesis
    using assms(1) by (simp add: sort_by_signer_def sort_key_tagged)
qed

end
