(* ===== verification/Provider_Config.thy ===== *)
theory Provider_Config
  imports Cccp_Types
begin

text \<open>
  What the configuration file says of a provider and what the relayer derives from it
  (\<open>primitives/src/cli.rs\<close>, \<open>primitives/src/eth.rs\<close>), and the range checks made at
  start-up (\<open>relayer/src/verification.rs\<close>).
\<close>

section \<open>Configuration\<close>

record EVMProvider =
  ep_name :: string
  ep_id :: chain_id
  ep_provider :: string
  ep_call_interval :: u64
  ep_block_confirmations :: u64
  ep_is_native :: "bool option"
  ep_is_relay_target :: bool
  ep_eip1559 :: "bool option"
  ep_get_logs_batch_size :: "u64 option"
  ep_max_hook_fee :: "u128 option"
  socket_address :: string
  authority_address :: string
  vault_address :: string
  hooks_address :: "string option"
  relayer_manager_address :: "string option"
  bitcoin_socket_address :: "string option"
  socket_queue_address :: "string option"
  registration_pool_address :: "string option"
  relay_executive_address :: "string option"
  blaze_address :: "string option"
  chainlink_usdc_usd_address :: "string option"
  chainlink_usdt_usd_address :: "string option"
  chainlink_dai_usd_address :: "string option"
  chainlink_btc_usd_address :: "string option"
  chainlink_wbtc_usd_address :: "string option"
  chainlink_cbbtc_usd_address :: "string option"
  chainlink_jpy_usd_address :: "string option"

record BootstrapConfig =
  is_enabled :: bool
  round_offset :: "u64 option"
  btc_block_offset :: "u32 option"

definition DEFAULT_GET_LOGS_BATCH_SIZE :: u64 where "DEFAULT_GET_LOGS_BATCH_SIZE = 1"
definition MIN_GET_LOGS_BATCH_SIZE :: u64 where "MIN_GET_LOGS_BATCH_SIZE = 1"
definition MAX_CALL_INTERVAL_MS :: u64 where "MAX_CALL_INTERVAL_MS = 60000"
definition MAX_BLOCK_CONFIRMATIONS :: u64 where "MAX_BLOCK_CONFIRMATIONS = 100"
definition MAX_BOOTSTRAP_ROUND_OFFSET :: u64 where "MAX_BOOTSTRAP_ROUND_OFFSET = 14"
definition DEFAULT_BOOTSTRAP_ROUND_OFFSET :: u64 where "DEFAULT_BOOTSTRAP_ROUND_OFFSET = 3"

lemmas config_consts = DEFAULT_GET_LOGS_BATCH_SIZE_def MIN_GET_LOGS_BATCH_SIZE_def
  MAX_CALL_INTERVAL_MS_def MAX_BLOCK_CONFIRMATIONS_def MAX_BOOTSTRAP_ROUND_OFFSET_def
  DEFAULT_BOOTSTRAP_ROUND_OFFSET_def

section \<open>Start-up checks\<close>

text \<open>
  Each failed assertion panics. \<open>saturating_div\<close> saturates on overflow only: a zero divisor
  panics, and the divisor here is the configured call interval.
\<close>

definition rust_assert :: "bool \<Rightarrow> unit res" where
  "rust_assert b = (if b then Ok () else Panic)"

definition u64_div :: "u64 \<Rightarrow> u64 \<Rightarrow> u64 res" where
  "u64_div a b = (if b = 0 then Panic else Ok (a div b))"

definition assert_bootstrap_config :: "BootstrapConfig option \<Rightarrow> unit res" where
  "assert_bootstrap_config cfg =
     (case cfg of
        None \<Rightarrow> Ok ()
      | Some c \<Rightarrow>
          (case round_offset c of
             None \<Rightarrow> Ok ()
           | Some off \<Rightarrow> rust_assert (1 \<le> off \<and> off \<le> MAX_BOOTSTRAP_ROUND_OFFSET)))"

definition assert_evm_provider :: "EVMProvider \<Rightarrow> unit res" where
  "assert_evm_provider p =
     bind_res (rust_assert (ep_call_interval p \<le> MAX_CALL_INTERVAL_MS)) (\<lambda>_.
     bind_res (rust_assert (ep_block_confirmations p \<le> MAX_BLOCK_CONFIRMATIONS)) (\<lambda>_.
       case ep_get_logs_batch_size p of
         None \<Rightarrow> Ok ()
       | Some batch \<Rightarrow>
           bind_res (u64_div MAX_CALL_INTERVAL_MS (ep_call_interval p)) (\<lambda>max_batch.
             rust_assert (MIN_GET_LOGS_BATCH_SIZE \<le> batch \<and> batch \<le> max_batch))))"

fun assert_evm_providers :: "EVMProvider list \<Rightarrow> unit res" where
  "assert_evm_providers [] = Ok ()"
| "assert_evm_providers (p # ps) =
     bind_res (assert_evm_provider p) (\<lambda>_. assert_evm_providers ps)"

definition assert_configuration_validity ::
    "BootstrapConfig option \<Rightarrow> EVMProvider list \<Rightarrow> unit res" where
  "assert_configuration_validity cfg ps =
     bind_res (assert_bootstrap_config cfg) (\<lambda>_. assert_evm_providers ps)"

lemma rust_assert_Ok_iff [simp]: "rust_assert b = Ok () \<longleftrightarrow> b"
  by (simp add: rust_assert_def)

lemma assert_evm_providers_Ok_iff:
  "assert_evm_providers ps = Ok () \<longleftrightarrow> (\<forall>p \<in> set ps. assert_evm_provider p = Ok ())"
  by (induction ps) (auto simp: bind_res_Ok_iff)

section \<open>Provider metadata\<close>

record ProviderMetadata =
  md_name :: string
  md_url :: string
  md_id :: chain_id
  bitcoin_chain_id :: "chain_id option"
  block_confirmations :: u64
  get_logs_batch_size :: u64
  call_interval :: u64
  eip1559 :: bool
  if_destination_chain :: RelayDirection
  is_native :: bool
  is_relay_target :: bool
  max_hook_fee :: "u256 option"

definition ProviderMetadata_new ::
    "EVMProvider \<Rightarrow> string \<Rightarrow> chain_id option \<Rightarrow> bool \<Rightarrow> ProviderMetadata" where
  "ProviderMetadata_new p url btc native =
     (let batch = (case ep_get_logs_batch_size p of
                     None \<Rightarrow> DEFAULT_GET_LOGS_BATCH_SIZE | Some b \<Rightarrow> b)
      in \<lparr>md_name = ep_name p,
          md_url = url,
          md_id = ep_id p,
          bitcoin_chain_id = btc,
          block_confirmations = saturating_add (ep_block_confirmations p) batch,
          get_logs_batch_size = batch,
          call_interval = ep_call_interval p,
          eip1559 = (case ep_eip1559 p of None \<Rightarrow> False | Some b \<Rightarrow> b),
          if_destination_chain = (if native then Inbound else Outbound),
          is_native = native,
          is_relay_target = ep_is_relay_target p,
          max_hook_fee = map_option ucast (ep_max_hook_fee p)\<rparr>)"

section \<open>Contract addresses\<close>

text \<open>
  A contract instance is an address bound to a provider; the address is what the relayer
  compares and sends to. \<open>parse\<close> stands for \<open>Address::from_str\<close>.
\<close>

record ProtocolContracts =
  socket :: address
  authority :: address
  vault :: address
  hooks :: "address option"
  relayer_manager :: "address option"
  bitcoin_socket :: "address option"
  socket_queue :: "address option"
  registration_pool :: "address option"
  relay_executive :: "address option"
  blaze :: "address option"

definition opt_contract :: "(string \<Rightarrow> address option) \<Rightarrow> string option \<Rightarrow> address option res" where
  "opt_contract parse a =
     (case a of None \<Rightarrow> Ok None | Some s \<Rightarrow> bind_res (unwrap (parse s)) (\<lambda>x. Ok (Some x)))"

definition native_contract ::
    "(string \<Rightarrow> address option) \<Rightarrow> bool \<Rightarrow> string option \<Rightarrow> address option res" where
  "native_contract parse native a =
     (if native
      then bind_res (unwrap a) (\<lambda>s. bind_res (unwrap (parse s)) (\<lambda>x. Ok (Some x)))
      else Ok None)"

definition ProtocolContracts_new ::
    "(string \<Rightarrow> address option) \<Rightarrow> bool \<Rightarrow> EVMProvider \<Rightarrow> ProtocolContracts res" where
  "ProtocolContracts_new parse native p =
     bind_res (unwrap (parse (socket_address p))) (\<lambda>sck.
     bind_res (unwrap (parse (authority_address p))) (\<lambda>auth.
     bind_res (unwrap (parse (vault_address p))) (\<lambda>vlt.
     bind_res (opt_contract parse (hooks_address p)) (\<lambda>hks.
     bind_res (native_contract parse native (relayer_manager_address p)) (\<lambda>rm.
     bind_res (native_contract parse native (bitcoin_socket_address p)) (\<lambda>bs.
     bind_res (native_contract parse native (socket_queue_address p)) (\<lambda>sq.
     bind_res (native_contract parse native (registration_pool_address p)) (\<lambda>rp.
     bind_res (native_contract parse native (relay_executive_address p)) (\<lambda>re.
     bind_res (native_contract parse native (blaze_address p)) (\<lambda>bl.
       Ok \<lparr>socket = sck, authority = auth, vault = vlt, hooks = hks, relayer_manager = rm,
           bitcoin_socket = bs, socket_queue = sq, registration_pool = rp,
           relay_executive = re, blaze = bl\<rparr>))))))))))"

record AggregatorContracts =
  chainlink_usdc_usd :: "address option"
  chainlink_usdt_usd :: "address option"
  chainlink_dai_usd :: "address option"
  chainlink_btc_usd :: "address option"
  chainlink_wbtc_usd :: "address option"
  chainlink_cbbtc_usd :: "address option"
  chainlink_jpy_usd :: "address option"

definition AggregatorContracts_default :: AggregatorContracts where
  "AggregatorContracts_default =
     \<lparr>chainlink_usdc_usd = None, chainlink_usdt_usd = None, chainlink_dai_usd = None,
      chainlink_btc_usd = None, chainlink_wbtc_usd = None, chainlink_cbbtc_usd = None,
      chainlink_jpy_usd = None\<rparr>"

definition AggregatorContracts_new ::
    "(string \<Rightarrow> address option) \<Rightarrow> EVMProvider \<Rightarrow> AggregatorContracts res" where
  "AggregatorContracts_new parse p =
     bind_res (opt_contract parse (chainlink_usdc_usd_address p)) (\<lambda>usdc.
     bind_res (opt_contract parse (chainlink_usdt_usd_address p)) (\<lambda>usdt.
     bind_res (opt_contract parse (chainlink_dai_usd_address p)) (\<lambda>dai.
     bind_res (opt_contract parse (chainlink_btc_usd_address p)) (\<lambda>btc.
     bind_res (opt_contract parse (chainlink_wbtc_usd_address p)) (\<lambda>wbtc.
     bind_res (opt_contract parse (chainlink_cbbtc_usd_address p)) (\<lambda>cbbtc.
     bind_res (opt_contract parse (chainlink_jpy_usd_address p)) (\<lambda>jpy.
       Ok \<lparr>chainlink_usdc_usd = usdc, chainlink_usdt_usd = usdt, chainlink_dai_usd = dai,
           chainlink_btc_usd = btc, chainlink_wbtc_usd = wbtc, chainlink_cbbtc_usd = cbbtc,
           chainlink_jpy_usd = jpy\<rparr>)))))))"

definition has_any_feeds :: "AggregatorContracts \<Rightarrow> bool" where
  "has_any_feeds a \<longleftrightarrow>
     chainlink_usdc_usd a \<noteq> None \<or> chainlink_usdt_usd a \<noteq> None \<or> chainlink_dai_usd a \<noteq> None
     \<or> chainlink_btc_usd a \<noteq> None \<or> chainlink_wbtc_usd a \<noteq> None \<or> chainlink_cbbtc_usd a \<noteq> None"

lemma native_contract_cases:
  "native_contract parse native a = Ok x \<longleftrightarrow>
     (if native then (\<exists>s y. a = Some s \<and> parse s = Some y \<and> x = Some y) else x = None)"
  by (auto simp: native_contract_def bind_res_Ok_iff)

lemma ProtocolContracts_new_native:
  assumes "ProtocolContracts_new parse native p = Ok c"
  shows "(relayer_manager c \<noteq> None \<longleftrightarrow> native) \<and> (bitcoin_socket c \<noteq> None \<longleftrightarrow> native)
    \<and> (socket_queue c \<noteq> None \<longleftrightarrow> native) \<and> (blaze c \<noteq> None \<longleftrightarrow> native)"
  using assms
  by (auto simp: ProtocolContracts_new_def bind_res_Ok_iff native_contract_cases split: if_splits)

end
