(* ===== verification/Eth_Client.thy ===== *)
theory Eth_Client
  imports Provider_Config
begin

text \<open>
  The client of one EVM chain (\<open>client/src/eth/mod.rs\<close>): its identity and signers, the
  chunked retrieval of historical logs, the ERC20 caches, and the retry layer every JSON-RPC
  call goes through. Answers of the node are arguments of the operations.
\<close>

section \<open>Logs and filters\<close>

record Log =
  log_address :: address
  log_topics :: "b256 list"
  log_data :: bytes
  log_block_number :: "u64 option"
  transaction_hash :: "b256 option"

definition topic0 :: "Log \<Rightarrow> b256 option" where
  "topic0 l = (case log_topics l of [] \<Rightarrow> None | t # _ \<Rightarrow> Some t)"

record Filter =
  f_addresses :: "address list"
  f_event_signature :: "b256 option"
  from_block :: u64
  to_block :: u64

section \<open>The client\<close>

record EthClient =
  metadata :: ProviderMetadata
  protocol_contracts :: ProtocolContracts
  aggregator_contracts :: AggregatorContracts
  signers :: "address list"
  default_address :: address

definition client_chain_id :: "EthClient \<Rightarrow> chain_id" where
  "client_chain_id c = md_id (metadata c)"

definition get_bitcoin_chain_id :: "EthClient \<Rightarrow> chain_id option" where
  "get_bitcoin_chain_id c = bitcoin_chain_id (metadata c)"

definition verify_chain_id :: "chain_id res \<Rightarrow> EthClient \<Rightarrow> unit res" where
  "verify_chain_id reported c =
     bind_res reported (\<lambda>chain. if chain \<noteq> md_id (metadata c) then Err InvalidChainId else Ok ())"

text \<open>
  \<open>update_default_address\<close>: the first of our signers that the round selected, the zero
  address if none was. The selected relayers are the given ones or the relayer manager's answer
  \<open>selected\<close>, whose failure panics, as does a client without a relayer manager.
\<close>

definition update_default_address ::
    "address list res \<Rightarrow> address list option \<Rightarrow> EthClient \<Rightarrow> EthClient res" where
  "update_default_address selected new_relayers c =
     bind_res
       (case new_relayers of
          Some relayers \<Rightarrow> Ok relayers
        | None \<Rightarrow>
            bind_res (unwrap (relayer_manager (protocol_contracts c))) (\<lambda>_.
              case selected of Ok rs \<Rightarrow> Ok rs | _ \<Rightarrow> Panic))
       (\<lambda>relayers.
          let matched = (case List.find (\<lambda>s. s \<in> set relayers) (signers c) of
                           Some s \<Rightarrow> s | None \<Rightarrow> 0)
          in Ok (if default_address c \<noteq> matched then c\<lparr>default_address := matched\<rparr> else c))"

text \<open>Signing looks the default address up among the signers and panics when it is not there.\<close>

definition sign_message ::
    "(address \<Rightarrow> bytes \<Rightarrow> Signature res) \<Rightarrow> EthClient \<Rightarrow> bytes \<Rightarrow> Signature res" where
  "sign_message sign c message =
     (if default_address c \<in> set (signers c) then sign (default_address c) message else Panic)"

definition client_is_selected_relayer :: "(address \<Rightarrow> bool res) \<Rightarrow> EthClient \<Rightarrow> bool res" where
  "client_is_selected_relayer selected c =
     bind_res (unwrap (relayer_manager (protocol_contracts c)))
       (\<lambda>_. selected (default_address c))"

definition blaze_activation :: "bool res \<Rightarrow> EthClient \<Rightarrow> bool res" where
  "blaze_activation activated c =
     (case blaze (protocol_contracts c) of None \<Rightarrow> Ok False | Some _ \<Rightarrow> activated)"

definition get_asset_address_by_index ::
    "(b256 \<Rightarrow> b256 res) \<Rightarrow> (b256 \<Rightarrow> (address \<times> address) res) \<Rightarrow> b256 \<Rightarrow> bool \<Rightarrow> address res" where
  "get_asset_address_by_index remote_asset_pair assets_config asset_index_hash is_inbound =
     bind_res (remote_asset_pair asset_index_hash) (\<lambda>remote_asset_index.
     bind_res (assets_config remote_asset_index) (\<lambda>(unified, target).
       Ok (if is_inbound then unified else target)))"

text \<open>
  The decimals cache: a hit answers without a call, a miss calls the token and stores the
  answer; a failed call stores nothing. \<open>decimals_of\<close> is the token contract's answer.
\<close>

definition get_erc20_decimals ::
    "(address \<Rightarrow> u8 res) \<Rightarrow> (address \<rightharpoonup> u8) \<Rightarrow> address \<Rightarrow> u8 res \<times> (address \<rightharpoonup> u8)" where
  "get_erc20_decimals decimals_of cache a =
     (case cache a of
        Some d \<Rightarrow> (Ok d, cache)
      | None \<Rightarrow>
          (case decimals_of a of
             Ok d \<Rightarrow> (Ok d, cache(a \<mapsto> d))
           | r \<Rightarrow> (r, cache)))"

definition cache_consistent :: "(address \<Rightarrow> u8 res) \<Rightarrow> (address \<rightharpoonup> u8) \<Rightarrow> bool" where
  "cache_consistent decimals_of cache \<longleftrightarrow> (\<forall>a d. cache a = Some d \<longrightarrow> decimals_of a = Ok d)"

section \<open>Historical logs in chunks\<close>

definition BOOTSTRAP_BLOCK_CHUNK_SIZE :: u64 where "BOOTSTRAP_BLOCK_CHUNK_SIZE = 1000"

text \<open>
  The loop \<open>while from_block <= to_block\<close> of every bootstrap fetch. The range of one request
  ends at \<open>min (from + chunk - 1) to\<close>, the next starts one later, with the wrap-around of 64-bit
  arithmetic; \<open>None\<close> is a loop that does not end.
\<close>

partial_function (option) fetch_chunks ::
    "(u64 \<Rightarrow> u64 \<Rightarrow> Log list res) \<Rightarrow> u64 \<Rightarrow> u64 \<Rightarrow> u64 \<Rightarrow> Log list \<Rightarrow> Log list res option" where
  "fetch_chunks get_logs frm til chunk_size logs =
     (if frm \<le> til
      then (let chunk_to = min (frm + chunk_size - 1) til
            in case get_logs frm chunk_to of
                 Ok chunk_logs \<Rightarrow>
                   fetch_chunks get_logs (chunk_to + 1) til chunk_size (logs @ chunk_logs)
               | Err e \<Rightarrow> Some (Err e)
               | Panic \<Rightarrow> Some Panic)
      else Some (Ok logs))"

definition get_historical_logs ::
    "(Filter \<Rightarrow> Log list res) \<Rightarrow> u64 res \<Rightarrow> u64 res \<Rightarrow> address list \<Rightarrow> b256 \<Rightarrow> u64
      \<Rightarrow> Log list res option" where
  "get_historical_logs get_logs offset_height latest addresses event_signature chunk_size =
     (case bind_res offset_height (\<lambda>h. bind_res latest (\<lambda>l. Ok (h, l))) of
        Ok (height, l) \<Rightarrow>
          fetch_chunks
            (\<lambda>a b. get_logs \<lparr>f_addresses = addresses, f_event_signature = Some event_signature,
                             from_block = a, to_block = b\<rparr>)
            (saturating_sub l height) l chunk_size []
      | Err e \<Rightarrow> Some (Err e)
      | Panic \<Rightarrow> Some Panic)"

text \<open>The ranges the loop should request, on natural numbers.\<close>

function chunk_ranges :: "nat \<Rightarrow> nat \<Rightarrow> nat \<Rightarrow> (nat \<times> nat) list" where
  "chunk_ranges a b n =
     (if a \<le> b \<and> 0 < n
      then (a, min (a + n - 1) b) # chunk_ranges (min (a + n - 1) b + 1) b n
      else [])"
  by pat_completeness auto
termination
  by (relation "measure (\<lambda>(a, b, n). Suc b - a)") auto

declare chunk_ranges.simps [simp del]

lemma chunk_ranges_cover:
  "0 < n \<Longrightarrow> concat (map (\<lambda>(x, y). [x..<Suc y]) (chunk_ranges a b n)) = [a..<Suc b]"
proof (induction a b n rule: chunk_ranges.induct)
  case (1 a b n)
  show ?case
  proof (cases "a \<le> b")
    case True
    define c where "c = min (a + n - 1) b"
    have "a \<le> c" "c \<le> b" using True "1.prems" by (auto simp: c_def)
    then have "[a..<Suc b] = [a..<Suc c] @ [Suc c..<Suc b]"
      by (rule upt_split)
    moreover have "concat (map (\<lambda>(x, y). [x..<Suc y]) (chunk_ranges (Suc c) b n)) = [Suc c..<Suc b]"
      using 1 True by (simp add: c_def)
    moreover have "chunk_ranges a b n = (a, c) # chunk_ranges (Suc c) b n"
      using True "1.prems" by (simp add: chunk_ranges.simps [of a b n] c_def)
    ultimately show ?thesis
      by (simp del: upt_Suc)
  next
    case False
    then show ?thesis by (simp add: chunk_ranges.simps [of a b n])
  qed
qed

lemma chunk_ranges_logs:
  "0 < n \<Longrightarrow> concat (map (\<lambda>(x, y). concat (map g [x..<Suc y])) (chunk_ranges a b n)) = concat (map g [a..<Suc b])"
proof -
  have "concat (map (\<lambda>(x, y). concat (map g [x..<Suc y])) rs)
      = concat (map g (concat (map (\<lambda>(x, y). [x..<Suc y]) rs)))" for rs :: "(nat \<times> nat) list"
    by (induction rs) (auto simp del: upt_Suc)
  then show "0 < n \<Longrightarrow> ?thesis" by (simp only: chunk_ranges_cover)
qed

lemma fetch_chunks_step:
  fixes frm til chunk :: u64
  assumes "unat til + unat chunk < 2 ^ 64" and "0 < unat chunk" and "frm \<le> til"
  shows "unat (min (frm + chunk - 1) til) = min (unat frm + unat chunk - 1) (unat til)"
    and "unat (min (frm + chunk - 1) til + 1) = min (unat frm + unat chunk - 1) (unat til) + 1"
proof -
  have le: "unat frm \<le> unat til"
    using assms(3) by (simp add: word_le_nat_alt)
  have a: "unat (frm + chunk) = unat frm + unat chunk"
    using assms(1) le by (simp add: unat_word_ariths)
  have "(1::u64) \<le> frm + chunk"
    using assms(2) a by (simp add: word_le_nat_alt)
  then have b: "unat (frm + chunk - 1) = unat frm + unat chunk - 1"
    using a by (simp add: unat_sub)
  show c: "unat (min (frm + chunk - 1) til) = min (unat frm + unat chunk - 1) (unat til)"
    using b by (auto simp: min_def word_le_nat_alt)
  have "unat (min (frm + chunk - 1) til) + 1 < 2 ^ 64"
    using c assms(1,2) by simp
  then show "unat (min (frm + chunk - 1) til + 1) = min (unat frm + unat chunk - 1) (unat til) + 1"
    using c by (simp add: unat_word_ariths)
qed

text \<open>
  Away from the end of the 64-bit range the loop ends and asks exactly the ranges of
  \<open>chunk_ranges\<close>, in order, concatenating the answers.
\<close>

lemma fetch_chunks_ok:
  assumes "unat til + unat chunk < 2 ^ 64" and "0 < unat chunk"
    and "\<And>a b. a \<le> b \<Longrightarrow> get_logs a b = Ok (answer (unat a) (unat b))"
  shows "fetch_chunks get_logs frm til chunk logs =
    Some (Ok (logs @ concat (map (\<lambda>(x, y). answer x y)
      (chunk_ranges (unat frm) (unat til) (unat chunk)))))"
proof (induction "Suc (unat til) - unat frm" arbitrary: frm logs rule: less_induct)
  case less
  show ?case
  proof (cases "frm \<le> til")
    case True
    let ?c = "min (frm + chunk - 1) til"
    note step = fetch_chunks_step [OF assms(1,2) True]
    have le: "unat frm \<le> unat til" using True by (simp add: word_le_nat_alt)
    have "frm \<le> ?c"
      using step(1) le assms(2) by (simp add: word_le_nat_alt)
    then have ans: "get_logs frm ?c = Ok (answer (unat frm) (unat ?c))"
      by (rule assms(3))
    have "Suc (unat til) - unat (?c + 1) < Suc (unat til) - unat frm"
      using step(2) le assms(2) by simp
    note ih = less [OF this, of "logs @ answer (unat frm) (unat ?c)"]
    show ?thesis
      using True ans ih step le assms(2)
      by (subst fetch_chunks.simps, subst chunk_ranges.simps) (simp add: Let_def)
  next
    case False
    then show ?thesis
      by (subst fetch_chunks.simps, subst chunk_ranges.simps) (simp add: word_le_nat_alt)
  qed
qed

text \<open>At the very end of the range the increment wraps to 0 and the loop starts over.\<close>

lemma fetch_chunks_wraps:
  assumes "frm + chunk - 1 = - 1" and "get_logs frm (- 1) = Ok ls"
  shows "fetch_chunks get_logs frm (- 1) chunk logs
       = fetch_chunks get_logs 0 (- 1) chunk (logs @ ls)"
  using assms by (subst fetch_chunks.simps) (simp add: Let_def)

section \<open>Retrying a request\<close>

text \<open>
  \<open>RetryBackoffService::call\<close>. The responses of the inner service are given in order; \<open>None\<close> is
  a failure (a transport error or an error response). The counter \<open>requests_enqueued\<close> is
  threaded as the code changes it: the call that gives up after too many retries returns without
  decrementing it.
\<close>

fun retry_loop :: "nat \<Rightarrow> nat \<Rightarrow> 'r option list \<Rightarrow> u32 \<Rightarrow> ('r res \<times> u32) option" where
  "retry_loop max_retries retry_count [] enq = None"
| "retry_loop max_retries retry_count (Some r # rest) enq = Some (Ok r, enq - 1)"
| "retry_loop max_retries retry_count (None # rest) enq =
     (if max_retries < retry_count + 1 then Some (Err RpcError, enq)
      else retry_loop max_retries (retry_count + 1) rest enq)"

definition retry_call :: "nat \<Rightarrow> 'r option list \<Rightarrow> u32 \<Rightarrow> ('r res \<times> u32) option" where
  "retry_call max_retries responses enq = retry_loop max_retries 0 responses (enq + 1)"

lemma retry_loop_failures:
  "retry_loop m k (replicate n None @ rest) enq =
     (if k \<le> m \<and> m < k + n then Some (Err RpcError, enq)
      else if m < k \<and> 0 < n then Some (Err RpcError, enq)
      else retry_loop m (k + n) rest enq)"
  by (induction n arbitrary: k) auto

end
