(* ===== verification/Tx_Requests.thy ===== *)
theory Tx_Requests
  imports Eth_Client
begin

text \<open>
  What the relayer sends out (\<open>primitives/src/tx.rs\<close>): contract calls with the metadata they
  are logged under, unsigned extrinsics for the Bifrost runtime, and messages on the internal
  channels. \<open>send_transaction\<close> is the entry of \<open>client/src/eth/mod.rs\<close> up to the point where it
  spawns the submitting task.
\<close>

section \<open>Bitcoin identifiers\<close>

text \<open>
  A transaction id is its 32 bytes, in the order of the library that holds it: the Bitcoin node
  and the Bifrost contracts use opposite orders. An address is known by the script it pays to;
  the parser and the printer of addresses are third-party code and arguments where they are used.
\<close>

type_synonym txid = bytes

datatype btc_address = BtcAddress bytes

text \<open>\<open>slice.reverse(); Txid::from_slice(&slice)?\<close>: a slice of another length is an error.\<close>

definition reversed_txid :: "txid \<Rightarrow> txid res" where
  "reversed_txid t = (if length t = 32 then Ok (rev t) else Err InvalidTxid)"

lemma reversed_txid_involution:
  "reversed_txid t = Ok u \<Longrightarrow> reversed_txid u = Ok t"
  by (auto simp: reversed_txid_def split: if_splits)

section \<open>Metadata\<close>

record SocketRelayMetadata =
  srm_is_inbound :: bool
  srm_status :: SocketEventStatus
  srm_sequence :: u128
  srm_src_chain_id :: chain_id
  srm_dst_chain_id :: chain_id
  srm_receiver :: address
  srm_is_bootstrap :: bool

record RollbackMetadata =
  rbm_is_inbound :: bool
  rbm_status :: SocketEventStatus
  rbm_sequence :: u128
  rbm_src_chain_id :: chain_id
  rbm_dst_chain_id :: chain_id

record HookMetadata =
  hm_sender :: address
  hm_receiver :: address
  hm_max_tx_fee :: u256
  hm_fee_in_bridged_asset :: "u256 option"
  hm_message :: bytes

record OnFlightPollMetadata =
  ofm_is_inbound :: bool
  ofm_sequence :: u128
  ofm_src_chain_id :: chain_id
  ofm_dst_chain_id :: chain_id

record FinalizePollMetadata =
  fpm_is_inbound :: bool
  fpm_sequence :: u128
  fpm_src_chain_id :: chain_id
  fpm_dst_chain_id :: chain_id
  fpm_is_committed :: bool

record BitcoinRelayMetadata =
  brm_btc_address :: btc_address
  brm_bfc_address :: address
  brm_txid :: txid
  brm_index :: u32

text \<open>A price in units of \<open>10 ^ -18\<close> USD and the traded volume (\<open>primitives/src/periodic.rs\<close>).\<close>

record PriceResponse =
  pr_price :: u256
  pr_volume :: u256

datatype TxMetadata =
    SocketRelay SocketRelayMetadata
  | BitcoinRelay BitcoinRelayMetadata
  | Heartbeat u256 u256
  | PriceFeed "(string \<times> PriceResponse) list"
  | Rollback RollbackMetadata
  | Hook HookMetadata
  | VSPPhase1 u256 "address list"
  | VSPPhase2 u256 chain_id

section \<open>Contract calls\<close>

record Round_Up_Submit =
  rus_round :: u256
  rus_new_relayers :: "address list"
  rus_sigs :: Signatures

datatype Call =
    Poll Socket_Message Signatures u256
  | HooksExecute u256 Socket_Message
  | HooksRollback Socket_Message
  | RoundControlPoll Round_Up_Submit
  | RoundControlRelay Round_Up_Submit
  | BitcoinSocketPoll txid u256 address u256
  | RelayerHeartbeat
  | OracleAggregateFeeding "b256 list" "b256 list"
  | LatestOracleData b256

record TxRequest =
  tx_to :: address
  tx_from :: "address option"
  tx_call :: Call
  tx_gas_limit :: "u64 option"

section \<open>Unsigned extrinsics\<close>

record UtxoInfo =
  utxo_txid :: txid
  utxo_vout :: u32
  utxo_amount :: u64
  utxo_address :: bytes

text \<open>
  The extrinsics with the fields of their messages, the authority that submits them first, and
  the signature. The last three are never built by the relayer, which only knows how to submit
  them; their payload is kept as bytes.
\<close>

datatype XtRequest =
    VaultKeyPresubmission address "bytes list" u32 Signature
  | SubmitSystemVaultKey address address bytes u32 Signature
  | SubmitVaultKey address address bytes u32 Signature
  | SubmitExecutedRequest address txid Signature
  | SubmitRollbackPoll address txid bool Signature
  | SubmitSignedPsbt address bytes bytes Signature
  | BroadcastPoll address txid Signature
  | SubmitFeeRate address u64 u64 u32 Signature
  | SubmitUtxos address "UtxoInfo list" Signature
  | SubmitOutboundRequests address "bytes list" Signature
  | OnFlightPoll address bytes b256 b256 Signature
  | FinalizePoll address bytes Signature
  | SubmitUnsignedPsbt bytes
  | RemoveOutboundMessages bytes
  | ApproveSetRefunds bytes

datatype XtRequestMetadata =
    XtSubmitVaultKey address bytes
  | XtSubmitSignedPsbt b256
  | XtSubmitUnsignedPsbt b256
  | XtSubmitExecutedRequest txid
  | XtSubmitRollbackPoll txid bool
  | XtVaultKeyPresubmission nat
  | XtSubmitUtxos txid u32 u64
  | XtBroadcastPoll txid
  | XtSubmitOutboundRequests SocketRelayMetadata
  | XtSubmitFeeRate u64 u64
  | XtRemoveOutboundMessages nat
  | XtApproveSetRefunds nat nat
  | XtOnFlightPoll OnFlightPollMetadata
  | XtFinalizePoll FinalizePollMetadata

record XtRequestMessage =
  retries_remaining :: u8
  retry_interval :: u64
  xt_call :: XtRequest
  xt_metadata :: XtRequestMetadata

definition DEFAULT_TX_RETRIES :: u8 where "DEFAULT_TX_RETRIES = 3"
definition DEFAULT_TX_RETRY_INTERVAL_MS :: u64 where "DEFAULT_TX_RETRY_INTERVAL_MS = 3000"

definition XtRequestMessage_new :: "XtRequest \<Rightarrow> XtRequestMetadata \<Rightarrow> XtRequestMessage" where
  "XtRequestMessage_new call meta =
     \<lparr>retries_remaining = DEFAULT_TX_RETRIES, retry_interval = DEFAULT_TX_RETRY_INTERVAL_MS,
      xt_call = call, xt_metadata = meta\<rparr>"

definition build_retry_event :: "XtRequestMessage \<Rightarrow> XtRequestMessage" where
  "build_retry_event m = m\<lparr>retries_remaining := saturating_sub (retries_remaining m) 1\<rparr>"

lemma build_retry_event_iter:
  "unat (retries_remaining ((build_retry_event ^^ n) m)) = unat (retries_remaining m) - n"
  by (induction n) (simp_all add: build_retry_event_def)

section \<open>Effects\<close>

datatype effect =
    SendTx chain_id TxRequest TxMetadata
  | StoreRollbackable chain_id Socket_Message
  | SendXt XtRequestMessage
  | SendRawTransaction txid

text \<open>\<open>send_transaction\<close> does nothing for a chain the operator does not relay to.\<close>

definition send_transaction :: "EthClient \<Rightarrow> TxRequest \<Rightarrow> TxMetadata \<Rightarrow> (effect, unit) eff" where
  "send_transaction client request meta =
     (if is_relay_target (metadata client)
      then emit (SendTx (client_chain_id client) request meta)
      else ret ())"

text \<open>A closed channel makes the send fail; the failure is logged and dropped.\<close>

definition send_xt :: "bool \<Rightarrow> XtRequest \<Rightarrow> XtRequestMetadata \<Rightarrow> (effect, unit) eff" where
  "send_xt channel_open call meta =
     (if channel_open then emit (SendXt (XtRequestMessage_new call meta)) else ret ())"

lemma send_transaction_ok [simp]: "snd (send_transaction c r m) = Ok ()"
  by (simp add: send_transaction_def)

lemma send_xt_ok [simp]: "snd (send_xt b c m) = Ok ()"
  by (simp add: send_xt_def)

lemma send_transaction_mem [simp]:
  "f \<in> set (fst (send_transaction c r m)) \<longleftrightarrow>
     is_relay_target (metadata c) \<and> f = SendTx (client_chain_id c) r m"
  by (auto simp: send_transaction_def)

lemma send_xt_mem [simp]:
  "f \<in> set (fst (send_xt b c m)) \<longleftrightarrow> b \<and> f = SendXt (XtRequestMessage_new c m)"
  by (auto simp: send_xt_def)

end
