(* ===== verification/Example_Setup.thy ===== *)
theory Example_Setup
  imports Tx_Requests
begin

text \<open>
  A small concrete deployment on which the witnesses of the properties are evaluated: the
  Bifrost chain (id 3068) with all its contracts, one external chain (id 1), and a message
  requested on the external chain towards Bifrost.
\<close>

definition ex_metadata :: "chain_id \<Rightarrow> bool \<Rightarrow> ProviderMetadata" where
  "ex_metadata chain native =
     \<lparr>md_name = ''chain'', md_url = ''http'', md_id = chain, bitcoin_chain_id = Some 10000,
      block_confirmations = 5, get_logs_batch_size = 1, call_interval = 3000, eip1559 = False,
      if_destination_chain = (if native then Inbound else Outbound), is_native = native,
      is_relay_target = True, max_hook_fee = Some 1000000\<rparr>"

definition ex_contracts :: "bool \<Rightarrow> ProtocolContracts" where
  "ex_contracts native =
     \<lparr>socket = 11, authority = 12, vault = 13, hooks = Some 14,
      relayer_manager = (if native then Some 15 else None),
      bitcoin_socket = (if native then Some 16 else None),
      socket_queue = (if native then Some 17 else None),
      registration_pool = (if native then Some 18 else None),
      relay_executive = (if native then Some 19 else None),
      blaze = (if native then Some 20 else None)\<rparr>"

definition ex_client :: "chain_id \<Rightarrow> bool \<Rightarrow> EthClient" where
  "ex_client chain native =
     \<lparr>metadata = ex_metadata chain native, protocol_contracts = ex_contracts native,
      aggregator_contracts = AggregatorContracts_default, signers = [7], default_address = 7\<rparr>"

definition ex_clients :: "chain_id \<rightharpoonup> EthClient" where
  "ex_clients = [3068 \<mapsto> ex_client 3068 True, 1 \<mapsto> ex_client 1 False]"

definition ex_message :: "u8 \<Rightarrow> Socket_Message" where
  "ex_message st =
     \<lparr>req_id = \<lparr>ChainIndex = 1, round_id = 5, sequence = 42\<rparr>, msg_status = st,
      ins_code = \<lparr>ins_ChainIndex = 3068, RBCmethod = 0\<rparr>,
      params = \<lparr>tokenIDX0 = 99, tokenIDX1 = 0, refund = 14, to = 8, amount = 1000,
                variants = [1]\<rparr>\<rparr>"

definition ex_outbound_message :: "u8 \<Rightarrow> Socket_Message" where
  "ex_outbound_message st =
     (ex_message st)\<lparr>req_id := \<lparr>ChainIndex = 3068, round_id = 5, sequence = 43\<rparr>,
                     ins_code := \<lparr>ins_ChainIndex = 1, RBCmethod = 0\<rparr>\<rparr>"

definition ex_signature :: Signature where
  "ex_signature = \<lparr>sig_r = 1, sig_s = 2, sig_v = True\<rparr>"

lemmas ex_defs = ex_metadata_def ex_contracts_def ex_client_def ex_clients_def ex_message_def
  ex_outbound_message_def ex_signature_def

lemma ex_message_simps [simp]:
  "src_chain_id (ex_message st) = 1" "dst_chain_id (ex_message st) = 3068"
  "msg_status (ex_message st) = st"
  "src_chain_id (ex_outbound_message st) = 3068" "dst_chain_id (ex_outbound_message st) = 1"
  "msg_status (ex_outbound_message st) = st"
  by (simp_all add: src_chain_id_def dst_chain_id_def ex_defs)

lemma ex_status_simps [simp]:
  "socket_status_from_u8 0 = Ok Status_None" "socket_status_from_u8 1 = Ok Requested"
  "socket_status_from_u8 2 = Ok Failed" "socket_status_from_u8 3 = Ok Executed"
  "socket_status_from_u8 4 = Ok Reverted" "socket_status_from_u8 5 = Ok Accepted"
  "socket_status_from_u8 6 = Ok Rejected" "socket_status_from_u8 7 = Ok Committed"
  "socket_status_from_u8 8 = Ok Rollbacked"
  by (simp_all add: socket_status_from_u8_def)

end
