(* ===== verification/Hook_Executor.thy ===== *)
theory Hook_Executor
  imports Example_Setup
begin

text \<open>
  The hook executor of \<open>client/src/eth/traits.rs\<close>: when a socket message carries a hook, which
  checks admit it, what its execution may cost, and which transactions are sent for it.
\<close>

section \<open>What the executor reads\<close>

record Variants =
  v_sender :: address
  v_receiver :: address
  v_refund :: address
  v_max_tx_fee :: u256
  v_message :: bytes

datatype OracleKey = NativeCurrency u64 | Asset address

text \<open>An answer to a gas estimation; reverts are told apart from other failures.\<close>

datatype gas_answer = Gas u64 | Reverted_estimate | Estimate_failed

text \<open>
  The executor's surroundings. Runtime storage, contracts and the ABI decoder answer queries;
  price reads that fail are \<open>None\<close>, because the code treats every failure of theirs alike.
\<close>

record HookEnv =
  h_client :: EthClient
  h_bifrost_client :: EthClient
  h_system_clients :: "chain_id \<rightharpoonup> EthClient"
  h_hook_state :: "b256 \<Rightarrow> bool option res"
  h_decode_variants :: "bytes \<Rightarrow> Variants option"
  h_processed :: "bytes \<Rightarrow> bool res"
  h_rolledback :: "bytes \<Rightarrow> bool res"
  h_estimate_gas :: "TxRequest \<Rightarrow> gas_answer"
  h_gas_price :: "u128 res"
  h_orc_manager :: "unit res"
  h_oracles :: "OracleKey \<Rightarrow> b256 option res"
  h_asset_indexes :: "b256 \<Rightarrow> address option res"
  h_aggregators :: "address \<Rightarrow> (address \<times> u8) option res"
  h_asset_address :: "b256 \<Rightarrow> bool \<Rightarrow> address res"
  h_erc20_decimals :: "address \<Rightarrow> u8 res"
  h_last_oracle_info :: "b256 \<Rightarrow> (u64 \<times> u256) option"
  h_latest_round_data :: "address \<Rightarrow> (u256 \<times> u256) option"
  h_now :: u64

definition CHAINLINK_STALENESS_THRESHOLD_VOLATILE :: u64 where
  "CHAINLINK_STALENESS_THRESHOLD_VOLATILE = 3600"

definition NATIVE_CURRENCY_ADDRESS :: address where
  "NATIVE_CURRENCY_ADDRESS = - 1"

definition is_hookable :: "HookEnv \<Rightarrow> b256 \<Rightarrow> bool res" where
  "is_hookable env asset_index_hash =
     bind_res (h_hook_state env asset_index_hash)
       (\<lambda>v. case v of Some b \<Rightarrow> Ok b | None \<Rightarrow> Ok False)"

definition get_oracle_oid_for_chain :: "HookEnv \<Rightarrow> chain_id \<Rightarrow> b256 option res" where
  "get_oracle_oid_for_chain env chain = h_oracles env (NativeCurrency chain)"

definition get_oracle_oid_for_asset :: "HookEnv \<Rightarrow> address \<Rightarrow> b256 option res" where
  "get_oracle_oid_for_asset env asset = h_oracles env (Asset asset)"

section \<open>Admission\<close>

text \<open>The payload lacks the outer tuple wrapper: 31 zero bytes and 0x20 go in front of it.\<close>

definition wrap_variants :: "bytes \<Rightarrow> bytes" where
  "wrap_variants payload = replicate 31 0 @ [0x20] @ payload"

definition should_process_hook ::
    "HookEnv \<Rightarrow> Socket_Message \<Rightarrow> SocketEventStatus \<Rightarrow> Variants option res" where
  "should_process_hook env msg expected_status =
     bind_res (socket_status_from_u8 (msg_status msg)) (\<lambda>status.
       if status \<noteq> expected_status then Ok None
       else if (case get_bitcoin_chain_id (h_bifrost_client env) of
                  Some btc \<Rightarrow> src_chain_id msg = btc \<or> dst_chain_id msg = btc
                | None \<Rightarrow> False) then Ok None
       else
         (case h_system_clients env (src_chain_id msg) of
            None \<Rightarrow> Ok None
          | Some src_client \<Rightarrow>
              (case hooks (protocol_contracts src_client) of
                 None \<Rightarrow> Ok None
               | Some hooks_addr \<Rightarrow>
                   if refund (params msg) \<noteq> hooks_addr then Ok None
                   else
                     bind_res (is_hookable env (tokenIDX0 (params msg))) (\<lambda>hookable.
                       if \<not> hookable then Ok None
                       else if variants (params msg) = [] then Ok None
                       else Ok (h_decode_variants env (wrap_variants (variants (params msg))))))))"

definition should_execute_hook :: "HookEnv \<Rightarrow> Socket_Message \<Rightarrow> Variants option res" where
  "should_execute_hook env msg =
     bind_res (should_process_hook env msg Executed) (\<lambda>vs.
       case vs of
         None \<Rightarrow> Ok None
       | Some v \<Rightarrow>
           (case hooks (protocol_contracts (h_client env)) of
              None \<Rightarrow> Ok None
            | Some _ \<Rightarrow>
                bind_res (h_processed env (request_id_bytes (req_id msg))) (\<lambda>is_processed.
                  if \<not> is_processed then Ok (Some v) else Ok None)))"

definition should_rollback_hook :: "HookEnv \<Rightarrow> Socket_Message \<Rightarrow> Variants option res" where
  "should_rollback_hook env msg =
     bind_res (should_process_hook env msg Rollbacked) (\<lambda>vs.
       case vs of
         None \<Rightarrow> Ok None
       | Some v \<Rightarrow>
           (case hooks (protocol_contracts (h_client env)) of
              None \<Rightarrow> Ok None
            | Some _ \<Rightarrow>
                bind_res (h_rolledback env (request_id_bytes (req_id msg))) (\<lambda>is_rollbacked.
                  if \<not> is_rollbacked then Ok (Some v) else Ok None)))"

section \<open>Fee estimation\<close>

text \<open>
  The pieces of \<open>estimate_hook_gas\<close>, in its order. \<open>Ok None\<close> is the early return of
  \<open>(U256::ZERO, 0)\<close>, which skips the hook.
\<close>

definition hook_gas_cost :: "HookEnv \<Rightarrow> TxRequest \<Rightarrow> (u64 \<times> u256) option res" where
  "hook_gas_cost env tx =
     (case h_estimate_gas env tx of
        Reverted_estimate \<Rightarrow> Ok None
      | Estimate_failed \<Rightarrow> Err RpcError
      | Gas gas \<Rightarrow>
          bind_res (h_gas_price env) (\<lambda>gas_price.
          bind_res (ok_or (checked_mul (ucast gas :: u256) (ucast gas_price)) GasFeeOverflow) (\<lambda>fee.
            case max_hook_fee (metadata (h_client env)) of
              Some limit \<Rightarrow> if fee > limit then Ok None else Ok (Some (gas, fee))
            | None \<Rightarrow> Ok (Some (gas, fee)))))"

definition oracle_price :: "HookEnv \<Rightarrow> b256 \<Rightarrow> u256 option" where
  "oracle_price env oid =
     (case h_last_oracle_info env oid of
        None \<Rightarrow> None
      | Some (time, data) \<Rightarrow>
          if saturating_sub (h_now env) time > CHAINLINK_STALENESS_THRESHOLD_VOLATILE then None
          else if data = 0 then None
          else Some data)"

text \<open>\<open>updatedAt.try_into().unwrap_or_default()\<close>: 0 when the value does not fit 64 bits.\<close>

definition u64_or_default :: "u256 \<Rightarrow> u64" where
  "u64_or_default x = (if unat x < 2 ^ 64 then ucast x else 0)"

definition pow10 :: "u8 \<Rightarrow> u256" where
  "pow10 n = 10 ^ unat n"

definition normalize_price :: "u8 \<Rightarrow> u256 \<Rightarrow> u256 res" where
  "normalize_price decimals price_raw =
     (if decimals \<le> 18
      then ok_or (checked_mul price_raw (pow10 (18 - decimals))) PriceNormalizationOverflow
      else ok_or (checked_div price_raw (pow10 (decimals - 18))) PriceNormalizationOverflow)"

definition aggregator_price :: "HookEnv \<Rightarrow> address \<Rightarrow> u256 option res" where
  "aggregator_price env asset_id =
     bind_res (h_aggregators env asset_id) (\<lambda>info.
       case info of
         None \<Rightarrow> Ok None
       | Some (aggregator, decimals) \<Rightarrow>
           (case h_latest_round_data env aggregator of
              None \<Rightarrow> Ok None
            | Some (updated_at, answer) \<Rightarrow>
                if saturating_sub (h_now env) (u64_or_default updated_at)
                     > CHAINLINK_STALENESS_THRESHOLD_VOLATILE then Ok None
                else if sint answer \<le> 0 then Ok None
                else bind_res (normalize_price decimals answer) (\<lambda>normalized.
                       if normalized = 0 then Ok None else Ok (Some normalized))))"

definition bridged_price :: "HookEnv \<Rightarrow> b256 \<Rightarrow> address \<Rightarrow> u256 option res" where
  "bridged_price env oid asset_id =
     (if oid = 0 then aggregator_price env asset_id else Ok (oracle_price env oid))"

definition convert_fee :: "u256 \<Rightarrow> u256 \<Rightarrow> u8 \<Rightarrow> u256 \<Rightarrow> u256 res" where
  "convert_fee fee_in_dnc dnc_price decimals price =
     bind_res (ok_or (checked_mul fee_in_dnc dnc_price) FeeTimesPriceOverflow) (\<lambda>x.
     bind_res (ok_or (checked_mul x (pow10 decimals)) DecimalAdjustmentOverflow) (\<lambda>y.
     bind_res (ok_or (checked_div y price) DivisionByPrice) (\<lambda>z.
       ok_or (checked_div z (pow10 18)) DecimalNormalization)))"

definition bridged_decimals :: "HookEnv \<Rightarrow> b256 \<Rightarrow> bool \<Rightarrow> u8 res" where
  "bridged_decimals env token is_inbound =
     bind_res (h_asset_address env token is_inbound) (\<lambda>asset.
       if asset = NATIVE_CURRENCY_ADDRESS then Ok 18 else h_erc20_decimals env asset)"

fun skip_none :: "'a option res \<Rightarrow> ('a \<Rightarrow> (u256 \<times> u64) res) \<Rightarrow> (u256 \<times> u64) res" where
  "skip_none (Ok None) k = Ok (0, 0)"
| "skip_none (Ok (Some x)) k = k x"
| "skip_none (Err e) k = Err e"
| "skip_none Panic k = Panic"

definition estimate_hook_gas ::
    "HookEnv \<Rightarrow> Socket_Message \<Rightarrow> u256 \<Rightarrow> TxRequest \<Rightarrow> bool \<Rightarrow> (u256 \<times> u64) res" where
  "estimate_hook_gas env msg max_tx_fee tx is_inbound =
     (if max_tx_fee > amount (params msg)
      then Err (MaxTxFeeExceedsAmount max_tx_fee (amount (params msg)))
      else
        skip_none (hook_gas_cost env tx) (\<lambda>(gas, fee_in_dnc).
        bind_res (h_orc_manager env) (\<lambda>_.
        skip_none (get_oracle_oid_for_chain env (md_id (metadata (h_client env)))) (\<lambda>dnc_oid.
        skip_none (h_asset_indexes env (tokenIDX0 (params msg))) (\<lambda>asset_id.
        bind_res (bridged_decimals env (tokenIDX0 (params msg)) is_inbound) (\<lambda>decimals.
        skip_none (get_oracle_oid_for_asset env asset_id) (\<lambda>bridged_oid.
        skip_none (Ok (oracle_price env dnc_oid)) (\<lambda>dnc_price.
        skip_none (bridged_price env bridged_oid asset_id) (\<lambda>price.
        bind_res (convert_fee fee_in_dnc dnc_price decimals price) (\<lambda>fee.
          if fee > max_tx_fee then Err (FeeExceedsMaxTxFee fee max_tx_fee)
          else Ok (fee, gas)))))))))))"

section \<open>Execution\<close>

definition hook_metadata :: "Variants \<Rightarrow> u256 option \<Rightarrow> HookMetadata" where
  "hook_metadata v fee =
     \<lparr>hm_sender = v_sender v, hm_receiver = v_receiver v, hm_max_tx_fee = v_max_tx_fee v,
      hm_fee_in_bridged_asset = fee, hm_message = v_message v\<rparr>"

definition execute_hook ::
    "HookEnv \<Rightarrow> Socket_Message \<Rightarrow> Variants \<Rightarrow> bool \<Rightarrow> (effect, unit) eff" where
  "execute_hook env msg v is_inbound =
     (case hooks (protocol_contracts (h_client env)) of
        None \<Rightarrow> ret ()
      | Some h \<Rightarrow>
          (let me = default_address (h_client env);
               init_tx = \<lparr>tx_to = h, tx_from = Some me,
                          tx_call = HooksExecute (v_max_tx_fee v) msg, tx_gas_limit = None\<rparr>
           in bind_eff (lift (estimate_hook_gas env msg (v_max_tx_fee v) init_tx is_inbound))
                (\<lambda>(fee, gas).
                   if fee = 0 \<or> gas = 0 then ret ()
                   else
                     send_transaction (h_client env)
                       \<lparr>tx_to = h, tx_from = Some me, tx_call = HooksExecute fee msg,
                        tx_gas_limit = Some gas\<rparr>
                       (Hook (hook_metadata v (Some fee))))))"

definition rollback_hook :: "HookEnv \<Rightarrow> Socket_Message \<Rightarrow> Variants \<Rightarrow> (effect, unit) eff" where
  "rollback_hook env msg v =
     (case hooks (protocol_contracts (h_client env)) of
        None \<Rightarrow> ret ()
      | Some h \<Rightarrow>
          send_transaction (h_client env)
            \<lparr>tx_to = h, tx_from = Some (default_address (h_client env)),
             tx_call = HooksRollback msg, tx_gas_limit = None\<rparr>
            (Hook (hook_metadata v None)))"

section \<open>Lemmas\<close>

lemma skip_none_Ok_iff:
  "skip_none m k = Ok y \<longleftrightarrow> m = Ok None \<and> y = (0, 0) \<or> (\<exists>x. m = Ok (Some x) \<and> k x = Ok y)"
  by (cases "(m, k)" rule: skip_none.cases) auto

lemma hook_gas_cost_SomeD:
  assumes "hook_gas_cost env tx = Ok (Some (gas, fee))"
  shows "h_estimate_gas env tx = Gas gas
    \<and> (\<exists>p. h_gas_price env = Ok p \<and> unat fee = unat gas * unat p)
    \<and> (\<forall>limit. max_hook_fee (metadata (h_client env)) = Some limit \<longrightarrow> fee \<le> limit)"
  using assms
  by (auto simp: hook_gas_cost_def bind_res_Ok_iff unat_ucast_up
      dest!: checked_mul_SomeD split: gas_answer.splits option.splits if_splits)

lemma oracle_price_SomeD:
  assumes "oracle_price env oid = Some p"
  shows "\<exists>t. h_last_oracle_info env oid = Some (t, p) \<and> p \<noteq> 0 \<and> unat (h_now env) - unat t \<le> 3600"
proof -
  from assms obtain t where "h_last_oracle_info env oid = Some (t, p)" "p \<noteq> 0"
    "\<not> saturating_sub (h_now env) t > CHAINLINK_STALENESS_THRESHOLD_VOLATILE"
    by (auto simp: oracle_price_def split: option.splits if_splits)
  then show ?thesis
    by (auto simp: CHAINLINK_STALENESS_THRESHOLD_VOLATILE_def word_less_nat_alt)
qed

lemma bridged_price_nonzero:
  "bridged_price env oid a = Ok (Some p) \<Longrightarrow> p \<noteq> 0"
  by (auto simp: bridged_price_def aggregator_price_def bind_res_Ok_iff oracle_price_def
      split: if_splits option.splits)

lemma unat_pow10:
  assumes "unat n \<le> 77"
  shows "unat (pow10 n) = 10 ^ unat n"
proof -
  have "(10::nat) ^ unat n \<le> 10 ^ 77"
    using assms by (intro power_increasing) auto
  also have "\<dots> < 2 ^ 256" by simp
  finally have "(10::nat) ^ unat n < 2 ^ LENGTH(256)" by simp
  moreover have "pow10 n = of_nat (10 ^ unat n)" by (simp add: pow10_def)
  ultimately show ?thesis
    by (simp only: unat_of_nat mod_less)
qed

lemma convert_fee_Ok:
  assumes "convert_fee f d n p = Ok r"
  shows "p \<noteq> 0 \<and> unat r = unat f * unat d * unat (pow10 n) div unat p div 10 ^ 18"
proof -
  have ten: "unat (pow10 18) = 10 ^ 18"
    using unat_pow10 [of 18] by simp
  from assms show ?thesis
    by (auto simp: convert_fee_def bind_res_Ok_iff ten
        dest!: checked_mul_SomeD checked_div_SomeD)
qed

text \<open>Everything a non-zero estimate rests on.\<close>

lemma estimate_hook_gas_OkD:
  assumes "estimate_hook_gas env msg max_tx_fee tx is_inbound = Ok (fee, gas)" and "fee \<noteq> 0"
  obtains cost dnc_oid dnc_price asset_id oid price decimals where
    "max_tx_fee \<le> amount (params msg)" "hook_gas_cost env tx = Ok (Some (gas, cost))"
    "get_oracle_oid_for_chain env (md_id (metadata (h_client env))) = Ok (Some dnc_oid)"
    "oracle_price env dnc_oid = Some dnc_price"
    "h_asset_indexes env (tokenIDX0 (params msg)) = Ok (Some asset_id)"
    "get_oracle_oid_for_asset env asset_id = Ok (Some oid)"
    "bridged_price env oid asset_id = Ok (Some price)"
    "bridged_decimals env (tokenIDX0 (params msg)) is_inbound = Ok decimals"
    "convert_fee cost dnc_price decimals price = Ok fee" "fee \<le> max_tx_fee"
  using assms
  by (auto simp: estimate_hook_gas_def skip_none_Ok_iff bind_res_Ok_iff not_less
      split: if_splits)

lemma execute_hook_effect:
  assumes "f \<in> set (fst (execute_hook env msg v is_inbound))"
  obtains h fee gas where "hooks (protocol_contracts (h_client env)) = Some h"
    "f = SendTx (client_chain_id (h_client env))
       \<lparr>tx_to = h, tx_from = Some (default_address (h_client env)),
        tx_call = HooksExecute fee msg, tx_gas_limit = Some gas\<rparr> (Hook (hook_metadata v (Some fee)))"
    "fee \<noteq> 0" "gas \<noteq> 0" "is_relay_target (metadata (h_client env))"
    "estimate_hook_gas env msg (v_max_tx_fee v)
       \<lparr>tx_to = h, tx_from = Some (default_address (h_client env)),
        tx_call = HooksExecute (v_max_tx_fee v) msg, tx_gas_limit = None\<rparr> is_inbound = Ok (fee, gas)"
  using assms
  by (auto simp: execute_hook_def Let_def fst_bind_eff_mem split: option.splits if_splits)

lemma should_process_hook_SomeD:
  assumes "should_process_hook env msg st = Ok (Some v)"
  obtains src h where "socket_status_from_u8 (msg_status msg) = Ok st"
    "h_system_clients env (src_chain_id msg) = Some src"
    "hooks (protocol_contracts src) = Some h" "refund (params msg) = h"
    "h_hook_state env (tokenIDX0 (params msg)) = Ok (Some True)" "variants (params msg) \<noteq> []"
    "h_decode_variants env (wrap_variants (variants (params msg))) = Some v"
    "get_bitcoin_chain_id (h_bifrost_client env) \<noteq> Some (src_chain_id msg)"
    "get_bitcoin_chain_id (h_bifrost_client env) \<noteq> Some (dst_chain_id msg)"
  using assms
  by (auto simp: should_process_hook_def bind_res_Ok_iff is_hookable_def
      split: if_splits option.splits)

section \<open>Properties\<close>

definition ex_hook_env :: HookEnv where
  "ex_hook_env =
     \<lparr>h_client = ex_client 3068 True, h_bifrost_client = ex_client 3068 True,
      h_system_clients = ex_clients,
      h_hook_state = (\<lambda>_. Ok (Some True)),
      h_decode_variants = (\<lambda>_. Some \<lparr>v_sender = 3, v_receiver = 4, v_refund = 5,
                                     v_max_tx_fee = 500, v_message = []\<rparr>),
      h_processed = (\<lambda>_. Ok False), h_rolledback = (\<lambda>_. Ok False),
      h_estimate_gas = (\<lambda>_. Gas 100), h_gas_price = Ok 10, h_orc_manager = Ok (),
      h_oracles = (\<lambda>k. case k of NativeCurrency _ \<Rightarrow> Ok (Some 1) | Asset _ \<Rightarrow> Ok (Some 2)),
      h_asset_indexes = (\<lambda>_. Ok (Some 77)), h_aggregators = (\<lambda>_. Ok None),
      h_asset_address = (\<lambda>_ _. Ok NATIVE_CURRENCY_ADDRESS), h_erc20_decimals = (\<lambda>_. Ok 18),
      h_last_oracle_info = (\<lambda>oid. Some (1000, if oid = 1 then 2 else 8)),
      h_latest_round_data = (\<lambda>_. None), h_now = 2000\<rparr>"

definition ex_variants :: Variants where
  "ex_variants = \<lparr>v_sender = 3, v_receiver = 4, v_refund = 5, v_max_tx_fee = 500, v_message = []\<rparr>"

definition ex_hook_tx :: TxRequest where
  "ex_hook_tx = \<lparr>tx_to = 14, tx_from = Some 7, tx_call = HooksExecute 500 (ex_message 3),
                 tx_gas_limit = None\<rparr>"

lemma ex_hook_estimate:
  "estimate_hook_gas ex_hook_env (ex_message 3) 500 ex_hook_tx True = Ok (250, 100)"
  by (simp add: estimate_hook_gas_def hook_gas_cost_def ex_hook_env_def ex_defs checked_mul_def
      ok_or_def get_oracle_oid_for_chain_def get_oracle_oid_for_asset_def bridged_decimals_def
      oracle_price_def CHAINLINK_STALENESS_THRESHOLD_VOLATILE_def bridged_price_def
      convert_fee_def checked_div_def pow10_def saturating_sub_def)

text \<open>
  C24: A hook estimate that is not skipped charges exactly the gas cost converted at the two
  oracle prices, rounded down, never more than the user's \<open>max_tx_fee\<close>, which itself never
  exceeds the bridged amount; the gas cost respects the operator's \<open>max_hook_fee\<close> and the
  native-currency price is at most an hour old.
\<close>

theorem estimate_hook_gas_sound:
  assumes "estimate_hook_gas env msg max_tx_fee tx is_inbound = Ok (fee, gas)" and "fee \<noteq> 0"
  shows "fee \<le> max_tx_fee \<and> max_tx_fee \<le> amount (params msg)
    \<and> (\<exists>gas_price dnc_oid time dnc_price asset_id oid decimals price.
         h_estimate_gas env tx = Gas gas \<and> h_gas_price env = Ok gas_price
         \<and> (\<forall>limit. max_hook_fee (metadata (h_client env)) = Some limit \<longrightarrow>
              unat gas * unat gas_price \<le> unat limit)
         \<and> get_oracle_oid_for_chain env (md_id (metadata (h_client env))) = Ok (Some dnc_oid)
         \<and> h_last_oracle_info env dnc_oid = Some (time, dnc_price)
         \<and> unat (h_now env) - unat time \<le> 3600
         \<and> h_asset_indexes env (tokenIDX0 (params msg)) = Ok (Some asset_id)
         \<and> get_oracle_oid_for_asset env asset_id = Ok (Some oid)
         \<and> bridged_price env oid asset_id = Ok (Some price)
         \<and> bridged_decimals env (tokenIDX0 (params msg)) is_inbound = Ok decimals \<and> price \<noteq> 0
         \<and> unat fee = unat gas * unat gas_price * unat dnc_price * unat (pow10 decimals)
                        div unat price div 10 ^ 18)"
proof -
  from assms obtain cost dnc_oid dnc_price asset_id oid price decimals where
    e: "max_tx_fee \<le> amount (params msg)" "hook_gas_cost env tx = Ok (Some (gas, cost))"
      "oracle_price env dnc_oid = Some dnc_price"
      "get_oracle_oid_for_chain env (md_id (metadata (h_client env))) = Ok (Some dnc_oid)"
      "h_asset_indexes env (tokenIDX0 (params msg)) = Ok (Some asset_id)"
      "get_oracle_oid_for_asset env asset_id = Ok (Some oid)"
      "bridged_price env oid asset_id = Ok (Some price)"
      "bridged_decimals env (tokenIDX0 (params msg)) is_inbound = Ok decimals"
      "convert_fee cost dnc_price decimals price = Ok fee" "fee \<le> max_tx_fee"
    by (rule estimate_hook_gas_OkD)
  from hook_gas_cost_SomeD [OF e(2)] obtain p where
    p: "h_estimate_gas env tx = Gas gas" "h_gas_price env = Ok p" "unat cost = unat gas * unat p"
      "\<forall>limit. max_hook_fee (metadata (h_client env)) = Some limit \<longrightarrow> cost \<le> limit"
    by auto
  from oracle_price_SomeD [OF e(3)] obtain time where
    t: "h_last_oracle_info env dnc_oid = Some (time, dnc_price)" "unat (h_now env) - unat time \<le> 3600"
    by auto
  have "\<forall>limit. max_hook_fee (metadata (h_client env)) = Some limit \<longrightarrow>
      unat gas * unat p \<le> unat limit"
    using p(3,4) by (simp add: word_le_nat_alt)
  moreover have "price \<noteq> 0" "unat fee = unat gas * unat p * unat dnc_price * unat (pow10 decimals)
      div unat price div 10 ^ 18"
    using convert_fee_Ok [OF e(9)] p(3) by simp_all
  ultimately show ?thesis
    using e(1,4-8,10) p(1,2) t by blast
qed

theorem estimate_hook_gas_sound_witness:
  "estimate_hook_gas ex_hook_env (ex_message 3) 500 ex_hook_tx True = Ok (250, 100)
    \<and> (250::u256) \<le> 500 \<and> 500 \<le> amount (params (ex_message 3))"
  using conjunct1 [OF conjunct2 [OF estimate_hook_gas_sound [OF ex_hook_estimate]]]
  by (simp add: ex_hook_estimate)



text \<open>
  A hook is executed or rolled back only for a message in the expected status between two
  non-Bitcoin chains, whose refund address is the hooks contract of its configured source chain,
  whose token is registered as hookable, whose payload decodes, and that the handler's hooks
  contract has not handled yet under the message's 32-byte request key.
\<close>

theorem hook_admission:
  assumes "should_execute_hook env msg = Ok (Some v) \<and> st = Executed
         \<or> should_rollback_hook env msg = Ok (Some v) \<and> st = Rollbacked"
  shows "msg_status msg = socket_status_to_u8 st
    \<and> get_bitcoin_chain_id (h_bifrost_client env) \<noteq> Some (src_chain_id msg)
    \<and> get_bitcoin_chain_id (h_bifrost_client env) \<noteq> Some (dst_chain_id msg)
    \<and> (\<exists>src. h_system_clients env (src_chain_id msg) = Some src
             \<and> hooks (protocol_contracts src) = Some (refund (params msg)))
    \<and> h_hook_state env (tokenIDX0 (params msg)) = Ok (Some True)
    \<and> h_decode_variants env (wrap_variants (variants (params msg))) = Some v
    \<and> hooks (protocol_contracts (h_client env)) \<noteq> None
    \<and> (if st = Executed then h_processed env (request_id_bytes (req_id msg)) = Ok False
       else h_rolledback env (request_id_bytes (req_id msg)) = Ok False)"
proof -
  from assms have p: "should_process_hook env msg st = Ok (Some v)"
    and rest: "hooks (protocol_contracts (h_client env)) \<noteq> None"
      "if st = Executed then h_processed env (request_id_bytes (req_id msg)) = Ok False
       else h_rolledback env (request_id_bytes (req_id msg)) = Ok False"
    by (auto simp: should_execute_hook_def should_rollback_hook_def bind_res_Ok_iff
        split: option.splits if_splits)
  from p show ?thesis
    by (rule should_process_hook_SomeD) (use rest in \<open>auto simp: socket_code.decodes_iff\<close>)
qed

theorem hook_admission_witness:
  "should_execute_hook ex_hook_env (ex_message 3) = Ok (Some ex_variants)
   \<and> h_hook_state ex_hook_env (tokenIDX0 (params (ex_message 3))) = Ok (Some True)"
proof -
  have "should_execute_hook ex_hook_env (ex_message 3) = Ok (Some ex_variants)"
    by (simp add: should_execute_hook_def should_process_hook_def is_hookable_def ex_hook_env_def
        ex_defs ex_variants_def get_bitcoin_chain_id_def src_chain_id_def dst_chain_id_def)
  with hook_admission [of ex_hook_env "ex_message 3" ex_variants Executed] show ?thesis
    by simp
qed

end
