(* ===== verification/Event_Manager.thy ===== *)
theory Event_Manager
  imports Eth_Client
begin

text \<open>
  The event manager of one chain (\<open>client/src/eth/events.rs\<close>): it follows the head of the
  chain in batches of blocks and broadcasts the logs of the watched contracts to the handlers.
\<close>

section \<open>State and operations\<close>

record EventMessage =
  ev_block_number :: u64
  event_logs :: "Log list"

record EventManager =
  em_client :: EthClient
  waiting_block :: u64
  is_balance_sync_enabled :: bool

definition em_initialize ::
    "chain_id res \<Rightarrow> u64 res \<Rightarrow> unit res \<Rightarrow> EventManager \<Rightarrow> EventManager \<times> unit res" where
  "em_initialize reported_chain latest sync_balance em =
     (case verify_chain_id reported_chain (em_client em) of
        Ok () \<Rightarrow>
          (case latest of
             Ok l \<Rightarrow>
               (em\<lparr>waiting_block := saturating_add l 1\<rparr>,
                if is_balance_sync_enabled em then sync_balance else Ok ())
           | Err e \<Rightarrow> (em, Err e)
           | Panic \<Rightarrow> (em, Panic))
      | r \<Rightarrow> (em, r))"

text \<open>The last block of the batch that starts at the waiting block.\<close>

definition batch_end :: "EventManager \<Rightarrow> u64" where
  "batch_end em =
     saturating_add (waiting_block em)
       (saturating_sub (get_logs_batch_size (metadata (em_client em))) 1)"

definition is_batch_ready :: "EventManager \<Rightarrow> u64 \<Rightarrow> bool" where
  "is_batch_ready em latest_block =
     (if waiting_block em > latest_block then False else batch_end em \<le> latest_block)"

definition increment_waiting_block :: "u64 \<Rightarrow> EventManager \<Rightarrow> EventManager" where
  "increment_waiting_block til em = em\<lparr>waiting_block := saturating_add til 1\<rparr>"

definition batch_filter :: "EventManager \<Rightarrow> Filter" where
  "batch_filter em =
     \<lparr>f_addresses =
        (case bitcoin_socket (protocol_contracts (em_client em)) of
           Some bs \<Rightarrow> [socket (protocol_contracts (em_client em)), bs]
         | None \<Rightarrow> [socket (protocol_contracts (em_client em))]),
      f_event_signature = None,
      from_block = waiting_block em,
      to_block = batch_end em\<rparr>"

text \<open>
  Sending on the broadcast channel fails, and is unwrapped, when no receiver is left
  (\<open>has_receivers\<close> false). The waiting block moves only after the logs were read and sent.
\<close>

definition process_new_block ::
    "(Filter \<Rightarrow> Log list res) \<Rightarrow> bool \<Rightarrow> EventManager
      \<Rightarrow> EventManager \<times> (EventMessage, unit) eff" where
  "process_new_block get_logs has_receivers em =
     (case get_logs (batch_filter em) of
        Ok target_logs \<Rightarrow>
          if target_logs \<noteq> [] \<and> \<not> has_receivers then (em, lift Panic)
          else (increment_waiting_block (batch_end em) em,
                if target_logs \<noteq> []
                then emit \<lparr>ev_block_number = waiting_block em, event_logs = target_logs\<rparr>
                else ret ())
      | Err e \<Rightarrow> (em, lift (Err e))
      | Panic \<Rightarrow> (em, lift Panic))"

text \<open>
  One tick of \<open>run\<close> against the head \<open>latest\<close>: \<open>while self.is_batch_ready(latest)\<close>. The
  messages sent so far are accumulated; \<open>None\<close> is a loop that does not end.
\<close>

partial_function (option) em_drain ::
    "(Filter \<Rightarrow> Log list res) \<Rightarrow> bool \<Rightarrow> unit res \<Rightarrow> u64 \<Rightarrow> EventManager \<Rightarrow> EventMessage list
      \<Rightarrow> (EventManager \<times> (EventMessage, unit) eff) option" where
  "em_drain get_logs has_receivers sync_balance latest em sent =
     (if is_batch_ready em latest
      then (case process_new_block get_logs has_receivers em of
              (em', fs, Ok u) \<Rightarrow>
                (if is_balance_sync_enabled em'
                 then (case sync_balance of
                         Ok v \<Rightarrow> em_drain get_logs has_receivers sync_balance latest em' (sent @ fs)
                       | Err e \<Rightarrow> Some (em', sent @ fs, Err e)
                       | Panic \<Rightarrow> Some (em', sent @ fs, Panic))
                 else em_drain get_logs has_receivers sync_balance latest em' (sent @ fs))
            | (em', fs, Err e) \<Rightarrow> Some (em', sent @ fs, Err e)
            | (em', fs, Panic) \<Rightarrow> Some (em', sent @ fs, Panic))
      else Some (em, sent, Ok ()))"

section \<open>The batches tile the chain\<close>

definition em_advance :: "u64 \<Rightarrow> EventManager \<Rightarrow> (nat \<times> nat \<times> EventManager) option" where
  "em_advance latest em =
     (if is_batch_ready em latest
      then Some (unat (waiting_block em), unat (batch_end em),
                 increment_waiting_block (batch_end em) em)
      else None)"

lemma waiting_le_batch_end: "unat (waiting_block em) \<le> unat (batch_end em)"
  using unsigned_less [of "waiting_block em", where 'a = nat] by (simp add: batch_end_def)

interpretation em_cursor: block_cursor "em_advance latest" "\<lambda>em. unat (waiting_block em)" "2 ^ 64 - 1"
  for latest
  by unfold_locales
    (auto simp: em_advance_def increment_waiting_block_def waiting_le_batch_end split: if_splits)

lemma is_batch_ready_iff: "is_batch_ready em latest \<longleftrightarrow> batch_end em \<le> latest"
  using waiting_le_batch_end [of em] by (auto simp: is_batch_ready_def word_le_nat_alt word_less_nat_alt)

lemma batch_filter_simps [simp]:
  "from_block (batch_filter em) = waiting_block em" "to_block (batch_filter em) = batch_end em"
  by (simp_all add: batch_filter_def)

lemma increment_simps [simp]:
  "is_balance_sync_enabled (increment_waiting_block t em) = is_balance_sync_enabled em"
  "em_client (increment_waiting_block t em) = em_client em"
  by (simp_all add: increment_waiting_block_def)

lemma waiting_block_increment:
  "unat t < 2 ^ 64 - 1 \<Longrightarrow> unat (waiting_block (increment_waiting_block t em)) = Suc (unat t)"
  by (simp add: increment_waiting_block_def)

text \<open>
  The node answers a filter with the logs of the blocks of its range, in block order, where
  \<open>logs_at n\<close> are the watched contracts' logs of block \<open>n\<close>.
\<close>

definition serves_logs :: "(nat \<Rightarrow> Log list) \<Rightarrow> (Filter \<Rightarrow> Log list res) \<Rightarrow> bool" where
  "serves_logs logs_at get_logs \<longleftrightarrow>
     (\<forall>f. get_logs f = Ok (concat (map logs_at [unat (from_block f)..<Suc (unat (to_block f))])))"

lemma serves_logsD:
  "serves_logs logs_at get_logs \<Longrightarrow>
     get_logs f = Ok (concat (map logs_at [unat (from_block f)..<Suc (unat (to_block f))]))"
  by (simp add: serves_logs_def)

lemma process_new_block_serves:
  assumes "serves_logs logs_at get_logs"
  obtains msgs where "process_new_block get_logs True em =
      (increment_waiting_block (batch_end em) em, msgs, Ok ())"
    and "concat (map event_logs msgs) =
      concat (map logs_at [unat (waiting_block em)..<Suc (unat (batch_end em))])"
proof -
  let ?ls = "concat (map logs_at [unat (waiting_block em)..<Suc (unat (batch_end em))])"
  have "process_new_block get_logs True em =
      (increment_waiting_block (batch_end em) em,
       if ?ls \<noteq> [] then [\<lparr>ev_block_number = waiting_block em, event_logs = ?ls\<rparr>] else [], Ok ())"
    using serves_logsD [OF assms, of "batch_filter em"]
    by (simp add: process_new_block_def ret_def emit_def del: upt_Suc)
  then show thesis
    by (rule that) (simp split: if_splits del: upt_Suc)
qed

lemma em_drain_sends_all:
  assumes "serves_logs logs_at get_logs" and "latest < - 1"
    and "is_balance_sync_enabled em \<Longrightarrow> sync_balance = Ok ()"
  shows "\<exists>em' msgs. em_drain get_logs True sync_balance latest em sent = Some (em', sent @ msgs, Ok ())
    \<and> \<not> is_batch_ready em' latest \<and> em_client em' = em_client em
    \<and> unat (waiting_block em) \<le> unat (waiting_block em')
    \<and> concat (map event_logs msgs) =
        concat (map logs_at [unat (waiting_block em)..<unat (waiting_block em')])"
  using assms(3)
proof (induction "unat latest + 1 - unat (waiting_block em)" arbitrary: em sent rule: less_induct)
  case less
  let ?em = "increment_waiting_block (batch_end em) em"
  have latest: "unat latest < 2 ^ 64 - 1"
    using assms(2) by (simp add: word_less_nat_alt)
  show ?case
  proof (cases "is_batch_ready em latest")
    case True
    obtain fs where p: "process_new_block get_logs True em = (?em, fs, Ok ())"
      and fs: "concat (map event_logs fs) =
        concat (map logs_at [unat (waiting_block em)..<Suc (unat (batch_end em))])"
      using process_new_block_serves [OF assms(1)] .
    have be: "unat (batch_end em) \<le> unat latest" and we: "unat (waiting_block em) \<le> unat (batch_end em)"
      using True by (simp_all add: is_batch_ready_iff word_le_nat_alt waiting_le_batch_end)
    then have w: "unat (waiting_block ?em) = Suc (unat (batch_end em))"
      using latest by (intro waiting_block_increment) simp
    have dec: "unat latest + 1 - unat (waiting_block ?em) < unat latest + 1 - unat (waiting_block em)"
      using be we w by simp
    from less.hyps [OF dec, of "sent @ fs"] less.prems obtain em' msgs where
      run: "em_drain get_logs True sync_balance latest ?em (sent @ fs) = Some (em', (sent @ fs) @ msgs, Ok ())"
      and post: "\<not> is_batch_ready em' latest" "em_client em' = em_client em"
        "unat (waiting_block ?em) \<le> unat (waiting_block em')"
        "concat (map event_logs msgs) =
          concat (map logs_at [unat (waiting_block ?em)..<unat (waiting_block em')])"
      by auto
    have "em_drain get_logs True sync_balance latest em sent = Some (em', sent @ (fs @ msgs), Ok ())"
      using True p run less.prems
      by (subst em_drain.simps) (cases "is_balance_sync_enabled em"; simp)
    moreover have "concat (map event_logs (fs @ msgs)) =
        concat (map logs_at [unat (waiting_block em)..<unat (waiting_block em')])"
    proof -
      have "[unat (waiting_block em)..<unat (waiting_block em')] =
          [unat (waiting_block em)..<Suc (unat (batch_end em))]
            @ [Suc (unat (batch_end em))..<unat (waiting_block em')]"
        using we post(3) w by (simp only: upt_tile)
      then show ?thesis
        using fs post(4) w by (simp only: map_append concat_append)
    qed
    moreover have "unat (waiting_block em) \<le> unat (waiting_block em')"
      using post(3) w we by simp
    ultimately show ?thesis
      using post(1,2) by blast
  next
    case False
    then show ?thesis
      by (subst em_drain.simps) auto
  qed
qed

end
