(* ===== verification/Socket_Relay.thy ===== *)
theory Socket_Relay
  imports Hook_Executor Event_Manager "HOL-Library.Multiset"
begin

text \<open>
  The socket relay handler (\<open>client/src/eth/handlers/socket_relay_handler.rs\<close>, with the
  builder trait of \<open>client/src/eth/traits.rs\<close>): how one socket event is turned into relay
  transactions, rollbackable messages and Bitcoin outbound requests. The pool of events that wait
  for confirmations is in the theory \<open>Socket_Pending\<close>.
\<close>

section \<open>What the handler reads\<close>

text \<open>
  \<open>r_hook\<close> carries the handler's clients. The remaining fields answer the handler's own queries:
  decoding an event, the runtime's size limit, the relayer manager, the socket contracts
  (\<open>r_get_request\<close> gives the first status field of a request on a chain), the signer, the
  channels, and the node's blocks, transactions and logs.
\<close>

record RelayEnv =
  r_hook :: HookEnv
  r_relay_queue_enabled :: bool
  r_decode_socket :: "Log \<Rightarrow> Socket_Message option"
  r_socket_signature_hash :: b256
  r_abi_encode :: abi_encoder
  r_abi_encode_msg :: "Socket_Message \<Rightarrow> bytes"
  r_hexify :: "bytes \<Rightarrow> bytes"
  r_max_message_bytes :: "u32 res"
  r_is_previous_selected :: "u256 \<Rightarrow> address \<Rightarrow> bool res"
  r_get_request :: "chain_id \<Rightarrow> RequestID \<Rightarrow> u8 res"
  r_get_signatures :: "RequestID \<Rightarrow> u8 \<Rightarrow> Signatures res"
  r_recover :: "bytes \<Rightarrow> Signature \<Rightarrow> address res"
  r_sign :: "address \<Rightarrow> bytes \<Rightarrow> Signature res"
  r_rollback_senders :: "chain_id \<rightharpoonup> bool"
  r_xt_open :: bool
  r_block_number :: "u64 res"
  r_get_transaction :: "b256 \<Rightarrow> u64 option option res"
  r_get_logs :: "Filter \<Rightarrow> Log list res"

abbreviation r_client :: "RelayEnv \<Rightarrow> EthClient" where
  "r_client env \<equiv> h_client (r_hook env)"

abbreviation r_bifrost :: "RelayEnv \<Rightarrow> EthClient" where
  "r_bifrost env \<equiv> h_bifrost_client (r_hook env)"

abbreviation r_systems :: "RelayEnv \<Rightarrow> chain_id \<rightharpoonup> EthClient" where
  "r_systems env \<equiv> h_system_clients (r_hook env)"

section \<open>Targets and direction\<close>

definition is_target_contract :: "RelayEnv \<Rightarrow> Log \<Rightarrow> bool" where
  "is_target_contract env log =
     (case bitcoin_socket (protocol_contracts (r_client env)) of
        Some bs \<Rightarrow> log_address log = socket (protocol_contracts (r_client env)) \<or> log_address log = bs
      | None \<Rightarrow> log_address log = socket (protocol_contracts (r_client env)))"

definition is_target_event :: "RelayEnv \<Rightarrow> b256 option \<Rightarrow> bool" where
  "is_target_event env topic =
     (case topic of Some t \<Rightarrow> t = r_socket_signature_hash env | None \<Rightarrow> False)"

definition is_inbound_sequence :: "EthClient \<Rightarrow> chain_id \<Rightarrow> bool" where
  "is_inbound_sequence client dst =
     (case (client_chain_id client = dst, if_destination_chain (metadata client)) of
        (True, Inbound) \<Rightarrow> True
      | (False, Outbound) \<Rightarrow> True
      | _ \<Rightarrow> False)"

definition is_executable :: "bool \<Rightarrow> SocketEventStatus \<Rightarrow> bool" where
  "is_executable is_inbound status =
     (case (is_inbound, status) of
        (True, Requested) \<Rightarrow> True
      | (False, Accepted) \<Rightarrow> True
      | _ \<Rightarrow> False)"

definition should_process_immediately :: "RelayEnv \<Rightarrow> Log \<Rightarrow> bool option res" where
  "should_process_immediately env log =
     (case r_decode_socket env log of
        None \<Rightarrow> Ok None
      | Some msg \<Rightarrow>
          bind_res (socket_status_from_u8 (msg_status msg)) (\<lambda>status.
            Ok (Some (case (is_inbound_sequence (r_client env) (dst_chain_id msg), status) of
                        (True, Executed) \<Rightarrow> True
                      | (False, Accepted) \<Rightarrow> True
                      | _ \<Rightarrow> False))))"

definition exceeds_max_socket_message_bytes :: "RelayEnv \<Rightarrow> Socket_Message \<Rightarrow> bool res" where
  "exceeds_max_socket_message_bytes env msg =
     bind_res (r_max_message_bytes env) (\<lambda>max_bytes.
       Ok (unat max_bytes < length (encode_socket_message (r_abi_encode env) msg)))"

definition is_selected_relayer :: "RelayEnv \<Rightarrow> u64 \<Rightarrow> bool res" where
  "is_selected_relayer env rnd =
     bind_res (unwrap (relayer_manager (protocol_contracts (r_bifrost env)))) (\<lambda>_.
       r_is_previous_selected env (ucast rnd) (default_address (r_client env)))"

definition is_sequence_ended ::
    "RelayEnv \<Rightarrow> Socket_Message \<Rightarrow> SocketEventStatus \<Rightarrow> bool res" where
  "is_sequence_ended env msg status =
     (if is_inbound_sequence (r_client env) (dst_chain_id msg)
         \<and> get_bitcoin_chain_id (r_client env) = Some (src_chain_id msg)
      then Ok (status = Accepted)
      else
        (case r_systems env (src_chain_id msg) of
           None \<Rightarrow> Ok False
         | Some _ \<Rightarrow>
             bind_res (r_get_request env (src_chain_id msg) (req_id msg)) (\<lambda>field0.
             bind_res (socket_status_from_u8 field0) (\<lambda>st.
               Ok (st = Committed \<or> st = Rollbacked)))))"

section \<open>Building the relay transaction\<close>

definition sign_socket_message :: "RelayEnv \<Rightarrow> Socket_Message \<Rightarrow> Signature res" where
  "sign_socket_message env msg =
     sign_message (r_sign env) (r_client env) (encode_socket_message (r_abi_encode env) msg)"

definition get_sorted_signatures :: "RelayEnv \<Rightarrow> Socket_Message \<Rightarrow> Signatures res" where
  "get_sorted_signatures env msg =
     bind_res (r_get_signatures env (req_id msg) (msg_status msg))
       (sort_by_signer (r_recover env (r_abi_encode_msg env msg)))"

definition build_inbound_signatures :: "RelayEnv \<Rightarrow> Socket_Message \<Rightarrow> (Signatures \<times> bool) res" where
  "build_inbound_signatures env msg =
     bind_res (socket_status_from_u8 (msg_status msg)) (\<lambda>status.
       case status of
         Requested \<Rightarrow> Ok (signatures_default, False)
       | Failed \<Rightarrow> Ok (signatures_default, False)
       | Executed \<Rightarrow>
           bind_res (sign_socket_message env (set_status Accepted msg))
             (\<lambda>sig. Ok (signatures_from_signature sig, False))
       | Reverted \<Rightarrow>
           bind_res (sign_socket_message env (set_status Rejected msg))
             (\<lambda>sig. Ok (signatures_from_signature sig, False))
       | Accepted \<Rightarrow> bind_res (get_sorted_signatures env msg) (\<lambda>ss. Ok (ss, True))
       | Rejected \<Rightarrow> bind_res (get_sorted_signatures env msg) (\<lambda>ss. Ok (ss, True))
       | _ \<Rightarrow> Panic)"

definition build_outbound_signatures :: "RelayEnv \<Rightarrow> Socket_Message \<Rightarrow> (Signatures \<times> bool) res" where
  "build_outbound_signatures env msg =
     bind_res (socket_status_from_u8 (msg_status msg)) (\<lambda>status.
       case status of
         Requested \<Rightarrow>
           bind_res (sign_socket_message env (set_status Accepted msg))
             (\<lambda>sig. Ok (signatures_from_signature sig, False))
       | Accepted \<Rightarrow> bind_res (get_sorted_signatures env msg) (\<lambda>ss. Ok (ss, True))
       | Rejected \<Rightarrow> bind_res (get_sorted_signatures env msg) (\<lambda>ss. Ok (ss, True))
       | Executed \<Rightarrow> Ok (signatures_default, False)
       | Reverted \<Rightarrow> Ok (signatures_default, False)
       | _ \<Rightarrow> Panic)"

definition build_poll_request :: "address \<Rightarrow> Socket_Message \<Rightarrow> Signatures \<Rightarrow> TxRequest" where
  "build_poll_request target msg sigs =
     \<lparr>tx_to = target, tx_from = None, tx_call = Poll msg sigs 0, tx_gas_limit = None\<rparr>"

definition build_transaction ::
    "RelayEnv \<Rightarrow> Socket_Message \<Rightarrow> bool \<Rightarrow> chain_id \<Rightarrow> (TxRequest \<times> bool) option res" where
  "build_transaction env msg is_inbound relay_tx_chain_id =
     (case r_systems env relay_tx_chain_id of
        None \<Rightarrow> Ok None
      | Some system_client \<Rightarrow>
          bind_res (if is_inbound then build_inbound_signatures env msg
                    else build_outbound_signatures env msg) (\<lambda>(sigs, is_external).
            Ok (Some (build_poll_request (socket (protocol_contracts system_client)) msg sigs,
                      is_external))))"

fun get_inbound_relay_tx_chain_id ::
    "SocketEventStatus \<Rightarrow> chain_id \<Rightarrow> chain_id \<Rightarrow> chain_id res" where
  "get_inbound_relay_tx_chain_id Requested src dst = Ok dst"
| "get_inbound_relay_tx_chain_id Failed src dst = Ok dst"
| "get_inbound_relay_tx_chain_id Executed src dst = Ok dst"
| "get_inbound_relay_tx_chain_id Reverted src dst = Ok dst"
| "get_inbound_relay_tx_chain_id Accepted src dst = Ok src"
| "get_inbound_relay_tx_chain_id Rejected src dst = Ok src"
| "get_inbound_relay_tx_chain_id _ src dst = Panic"

fun get_outbound_relay_tx_chain_id ::
    "SocketEventStatus \<Rightarrow> chain_id \<Rightarrow> chain_id \<Rightarrow> chain_id res" where
  "get_outbound_relay_tx_chain_id Requested src dst = Ok src"
| "get_outbound_relay_tx_chain_id Executed src dst = Ok src"
| "get_outbound_relay_tx_chain_id Reverted src dst = Ok src"
| "get_outbound_relay_tx_chain_id Accepted src dst = Ok dst"
| "get_outbound_relay_tx_chain_id Rejected src dst = Ok dst"
| "get_outbound_relay_tx_chain_id _ src dst = Panic"

section \<open>Sending\<close>

definition send_rollbackable_request :: "RelayEnv \<Rightarrow> chain_id \<Rightarrow> Socket_Message \<Rightarrow> (effect, unit) eff" where
  "send_rollbackable_request env chain msg =
     (case r_rollback_senders env chain of
        Some channel_open \<Rightarrow> if channel_open then emit (StoreRollbackable chain msg) else ret ()
      | None \<Rightarrow> ret ())"

definition request_send_transaction ::
    "RelayEnv \<Rightarrow> chain_id \<Rightarrow> TxRequest \<Rightarrow> SocketRelayMetadata \<Rightarrow> Socket_Message \<Rightarrow> (effect, unit) eff" where
  "request_send_transaction env chain tx meta msg =
     (case r_systems env chain of
        None \<Rightarrow> ret ()
      | Some client \<Rightarrow>
          bind_eff (if is_executable (srm_is_inbound meta) (srm_status meta)
                    then send_rollbackable_request env chain msg else ret ())
            (\<lambda>_. send_transaction client tx (SocketRelay meta)))"

definition send_socket_message ::
    "RelayEnv \<Rightarrow> Socket_Message \<Rightarrow> SocketRelayMetadata \<Rightarrow> bool \<Rightarrow> (effect, unit) eff" where
  "send_socket_message env msg meta is_inbound =
     bind_eff (lift (socket_status_from_u8 (msg_status msg))) (\<lambda>status.
     bind_eff (lift (if is_inbound
        then get_inbound_relay_tx_chain_id status (srm_src_chain_id meta) (srm_dst_chain_id meta)
        else get_outbound_relay_tx_chain_id status (srm_src_chain_id meta) (srm_dst_chain_id meta)))
       (\<lambda>chain.
     bind_eff (lift (build_transaction env msg is_inbound chain)) (\<lambda>built.
       case built of
         None \<Rightarrow> ret ()
       | Some (tx, is_external) \<Rightarrow> request_send_transaction env chain tx meta msg)))"

definition BRP_TOKEN_MAINNET :: b256 where
  "BRP_TOKEN_MAINNET = 0x000000030000000300000bfccb4e4f67b33eebfc17c82cf6e8c0b56d269aeb79"

definition BRP_TOKEN_TESTNET :: b256 where
  "BRP_TOKEN_TESTNET = 0x00000003000000030000bfc0e002306b8fdf96044eef870cc500f15e11ef4eaa"

definition submit_brp_outbound_request ::
    "RelayEnv \<Rightarrow> Socket_Message \<Rightarrow> SocketRelayMetadata \<Rightarrow> (effect, unit) eff" where
  "submit_brp_outbound_request env msg meta =
     bind_eff (lift (socket_status_from_u8 (msg_status msg))) (\<lambda>status.
       case get_bitcoin_chain_id (r_client env) of
         None \<Rightarrow> ret ()
       | Some btc \<Rightarrow>
           if is_inbound_sequence (r_client env) (dst_chain_id msg) \<or> dst_chain_id msg \<noteq> btc then ret ()
           else if client_chain_id (r_client env) = 3068
                   \<and> tokenIDX0 (params msg) \<noteq> BRP_TOKEN_MAINNET then ret ()
           else if client_chain_id (r_client env) = 49088
                   \<and> tokenIDX0 (params msg) \<noteq> BRP_TOKEN_TESTNET then ret ()
           else if status \<noteq> Accepted then ret ()
           else
             (let encoded = encode_socket_message (r_abi_encode env) msg
              in bind_eff (lift (sign_message (r_sign env) (r_client env) (r_hexify env encoded)))
                   (\<lambda>sig.
                      send_xt (r_xt_open env)
                        (SubmitOutboundRequests (default_address (r_client env)) [encoded] sig)
                        (XtSubmitOutboundRequests meta))))"

section \<open>Processing an event\<close>

definition relay_metadata ::
    "bool \<Rightarrow> SocketEventStatus \<Rightarrow> Socket_Message \<Rightarrow> bool \<Rightarrow> SocketRelayMetadata" where
  "relay_metadata is_inbound status msg is_bootstrap =
     \<lparr>srm_is_inbound = is_inbound, srm_status = status, srm_sequence = sequence (req_id msg),
      srm_src_chain_id = src_chain_id msg, srm_dst_chain_id = dst_chain_id msg,
      srm_receiver = to (params msg), srm_is_bootstrap = is_bootstrap\<rparr>"

text \<open>
  The hook part of \<open>process_confirmed_log\<close>: failures while executing or rolling back are logged
  and dropped, failures of the admission checks are not.
\<close>

definition process_hooks :: "RelayEnv \<Rightarrow> Socket_Message \<Rightarrow> bool \<Rightarrow> (effect, unit) eff" where
  "process_hooks env msg is_inbound =
     bind_eff (lift (should_execute_hook (r_hook env) msg)) (\<lambda>ve.
     bind_eff (case ve of Some v \<Rightarrow> log_err (execute_hook (r_hook env) msg v is_inbound)
                        | None \<Rightarrow> ret ()) (\<lambda>_.
     bind_eff (lift (should_rollback_hook (r_hook env) msg)) (\<lambda>vr.
       case vr of Some v \<Rightarrow> log_err (rollback_hook (r_hook env) msg v)
                | None \<Rightarrow> ret ())))"

definition process_confirmed_log :: "RelayEnv \<Rightarrow> Log \<Rightarrow> bool \<Rightarrow> (effect, unit) eff" where
  "process_confirmed_log env log is_bootstrap =
     (case r_decode_socket env log of
        None \<Rightarrow> lift Panic
      | Some msg \<Rightarrow>
          bind_eff (lift (socket_status_from_u8 (msg_status msg))) (\<lambda>status.
          bind_eff (lift (exceeds_max_socket_message_bytes env msg)) (\<lambda>oversized.
            if oversized then ret ()
            else if status = Requested \<and> r_relay_queue_enabled env then ret ()
            else
              (let is_inbound = is_inbound_sequence (r_client env) (dst_chain_id msg);
                   meta = relay_metadata is_inbound status msg is_bootstrap
               in bind_eff (lift (is_selected_relayer env (round_id (req_id msg)))) (\<lambda>selected.
                    if \<not> selected then ret ()
                    else
                      bind_eff (if r_relay_queue_enabled env then process_hooks env msg is_inbound
                                else ret ()) (\<lambda>_.
                      bind_eff (lift (is_sequence_ended env msg status)) (\<lambda>ended.
                        if ended then ret ()
                        else
                          bind_eff (submit_brp_outbound_request env msg meta) (\<lambda>_.
                            send_socket_message env msg meta is_inbound))))))))"

definition process_onflight_message :: "RelayEnv \<Rightarrow> Socket_Message \<Rightarrow> (effect, unit) eff" where
  "process_onflight_message env msg =
     (let is_inbound = is_inbound_sequence (r_client env) (dst_chain_id msg);
          meta = relay_metadata is_inbound Requested msg False
      in bind_eff (lift (is_selected_relayer env (round_id (req_id msg)))) (\<lambda>selected.
           if \<not> selected then ret ()
           else
             bind_eff (lift (is_sequence_ended env msg Requested)) (\<lambda>ended.
               if ended then ret ()
               else send_socket_message env msg meta is_inbound)))"

section \<open>What a relay sends\<close>

text \<open>The two directions' routing and signing, behind one name each.\<close>

definition relay_tx_chain_id ::
    "bool \<Rightarrow> SocketEventStatus \<Rightarrow> chain_id \<Rightarrow> chain_id \<Rightarrow> chain_id res" where
  "relay_tx_chain_id is_inbound status src dst =
     (if is_inbound then get_inbound_relay_tx_chain_id status src dst
      else get_outbound_relay_tx_chain_id status src dst)"

definition build_signatures :: "RelayEnv \<Rightarrow> bool \<Rightarrow> Socket_Message \<Rightarrow> (Signatures \<times> bool) res" where
  "build_signatures env is_inbound msg =
     (if is_inbound then build_inbound_signatures env msg else build_outbound_signatures env msg)"

lemma request_send_transaction_mem:
  "f \<in> set (fst (request_send_transaction env chain tx meta msg)) \<longleftrightarrow>
    (\<exists>client. r_systems env chain = Some client
     \<and> (f = StoreRollbackable chain msg \<and> is_executable (srm_is_inbound meta) (srm_status meta)
           \<and> r_rollback_senders env chain = Some True
        \<or> f = SendTx (client_chain_id client) tx (SocketRelay meta) \<and> is_relay_target (metadata client)))"
  by (cases "r_systems env chain"; cases "r_rollback_senders env chain")
    (auto simp: request_send_transaction_def send_rollbackable_request_def fst_bind_eff_mem)

lemma build_transaction_Some_iff:
  "build_transaction env msg is_inbound chain = Ok (Some (tx, ext)) \<longleftrightarrow>
    (\<exists>client sigs. r_systems env chain = Some client
     \<and> build_signatures env is_inbound msg = Ok (sigs, ext)
     \<and> tx = build_poll_request (socket (protocol_contracts client)) msg sigs)"
  by (cases "r_systems env chain")
    (auto simp: build_transaction_def build_signatures_def bind_res_Ok_iff)

lemma send_socket_message_mem:
  "f \<in> set (fst (send_socket_message env msg meta is_inbound)) \<longleftrightarrow>
    (\<exists>status chain tx ext.
       socket_status_from_u8 (msg_status msg) = Ok status
     \<and> relay_tx_chain_id is_inbound status (srm_src_chain_id meta) (srm_dst_chain_id meta) = Ok chain
     \<and> build_transaction env msg is_inbound chain = Ok (Some (tx, ext))
     \<and> f \<in> set (fst (request_send_transaction env chain tx meta msg)))"
proof -
  have opt: "f \<in> set (fst (case b of None \<Rightarrow> ret () | Some (tx, e) \<Rightarrow> g tx)) \<longleftrightarrow>
      (\<exists>tx e. b = Some (tx, e) \<and> f \<in> set (fst (g tx)))"
    for b :: "(TxRequest \<times> bool) option" and g :: "TxRequest \<Rightarrow> (effect, unit) eff"
    by (cases b) auto
  show ?thesis
    unfolding send_socket_message_def relay_tx_chain_id_def [symmetric]
    by (simp add: fst_bind_eff_mem opt) blast
qed

lemma submit_brp_mem:
  "f \<in> set (fst (submit_brp_outbound_request env msg meta)) \<Longrightarrow>
     (\<exists>btc sig. get_bitcoin_chain_id (r_client env) = Some btc \<and> dst_chain_id msg = btc
     \<and> \<not> is_inbound_sequence (r_client env) (dst_chain_id msg)
     \<and> msg_status msg = socket_status_to_u8 Accepted
     \<and> (client_chain_id (r_client env) = 3068 \<longrightarrow> tokenIDX0 (params msg) = BRP_TOKEN_MAINNET)
     \<and> (client_chain_id (r_client env) = 49088 \<longrightarrow> tokenIDX0 (params msg) = BRP_TOKEN_TESTNET)
     \<and> sign_message (r_sign env) (r_client env)
          (r_hexify env (encode_socket_message (r_abi_encode env) msg)) = Ok sig
     \<and> f = SendXt (XtRequestMessage_new
              (SubmitOutboundRequests (default_address (r_client env))
                 [encode_socket_message (r_abi_encode env) msg] sig)
              (XtSubmitOutboundRequests meta)))"
  unfolding submit_brp_outbound_request_def
  by (auto simp: fst_bind_eff_mem Let_def socket_code.decodes_iff split: option.splits if_splits)

text \<open>Hooks only ever send calls to the hooks contract, logged under hook metadata.\<close>

lemma execute_hook_mem:
  "f \<in> set (fst (execute_hook env msg v is_inbound)) \<Longrightarrow> \<exists>chain tx hm. f = SendTx chain tx (Hook hm)"
  by (auto simp: execute_hook_def Let_def fst_bind_eff_mem split: option.splits if_splits)

lemma rollback_hook_mem:
  "f \<in> set (fst (rollback_hook env msg v)) \<Longrightarrow> \<exists>chain tx hm. f = SendTx chain tx (Hook hm)"
  by (auto simp: rollback_hook_def split: option.splits)

lemma process_hooks_mem:
  "f \<in> set (fst (process_hooks env msg is_inbound)) \<longleftrightarrow>
     (\<exists>v. should_execute_hook (r_hook env) msg = Ok (Some v)
        \<and> f \<in> set (fst (execute_hook (r_hook env) msg v is_inbound)))
   \<or> (\<exists>ve v. should_execute_hook (r_hook env) msg = Ok ve
        \<and> (\<forall>w. ve = Some w \<longrightarrow> snd (execute_hook (r_hook env) msg w is_inbound) \<noteq> Panic)
        \<and> should_rollback_hook (r_hook env) msg = Ok (Some v)
        \<and> f \<in> set (fst (rollback_hook (r_hook env) msg v)))"
proof -
  have opt: "g \<in> set (fst (case b of None \<Rightarrow> ret () | Some v \<Rightarrow> log_err (h v))) \<longleftrightarrow>
      (\<exists>v. b = Some v \<and> g \<in> set (fst (h v)))"
    for g b and h :: "Variants \<Rightarrow> (effect, unit) eff"
    by (cases b) auto
  have ok: "snd (case b of None \<Rightarrow> ret () | Some v \<Rightarrow> log_err (h v)) = Ok u \<longleftrightarrow>
      (\<forall>v. b = Some v \<longrightarrow> snd (h v) \<noteq> Panic)"
    for b u and h :: "Variants \<Rightarrow> (effect, unit) eff"
    by (cases b) (auto simp: log_err_Ok_iff)
  show ?thesis
    unfolding process_hooks_def by (auto simp: fst_bind_eff_mem opt ok)
qed

lemma process_confirmed_log_mem:
  assumes "f \<in> set (fst (process_confirmed_log env log is_bootstrap))"
  obtains msg status where "r_decode_socket env log = Some msg"
    and "socket_status_from_u8 (msg_status msg) = Ok status"
    and "exceeds_max_socket_message_bytes env msg = Ok False"
    and "\<not> (status = Requested \<and> r_relay_queue_enabled env)"
    and "is_selected_relayer env (round_id (req_id msg)) = Ok True"
    and "r_relay_queue_enabled env
           \<and> f \<in> set (fst (process_hooks env msg (is_inbound_sequence (r_client env) (dst_chain_id msg))))
       \<or> is_sequence_ended env msg status = Ok False
           \<and> (f \<in> set (fst (submit_brp_outbound_request env msg
                  (relay_metadata (is_inbound_sequence (r_client env) (dst_chain_id msg)) status msg is_bootstrap)))
             \<or> f \<in> set (fst (send_socket_message env msg
                  (relay_metadata (is_inbound_sequence (r_client env) (dst_chain_id msg)) status msg is_bootstrap)
                  (is_inbound_sequence (r_client env) (dst_chain_id msg)))))"
  using assms unfolding process_confirmed_log_def
  by (fastforce simp: fst_bind_eff_mem Let_def split: option.splits if_splits)

lemma send_socket_message_eq:
  assumes "socket_status_from_u8 (msg_status msg) = Ok status"
    and "relay_tx_chain_id is_inbound status (srm_src_chain_id meta) (srm_dst_chain_id meta) = Ok relay"
    and "r_systems env relay = Some client" and "is_relay_target (metadata client)"
    and "build_signatures env is_inbound msg = Ok (sigs, ext)"
  shows "send_socket_message env msg meta is_inbound =
    ((if is_executable (srm_is_inbound meta) (srm_status meta) \<and> r_rollback_senders env relay = Some True
      then [StoreRollbackable relay msg] else []) @
     [SendTx (client_chain_id client) (build_poll_request (socket (protocol_contracts client)) msg sigs)
       (SocketRelay meta)], Ok ())"
  using assms unfolding send_socket_message_def relay_tx_chain_id_def [symmetric]
  by (auto simp: build_transaction_def build_signatures_def [symmetric] request_send_transaction_def
      send_rollbackable_request_def send_transaction_def emit_def split: option.splits)

lemma submit_brp_not_bitcoin:
  "get_bitcoin_chain_id (r_client env) \<noteq> Some (dst_chain_id msg) \<Longrightarrow>
   socket_status_from_u8 (msg_status msg) = Ok status \<Longrightarrow>
   submit_brp_outbound_request env msg meta = ret ()"
  by (auto simp: submit_brp_outbound_request_def split: option.splits)

lemma process_hooks_none:
  "should_execute_hook (r_hook env) msg = Ok None \<Longrightarrow> should_rollback_hook (r_hook env) msg = Ok None \<Longrightarrow>
   process_hooks env msg is_inbound = ret ()"
  by (simp add: process_hooks_def)

lemma should_process_hook_other_status:
  "socket_status_from_u8 (msg_status msg) = Ok status \<Longrightarrow> status \<noteq> expected \<Longrightarrow>
   should_process_hook env msg expected = Ok None"
  by (simp add: should_process_hook_def)

lemma process_hooks_other_status:
  assumes "socket_status_from_u8 (msg_status msg) = Ok status"
    and "status \<noteq> Executed" and "status \<noteq> Rollbacked"
  shows "process_hooks env msg is_inbound = ret ()"
  using assms
  by (intro process_hooks_none)
    (simp_all add: should_execute_hook_def should_rollback_hook_def should_process_hook_other_status)

lemma build_signatures_cases:
  assumes "build_signatures env is_inbound msg = Ok (sigs, ext)"
    and "socket_status_from_u8 (msg_status msg) = Ok status"
  shows "ext \<longleftrightarrow> status \<in> {Accepted, Rejected}"
    and "ext \<Longrightarrow> get_sorted_signatures env msg = Ok sigs"
    and "\<not> ext \<Longrightarrow> sigs \<noteq> signatures_default \<Longrightarrow>
      \<exists>next sig. (status, next) \<in> {(Executed, Accepted), (Reverted, Rejected), (Requested, Accepted)}
        \<and> sign_socket_message env (set_status next msg) = Ok sig
        \<and> sigs = signatures_from_signature sig"
  using assms
  by (cases status; cases is_inbound;
      auto simp: build_signatures_def build_inbound_signatures_def build_outbound_signatures_def
        bind_res_Ok_iff)+

text \<open>The order of what is sent: hooks and the Bitcoin request, the rollback store, the relay.\<close>

lemma send_socket_message_shape:
  "\<exists>store relay. fst (send_socket_message env msg meta is_inbound) = store @ relay
    \<and> (store = [] \<or> is_executable (srm_is_inbound meta) (srm_status meta)
         \<and> (\<exists>c. store = [StoreRollbackable c msg] \<and> r_rollback_senders env c = Some True))
    \<and> (relay = [] \<or> (\<exists>c tx. relay = [SendTx c tx (SocketRelay meta)]))"
proof (cases "fst (send_socket_message env msg meta is_inbound) = []")
  case False
  then obtain status chain tx ext client where
    "socket_status_from_u8 (msg_status msg) = Ok status"
    "relay_tx_chain_id is_inbound status (srm_src_chain_id meta) (srm_dst_chain_id meta) = Ok chain"
    "build_transaction env msg is_inbound chain = Ok (Some (tx, ext))"
    and client: "r_systems env chain = Some client"
    using send_socket_message_mem [of _ env msg meta is_inbound]
    by (metis last_in_set request_send_transaction_mem)
  then have eq: "send_socket_message env msg meta is_inbound = request_send_transaction env chain tx meta msg"
    by (simp add: send_socket_message_def relay_tx_chain_id_def)
  show ?thesis
  proof (intro exI conjI)
    show "fst (send_socket_message env msg meta is_inbound) =
      (if is_executable (srm_is_inbound meta) (srm_status meta) \<and> r_rollback_senders env chain = Some True
       then [StoreRollbackable chain msg] else []) @
      (if is_relay_target (metadata client) then [SendTx (client_chain_id client) tx (SocketRelay meta)] else [])"
      using client
      by (auto simp: eq request_send_transaction_def send_rollbackable_request_def send_transaction_def
          split: option.splits)
  qed auto
qed simp

lemma process_confirmed_log_shape:
  "\<exists>others relay. fst (process_confirmed_log env log is_bootstrap) = others @ relay
    \<and> (\<forall>f \<in> set others. (\<exists>c tx hm. f = SendTx c tx (Hook hm)) \<or> (\<exists>x. f = SendXt x))
    \<and> (relay = [] \<or> (\<exists>msg status. r_decode_socket env log = Some msg
         \<and> socket_status_from_u8 (msg_status msg) = Ok status
         \<and> relay = fst (send_socket_message env msg
              (relay_metadata (is_inbound_sequence (r_client env) (dst_chain_id msg)) status msg is_bootstrap)
              (is_inbound_sequence (r_client env) (dst_chain_id msg)))))"
proof (cases "fst (process_confirmed_log env log is_bootstrap) = []")
  case False
  then obtain msg status where g: "r_decode_socket env log = Some msg"
      "socket_status_from_u8 (msg_status msg) = Ok status"
      "exceeds_max_socket_message_bytes env msg = Ok False"
      "\<not> (status = Requested \<and> r_relay_queue_enabled env)"
      "is_selected_relayer env (round_id (req_id msg)) = Ok True"
    by (meson last_in_set process_confirmed_log_mem)
  let ?in = "is_inbound_sequence (r_client env) (dst_chain_id msg)"
  let ?meta = "relay_metadata ?in status msg is_bootstrap"
  let ?hooks = "if r_relay_queue_enabled env then process_hooks env msg ?in else ret ()"
  let ?brp = "submit_brp_outbound_request env msg ?meta"
  have others: "\<forall>f \<in> set (fst ?hooks @ fst ?brp). (\<exists>c tx hm. f = SendTx c tx (Hook hm)) \<or> (\<exists>x. f = SendXt x)"
    by (auto simp: process_hooks_mem dest: execute_hook_mem rollback_hook_mem submit_brp_mem)
  have eq: "fst (process_confirmed_log env log is_bootstrap) =
      fst (bind_eff ?hooks (\<lambda>_. bind_eff (lift (is_sequence_ended env msg status)) (\<lambda>ended.
        if ended then ret () else bind_eff ?brp (\<lambda>_. send_socket_message env msg ?meta ?in))))"
    using g by (auto simp: process_confirmed_log_def Let_def)
  have "fst (process_confirmed_log env log is_bootstrap) \<in>
      {fst ?hooks @ [], (fst ?hooks @ fst ?brp) @ [],
       (fst ?hooks @ fst ?brp) @ fst (send_socket_message env msg ?meta ?in)}"
    unfolding eq fst_bind_eff by (simp add: fst_bind_eff split: res.splits)
  then consider "fst (process_confirmed_log env log is_bootstrap) = fst ?hooks @ []"
    | "fst (process_confirmed_log env log is_bootstrap) = (fst ?hooks @ fst ?brp) @ []"
    | "fst (process_confirmed_log env log is_bootstrap) =
         (fst ?hooks @ fst ?brp) @ fst (send_socket_message env msg ?meta ?in)"
    by blast
  then show ?thesis
  proof cases
    case 1
    then show ?thesis using others by (intro exI [of _ "fst ?hooks"] exI [of _ "[]"]) auto
  next
    case 2
    then show ?thesis using others by (intro exI [of _ "fst ?hooks @ fst ?brp"] exI [of _ "[]"]) auto
  next
    case 3
    then show ?thesis
      using others g(1,2) by blast
  qed
qed auto

text \<open>Signatures whose signers are known come out ordered by signer.\<close>

lemma sort_by_signer_signed:
  assumes "list_all2 (\<lambda>a sig. recover sig = Ok a) addresses sigs"
  shows "\<exists>ss. sort_by_signer recover (signatures_from_vec sigs) = Ok (signatures_from_vec ss)
    \<and> mset ss = mset sigs \<and> map recover ss = map Ok (sort addresses)"
proof -
  define who where "who sig = (case recover sig of Ok a \<Rightarrow> a | _ \<Rightarrow> 0)" for sig
  have ok: "recover sig = Ok (who sig)" if "sig \<in> set sigs" for sig
    using that assms by (auto simp: list_all2_conv_all_nth in_set_conv_nth who_def)
  have "map who sigs = addresses"
    using assms by (auto simp: list_all2_conv_all_nth who_def intro!: nth_equalityI)
  moreover have "map who (sort_key who sigs) = sort (map who sigs)"
    by (intro properties_for_sort [symmetric]) simp_all
  moreover have "map recover (sort_key who sigs) = map Ok (map who (sort_key who sigs))"
    using ok by simp
  moreover have "sort_by_signer recover (signatures_from_vec sigs) =
      Ok (signatures_from_vec (sort_key who sigs))"
    using ok by (intro sort_by_signer_Ok) (simp_all add: vec_from_signatures_from_vec)
  ultimately show ?thesis
    by (intro exI [of _ "sort_key who sigs"]) simp
qed

section \<open>Properties\<close>

definition ex_relay_env :: RelayEnv where
  "ex_relay_env =
     \<lparr>r_hook = ex_hook_env, r_relay_queue_enabled = False,
      r_decode_socket = (\<lambda>log. case log_data log of
         [] \<Rightarrow> None
       | st # _ \<Rightarrow> Some (if log_address log = 16 then (ex_outbound_message st)
                              \<lparr>ins_code := \<lparr>ins_ChainIndex = 10000, RBCmethod = 0\<rparr>,
                               params := (params (ex_outbound_message st))\<lparr>tokenIDX0 := BRP_TOKEN_MAINNET\<rparr>\<rparr>
                            else ex_message st)),
      r_socket_signature_hash = 5, r_abi_encode = (\<lambda>_. [1, 2, 3]), r_abi_encode_msg = (\<lambda>_. [1, 2, 3]),
      r_hexify = id, r_max_message_bytes = Ok 100, r_is_previous_selected = (\<lambda>_ _. Ok True),
      r_get_request = (\<lambda>_ _. Ok 1), r_get_signatures = (\<lambda>_ _. Ok (signatures_from_signature ex_signature)),
      r_recover = (\<lambda>_ _. Ok 7), r_sign = (\<lambda>_ _. Ok ex_signature),
      r_rollback_senders = (\<lambda>c. Some True), r_xt_open = True,
      r_block_number = Ok 100, r_get_transaction = (\<lambda>_. Ok (Some (Some 90))),
      r_get_logs = (\<lambda>_. Ok [])\<rparr>"

definition ex_log :: "address \<Rightarrow> u8 \<Rightarrow> Log" where
  "ex_log a st = \<lparr>log_address = a, log_topics = [5], log_data = [st], log_block_number = Some 90,
                   transaction_hash = Some 1\<rparr>"

lemmas ex_relay_simps = ex_relay_env_def ex_log_def ex_hook_env_def client_chain_id_def
  get_bitcoin_chain_id_def exceeds_max_socket_message_bytes_def is_selected_relayer_def
  is_inbound_sequence_def is_sequence_ended_def encode_socket_message_def
  ex_metadata_def ex_contracts_def ex_client_def ex_clients_def sign_socket_message_def
  sign_message_def

lemma ex_relay_log:
  "process_confirmed_log ex_relay_env (ex_log 11 3) False =
     ([SendTx 3068 (build_poll_request 11 (ex_message 3) (signatures_from_signature ex_signature))
        (SocketRelay (relay_metadata True Executed (ex_message 3) False))], Ok ())"
proof -
  have "send_socket_message ex_relay_env (ex_message 3)
      (relay_metadata True Executed (ex_message 3) False) True =
     ([SendTx 3068 (build_poll_request 11 (ex_message 3) (signatures_from_signature ex_signature))
        (SocketRelay (relay_metadata True Executed (ex_message 3) False))], Ok ())"
    by (subst send_socket_message_eq [where client = "ex_client 3068 True"])
      (auto simp: relay_metadata_def relay_tx_chain_id_def build_signatures_def
        build_inbound_signatures_def is_executable_def ex_relay_simps)
  moreover have "submit_brp_outbound_request ex_relay_env (ex_message 3)
      (relay_metadata True Executed (ex_message 3) False) = ret ()"
    by (rule submit_brp_not_bitcoin) (simp_all add: ex_relay_simps)
  ultimately show ?thesis
    by (simp add: process_confirmed_log_def Let_def ex_relay_simps)
qed

text \<open>
  C1: Safety of the socket relay. Every relay transaction that processing a socket event sends
  polls the event's own message, unchanged, on the socket contract of the chain that the
  message's direction and status prescribe, with the signatures built for that status; and it is
  sent only when the message is within the runtime's size limit, is not a request the relay queue
  owns, this relayer was selected for the message's round, and the sequence has not ended.
\<close>

theorem relay_sound:
  assumes "SendTx chain tx (SocketRelay meta) \<in> set (fst (process_confirmed_log env log is_bootstrap))"
  shows "\<exists>msg status relay client sigs ext is_inbound.
      r_decode_socket env log = Some msg
    \<and> is_inbound = is_inbound_sequence (r_client env) (dst_chain_id msg)
    \<and> socket_status_from_u8 (msg_status msg) = Ok status
    \<and> exceeds_max_socket_message_bytes env msg = Ok False
    \<and> \<not> (status = Requested \<and> r_relay_queue_enabled env)
    \<and> is_selected_relayer env (round_id (req_id msg)) = Ok True
    \<and> is_sequence_ended env msg status = Ok False
    \<and> (if is_inbound then get_inbound_relay_tx_chain_id else get_outbound_relay_tx_chain_id)
         status (src_chain_id msg) (dst_chain_id msg) = Ok relay
    \<and> r_systems env relay = Some client
    \<and> (if is_inbound then build_inbound_signatures else build_outbound_signatures) env msg = Ok (sigs, ext)
    \<and> chain = client_chain_id client \<and> is_relay_target (metadata client)
    \<and> tx = build_poll_request (socket (protocol_contracts client)) msg sigs
    \<and> meta = relay_metadata is_inbound status msg is_bootstrap"
  using assms
proof (cases rule: process_confirmed_log_mem)
  case (1 msg status)
  then have ended: "is_sequence_ended env msg status = Ok False"
    and sent: "SendTx chain tx (SocketRelay meta) \<in> set (fst (send_socket_message env msg
        (relay_metadata (is_inbound_sequence (r_client env) (dst_chain_id msg)) status msg is_bootstrap)
        (is_inbound_sequence (r_client env) (dst_chain_id msg))))"
    by (auto simp: process_hooks_mem dest: execute_hook_mem rollback_hook_mem submit_brp_mem)
  from sent 1(2) obtain relay client sigs ext where
    "relay_tx_chain_id (is_inbound_sequence (r_client env) (dst_chain_id msg)) status
       (src_chain_id msg) (dst_chain_id msg) = Ok relay"
    "r_systems env relay = Some client"
    "build_signatures env (is_inbound_sequence (r_client env) (dst_chain_id msg)) msg = Ok (sigs, ext)"
    "chain = client_chain_id client" "is_relay_target (metadata client)"
    "tx = build_poll_request (socket (protocol_contracts client)) msg sigs"
    "meta = relay_metadata (is_inbound_sequence (r_client env) (dst_chain_id msg)) status msg is_bootstrap"
    by (auto simp: send_socket_message_mem request_send_transaction_mem build_transaction_Some_iff
        relay_metadata_def)
  with 1 ended show ?thesis
    by (simp add: relay_tx_chain_id_def build_signatures_def if_distribR)
qed

theorem relay_sound_witness:
  "\<exists>sigs. build_inbound_signatures ex_relay_env (ex_message 3) = Ok (sigs, False)
    \<and> is_sequence_ended ex_relay_env (ex_message 3) Executed = Ok False"
proof -
  have "SendTx 3068 (build_poll_request 11 (ex_message 3) (signatures_from_signature ex_signature))
      (SocketRelay (relay_metadata True Executed (ex_message 3) False))
      \<in> set (fst (process_confirmed_log ex_relay_env (ex_log 11 3) False))"
    by (simp add: ex_relay_log)
  from relay_sound [OF this] show ?thesis
    by (auto simp: ex_relay_simps build_inbound_signatures_def)
qed



text \<open>
  Order of effects and the rollback safety net. Whatever processing an event sends is hook
  transactions and Bitcoin requests first, then at most one message stored for rollback, then at
  most one relay transaction; a message is stored only in its executable state (inbound and
  requested, or outbound and accepted) and is the event's own.
\<close>

theorem relay_order:
  "\<exists>others store relay. fst (process_confirmed_log env log is_bootstrap) = others @ store @ relay
    \<and> (\<forall>f \<in> set others. (\<exists>c tx hm. f = SendTx c tx (Hook hm)) \<or> (\<exists>x. f = SendXt x))
    \<and> (store = [] \<or> (\<exists>c msg. store = [StoreRollbackable c msg] \<and> r_decode_socket env log = Some msg
         \<and> r_rollback_senders env c = Some True
         \<and> (if is_inbound_sequence (r_client env) (dst_chain_id msg)
            then msg_status msg = 1 else msg_status msg = 5)))
    \<and> (relay = [] \<or> (\<exists>c tx meta. relay = [SendTx c tx (SocketRelay meta)]))"
proof -
  obtain others rest where o: "fst (process_confirmed_log env log is_bootstrap) = others @ rest"
    "\<forall>f \<in> set others. (\<exists>c tx hm. f = SendTx c tx (Hook hm)) \<or> (\<exists>x. f = SendXt x)"
    and r: "rest = [] \<or> (\<exists>msg status. r_decode_socket env log = Some msg
         \<and> socket_status_from_u8 (msg_status msg) = Ok status
         \<and> rest = fst (send_socket_message env msg
              (relay_metadata (is_inbound_sequence (r_client env) (dst_chain_id msg)) status msg is_bootstrap)
              (is_inbound_sequence (r_client env) (dst_chain_id msg))))"
    using process_confirmed_log_shape [of env log is_bootstrap] by blast
  have exec: "if is_inbound_sequence (r_client env) (dst_chain_id msg)
      then msg_status msg = 1 else msg_status msg = 5"
    if "is_executable (is_inbound_sequence (r_client env) (dst_chain_id msg)) status"
      "socket_status_from_u8 (msg_status msg) = Ok status" for msg status
    using that by (cases status) (auto simp: is_executable_def socket_code.decodes_iff split: bool.splits)
  from r show ?thesis
  proof (elim disjE exE conjE)
    assume "rest = []"
    then show ?thesis using o by (intro exI [of _ others] exI [of _ "[]"]) simp
  next
    fix msg status
    let ?in = "is_inbound_sequence (r_client env) (dst_chain_id msg)"
    assume msg: "r_decode_socket env log = Some msg" "socket_status_from_u8 (msg_status msg) = Ok status"
      and rest: "rest = fst (send_socket_message env msg (relay_metadata ?in status msg is_bootstrap) ?in)"
    obtain store relay where sr: "rest = store @ relay"
      "store = [] \<or> is_executable ?in status
         \<and> (\<exists>c. store = [StoreRollbackable c msg] \<and> r_rollback_senders env c = Some True)"
      "relay = [] \<or> (\<exists>c tx. relay = [SendTx c tx (SocketRelay (relay_metadata ?in status msg is_bootstrap))])"
      using send_socket_message_shape [of env msg "relay_metadata ?in status msg is_bootstrap" ?in] rest
      by (auto simp: relay_metadata_def)
    then have "fst (process_confirmed_log env log is_bootstrap) = others @ store @ relay"
      using o(1) by simp
    moreover have "store = [] \<or> (\<exists>c msg. store = [StoreRollbackable c msg]
        \<and> r_decode_socket env log = Some msg \<and> r_rollback_senders env c = Some True
        \<and> (if is_inbound_sequence (r_client env) (dst_chain_id msg)
            then msg_status msg = 1 else msg_status msg = 5))"
      using sr(2) msg exec [of msg status] by blast
    moreover have "relay = [] \<or> (\<exists>c tx meta. relay = [SendTx c tx (SocketRelay meta)])"
      using sr(3) by blast
    ultimately show ?thesis
      using o(2) by (intro exI conjI)
  qed
qed

theorem relay_order_witness:
  "\<exists>others store relay. fst (process_confirmed_log ex_relay_env (ex_log 11 3) False) = others @ store @ relay
    \<and> (\<forall>f \<in> set others. (\<exists>c tx hm. f = SendTx c tx (Hook hm)) \<or> (\<exists>x. f = SendXt x))
    \<and> length store \<le> 1 \<and> length relay \<le> 1"
  using relay_order [of ex_relay_env "ex_log 11 3" False]
  by (elim exE conjE) (intro exI conjI, assumption, assumption, auto)

text \<open>
  Both ends of a transfer agree on its direction. For a native chain (whose configured
  direction is inbound) and an external chain (outbound) with different identifiers, the handlers
  of the two chains classify a message towards either of them the same way, and it is inbound
  exactly when the native chain is its destination.
\<close>

theorem direction_agreement:
  assumes "if_destination_chain (metadata native) = Inbound"
    and "if_destination_chain (metadata external) = Outbound"
    and "client_chain_id native \<noteq> client_chain_id external"
    and "dst = client_chain_id native \<or> dst = client_chain_id external"
  shows "is_inbound_sequence native dst = is_inbound_sequence external dst
    \<and> (is_inbound_sequence native dst \<longleftrightarrow> dst = client_chain_id native)"
  using assms by (auto simp: is_inbound_sequence_def split: RelayDirection.splits)

theorem direction_agreement_witness:
  "is_inbound_sequence (ex_client 3068 True) 1 = is_inbound_sequence (ex_client 1 False) 1
    \<and> \<not> is_inbound_sequence (ex_client 3068 True) 1"
proof -
  have "if_destination_chain (metadata (ex_client 3068 True)) = Inbound"
    "if_destination_chain (metadata (ex_client 1 False)) = Outbound"
    "client_chain_id (ex_client 3068 True) = 3068" "client_chain_id (ex_client 1 False) = 1"
    by (simp_all add: ex_client_def ex_metadata_def client_chain_id_def)
  then show ?thesis
    using direction_agreement [of "ex_client 3068 True" "ex_client 1 False" 1] by auto
qed

text \<open>
  C26: From signatures to a quorum. When the relayers' handlers build their own signature at the
  stage before acceptance (inbound and executed, or outbound and requested), and the socket
  contract returns exactly these signatures for the accepted message, then the relay of the
  accepted message carries the same signatures, ordered by the addresses of the relayers that
  made them. Hypotheses on the third-party parts: recovery inverts signing, and the two ABI
  encodings of the message agree.
\<close>

theorem quorum_signatures_sorted:
  assumes recover: "\<And>a d sig. r_sign env a d = Ok sig \<Longrightarrow> r_recover env d sig = Ok a"
    and encoding: "r_abi_encode_msg env msg = encode_socket_message (r_abi_encode env) msg"
    and accepted: "msg_status msg = 5"
    and relayers: "\<And>e. e \<in> set envs \<Longrightarrow> r_sign e = r_sign env \<and> r_abi_encode e = r_abi_encode env"
    and built: "list_all2 (\<lambda>e sig.
        build_signatures e is_inbound (set_status (if is_inbound then Executed else Requested) msg)
          = Ok (signatures_from_signature sig, False)) envs sigs"
    and stored: "r_get_signatures env (req_id msg) 5 = Ok (signatures_from_vec sigs)"
  shows "\<exists>ss. build_signatures env is_inbound msg = Ok (signatures_from_vec ss, True)
    \<and> mset ss = mset sigs
    \<and> map (r_recover env (r_abi_encode_msg env msg)) ss
        = map Ok (sort (map (\<lambda>e. default_address (r_client e)) envs))"
proof -
  let ?data = "encode_socket_message (r_abi_encode env) msg"
  have inj: "signatures_from_signature a = signatures_from_signature b \<Longrightarrow> a = b" for a b
    by (cases a; cases b) (auto simp: signatures_from_signature_def of_bool_def split: if_splits)
  have same: "set_status Accepted msg = msg"
    using accepted by (cases msg) (simp add: set_status_def)
  have own: "r_recover env ?data sig = Ok (default_address (r_client e))"
    if "build_signatures e is_inbound (set_status (if is_inbound then Executed else Requested) msg)
          = Ok (signatures_from_signature sig, False)" and "e \<in> set envs" for e sig
  proof -
    have "sign_socket_message e msg = Ok sig"
      using that(1) inj
      by (auto simp: build_signatures_def build_inbound_signatures_def build_outbound_signatures_def
          socket_code.from_to same bind_res_Ok_iff split: if_splits)
    then show ?thesis
      using relayers [OF that(2)] recover
      by (auto simp: sign_socket_message_def sign_message_def split: if_splits)
  qed
  have "list_all2 (\<lambda>e sig. r_recover env ?data sig = Ok (default_address (r_client e))) envs sigs"
    using built by (rule list.rel_mono_strong) (rule own)
  then have "list_all2 (\<lambda>a sig. r_recover env ?data sig = Ok a)
      (map (\<lambda>e. default_address (r_client e)) envs) sigs"
    by (simp add: list_all2_map1)
  from sort_by_signer_signed [OF this] obtain ss where
    ss: "sort_by_signer (r_recover env ?data) (signatures_from_vec sigs) = Ok (signatures_from_vec ss)"
    "mset ss = mset sigs"
    "map (r_recover env ?data) ss = map Ok (sort (map (\<lambda>e. default_address (r_client e)) envs))"
    by blast
  have "get_sorted_signatures env msg = Ok (signatures_from_vec ss)"
    using stored accepted encoding ss(1) by (simp add: get_sorted_signatures_def)
  moreover have "socket_status_from_u8 (msg_status msg) = Ok Accepted"
    using accepted by (simp add: socket_status_from_u8_def)
  ultimately have "build_signatures env is_inbound msg = Ok (signatures_from_vec ss, True)"
    by (simp add: build_signatures_def build_inbound_signatures_def build_outbound_signatures_def)
  with ss(2,3) encoding show ?thesis
    by (intro exI [of _ ss]) simp
qed

text \<open>A toy signature scheme, with the address in the \<open>r\<close> field, and two relayers 9 and 7.\<close>

definition ex_sign :: "address \<Rightarrow> Signature" where
  "ex_sign a = \<lparr>sig_r = ucast a, sig_s = 0, sig_v = False\<rparr>"

definition ex_relayer :: "address \<Rightarrow> RelayEnv" where
  "ex_relayer a = ex_relay_env
     \<lparr>r_hook := ex_hook_env\<lparr>h_client := (ex_client 3068 True)\<lparr>signers := [a], default_address := a\<rparr>\<rparr>,
      r_sign := (\<lambda>a _. Ok (ex_sign a)), r_recover := (\<lambda>_ sig. Ok (ucast (sig_r sig))),
      r_get_signatures := (\<lambda>_ _. Ok (signatures_from_vec [ex_sign 9, ex_sign 7]))\<rparr>"

theorem quorum_signatures_sorted_witness:
  "\<exists>ss. build_signatures (ex_relayer 7) True (ex_message 5) = Ok (signatures_from_vec ss, True)
    \<and> mset ss = mset [ex_sign 9, ex_sign 7]
    \<and> map (r_recover (ex_relayer 7) (r_abi_encode_msg (ex_relayer 7) (ex_message 5))) ss = map Ok [7, 9]"
proof -
  have "ucast (ucast a :: u256) = a" for a :: address
    by (rule bit_word_eqI) (simp add: bit_simps)
  then have rec: "r_sign (ex_relayer 7) a d = Ok sig \<Longrightarrow> r_recover (ex_relayer 7) d sig = Ok a" for a d sig
    by (auto simp: ex_relayer_def ex_sign_def)
  have built: "build_signatures (ex_relayer a) True (set_status Executed (ex_message 5))
      = Ok (signatures_from_signature (ex_sign a), False)" for a
    by (simp add: build_signatures_def build_inbound_signatures_def ex_relayer_def
        sign_socket_message_def sign_message_def)
  have enc: "r_abi_encode_msg (ex_relayer 7) (ex_message 5) =
      encode_socket_message (r_abi_encode (ex_relayer 7)) (ex_message 5)"
    by (simp add: ex_relayer_def ex_relay_env_def encode_socket_message_def)
  have get: "r_get_signatures (ex_relayer 7) (req_id (ex_message 5)) 5
      = Ok (signatures_from_vec [ex_sign 9, ex_sign 7])"
    by (simp add: ex_relayer_def)
  have addr: "sort (map (\<lambda>e. default_address (r_client e)) [ex_relayer 9, ex_relayer 7]) = [7, 9]"
    by (simp add: ex_relayer_def)
  have same: "r_sign e = r_sign (ex_relayer 7) \<and> r_abi_encode e = r_abi_encode (ex_relayer 7)"
    if "e \<in> set [ex_relayer 9, ex_relayer 7]" for e
    using that by (auto simp: ex_relayer_def)
  have all: "list_all2 (\<lambda>e sig. build_signatures e True
        (set_status (if True then Executed else Requested) (ex_message 5))
      = Ok (signatures_from_signature sig, False)) [ex_relayer 9, ex_relayer 7] [ex_sign 9, ex_sign 7]"
    using built by simp
  have st: "msg_status (ex_message 5) = 5"
    by simp
  show ?thesis
    using quorum_signatures_sorted [OF rec enc st same all get] unfolding addr .
qed

text \<open>
  Bitcoin outbound requests. An unsigned extrinsic is sent while processing an event only for
  an accepted message that leaves Bifrost for Bitcoin, on the two public networks only for the
  network's unified Bitcoin token; it carries the encoded message under this relayer's identity
  and a signature over the hex form of that encoding.
\<close>

theorem bitcoin_outbound_request:
  assumes "SendXt x \<in> set (fst (process_confirmed_log env log is_bootstrap))"
  shows "\<exists>msg sig. r_decode_socket env log = Some msg \<and> msg_status msg = 5
    \<and> get_bitcoin_chain_id (r_client env) = Some (dst_chain_id msg)
    \<and> \<not> is_inbound_sequence (r_client env) (dst_chain_id msg)
    \<and> (client_chain_id (r_client env) = 3068 \<longrightarrow> tokenIDX0 (params msg) = BRP_TOKEN_MAINNET)
    \<and> (client_chain_id (r_client env) = 49088 \<longrightarrow> tokenIDX0 (params msg) = BRP_TOKEN_TESTNET)
    \<and> r_sign env (default_address (r_client env))
         (r_hexify env (encode_socket_message (r_abi_encode env) msg)) = Ok sig
    \<and> xt_call x = SubmitOutboundRequests (default_address (r_client env))
         [encode_socket_message (r_abi_encode env) msg] sig
    \<and> retries_remaining x = DEFAULT_TX_RETRIES"
  using assms
proof (cases rule: process_confirmed_log_mem)
  case (1 msg status)
  let ?meta = "relay_metadata (is_inbound_sequence (r_client env) (dst_chain_id msg)) status msg is_bootstrap"
  from 1 have "SendXt x \<in> set (fst (submit_brp_outbound_request env msg ?meta))"
    by (auto simp: process_hooks_mem send_socket_message_mem request_send_transaction_mem
        dest: execute_hook_mem rollback_hook_mem)
  from submit_brp_mem [OF this] 1(1) show ?thesis
    by (auto simp: XtRequestMessage_new_def sign_message_def split: if_splits)
qed

theorem bitcoin_outbound_request_witness:
  "\<exists>msg. r_decode_socket ex_relay_env (ex_log 16 5) = Some msg \<and> dst_chain_id msg = 10000
    \<and> tokenIDX0 (params msg) = BRP_TOKEN_MAINNET"
proof -
  define msg where "msg = (ex_outbound_message 5)\<lparr>ins_code := \<lparr>ins_ChainIndex = 10000, RBCmethod = 0\<rparr>,
      params := (params (ex_outbound_message 5))\<lparr>tokenIDX0 := BRP_TOKEN_MAINNET\<rparr>\<rparr>"
  define meta where "meta = relay_metadata False Accepted msg False"
  have msg: "msg_status msg = 5" "dst_chain_id msg = 10000" "src_chain_id msg = 3068"
      "tokenIDX0 (params msg) = BRP_TOKEN_MAINNET"
    by (simp_all add: msg_def ex_defs dst_chain_id_def src_chain_id_def)
  have dec: "r_decode_socket ex_relay_env (ex_log 16 5) = Some msg"
    by (simp add: ex_relay_env_def ex_log_def msg_def)
  let ?x = "XtRequestMessage_new (SubmitOutboundRequests 7 [[1, 2, 3]] ex_signature) (XtSubmitOutboundRequests meta)"
  have "submit_brp_outbound_request ex_relay_env msg meta = ([SendXt ?x], Ok ())"
    using msg by (simp add: submit_brp_outbound_request_def ex_relay_simps send_xt_def emit_def)
  then have "SendXt ?x \<in> set (fst (process_confirmed_log ex_relay_env (ex_log 16 5) False))"
    using msg dec
    by (simp add: process_confirmed_log_def ex_relay_simps meta_def Let_def)
  from bitcoin_outbound_request [OF this] show ?thesis
    using dec msg by auto
qed

end
