(* ===== verification/Socket_Pending.thy ===== *)
theory Socket_Pending
  imports Socket_Relay
begin

text \<open>
  The event loop of the socket relay handler
  (\<open>client/src/eth/handlers/socket_relay_handler.rs\<close>): which events are relayed at once, the
  pool of events that wait for block confirmations, the periodic pass that re-verifies them on
  chain and survives reorganisations, and the bootstrap replay of historical events.
\<close>

section \<open>The pool\<close>

definition MAX_ABSENT_CHECKS :: u32 where "MAX_ABSENT_CHECKS = 5"

record PendingEvent =
  pe_log :: Log
  pe_block_number :: u64
  absent_checks :: u32

definition verify_event_on_chain :: "RelayEnv \<Rightarrow> PendingEvent \<Rightarrow> u64 option res" where
  "verify_event_on_chain env event =
     (case transaction_hash (pe_log event) of
        None \<Rightarrow> Ok None
      | Some tx_hash \<Rightarrow>
          bind_res (r_get_transaction env tx_hash) (\<lambda>tx.
            case tx of
              Some (Some current_block) \<Rightarrow>
                bind_res (r_get_logs env
                    \<lparr>f_addresses = [log_address (pe_log event)], f_event_signature = None,
                     from_block = current_block, to_block = current_block\<rparr>) (\<lambda>logs.
                  Ok (if \<exists>l \<in> set logs. transaction_hash l = Some tx_hash
                      then Some current_block else None))
            | _ \<Rightarrow> Ok None))"

definition is_confirmed :: "RelayEnv \<Rightarrow> u64 \<Rightarrow> PendingEvent \<Rightarrow> bool" where
  "is_confirmed env latest_block e \<longleftrightarrow>
     block_confirmations (metadata (r_client env)) \<le> saturating_sub latest_block (pe_block_number e)"

text \<open>The three vectors the pass fills: indices to remove, block updates, absent bumps.\<close>

type_synonym marks = "nat list \<times> (nat \<times> u64) list \<times> nat list"

fun mark_event :: "RelayEnv \<Rightarrow> nat \<times> PendingEvent \<Rightarrow> marks \<Rightarrow> marks" where
  "mark_event env (idx, event) (rm, bu, ab) =
     (case verify_event_on_chain env event of
        Ok (Some current_block) \<Rightarrow>
          if current_block = pe_block_number event then (rm @ [idx], bu, ab)
          else (rm, bu @ [(idx, current_block)], ab)
      | Ok None \<Rightarrow>
          if MAX_ABSENT_CHECKS \<le> saturating_add (absent_checks event) 1 then (rm @ [idx], bu, ab)
          else (rm, bu, ab @ [idx])
      | _ \<Rightarrow> (rm, bu, ab))"

definition relay_if_present :: "RelayEnv \<Rightarrow> PendingEvent \<Rightarrow> (effect, unit) eff" where
  "relay_if_present env event =
     (case verify_event_on_chain env event of
        Ok (Some current_block) \<Rightarrow>
          if current_block = pe_block_number event
          then log_err (process_confirmed_log env (pe_log event) False) else ret ()
      | Panic \<Rightarrow> lift Panic
      | _ \<Rightarrow> ret ())"

fun check_events ::
    "RelayEnv \<Rightarrow> (nat \<times> PendingEvent) list \<Rightarrow> marks \<Rightarrow> (effect, marks) eff" where
  "check_events env [] m = ret m"
| "check_events env ((idx, event) # rest) m =
     bind_eff (relay_if_present env event)
       (\<lambda>_. check_events env rest (mark_event env (idx, event) m))"

definition apply_marks :: "marks \<Rightarrow> PendingEvent list \<Rightarrow> PendingEvent list" where
  "apply_marks m pending =
     (case m of (rm, bu, ab) \<Rightarrow>
        let updated = fold (\<lambda>(idx, new_block).
              get_mut idx (\<lambda>e. e\<lparr>pe_block_number := new_block, absent_checks := 0\<rparr>)) bu pending;
            bumped = fold (\<lambda>idx.
              get_mut idx (\<lambda>e. e\<lparr>absent_checks := saturating_add (absent_checks e) 1\<rparr>)) ab updated
        in fold remove_index (rev (sort rm)) bumped)"

definition events_to_check :: "RelayEnv \<Rightarrow> u64 \<Rightarrow> PendingEvent list \<Rightarrow> (nat \<times> PendingEvent) list" where
  "events_to_check env latest_block pending =
     map (\<lambda>idx. (idx, pending ! idx))
       (filter (\<lambda>idx. is_confirmed env latest_block (pending ! idx)) [0..<length pending])"

definition process_confirmed_pending_events ::
    "RelayEnv \<Rightarrow> PendingEvent list \<Rightarrow> PendingEvent list \<times> (effect, unit) eff" where
  "process_confirmed_pending_events env pending =
     (case r_block_number env of
        Ok latest_block \<Rightarrow>
          (let checks = events_to_check env latest_block pending
           in if checks = [] then (pending, ret ())
              else (case check_events env checks ([], [], []) of
                      (fs, Ok m) \<Rightarrow> (apply_marks m pending, fs, Ok ())
                    | (fs, Err e) \<Rightarrow> (pending, fs, Err e)
                    | (fs, Panic) \<Rightarrow> (pending, fs, Panic)))
      | Err e \<Rightarrow> (pending, lift (Err e))
      | Panic \<Rightarrow> (pending, lift Panic))"

text \<open>The arm of the loop that receives a batch of logs.\<close>

fun on_event_logs ::
    "RelayEnv \<Rightarrow> u64 \<Rightarrow> Log list \<Rightarrow> PendingEvent list \<Rightarrow> PendingEvent list \<times> (effect, unit) eff" where
  "on_event_logs env block [] pending = (pending, ret ())"
| "on_event_logs env block (log # logs) pending =
     (if is_target_contract env log \<and> is_target_event env (topic0 log)
      then (case should_process_immediately env log of
              Ok (Some True) \<Rightarrow>
                (case log_err (process_confirmed_log env log False) of
                   (fs, Ok u) \<Rightarrow>
                     (case on_event_logs env block logs pending of (p, gs, r) \<Rightarrow> (p, fs @ gs, r))
                 | (fs, Err e) \<Rightarrow> (pending, fs, Err e)
                 | (fs, Panic) \<Rightarrow> (pending, fs, Panic))
            | Panic \<Rightarrow> (pending, lift Panic)
            | _ \<Rightarrow> on_event_logs env block logs
                     (pending @ [\<lparr>pe_log = log, pe_block_number = block, absent_checks = 0\<rparr>]))
      else on_event_logs env block logs pending)"

definition on_event_message ::
    "RelayEnv \<Rightarrow> EventMessage \<Rightarrow> PendingEvent list \<Rightarrow> PendingEvent list \<times> (effect, unit) eff" where
  "on_event_message env m pending = on_event_logs env (ev_block_number m) (event_logs m) pending"

section \<open>Bootstrap\<close>

definition bootstrap_filter_addresses :: "EthClient \<Rightarrow> address list" where
  "bootstrap_filter_addresses c =
     (case bitcoin_socket (protocol_contracts c) of
        Some bs \<Rightarrow> [socket (protocol_contracts c), bs]
      | None \<Rightarrow> [socket (protocol_contracts c)])"

text \<open>
  \<open>cached\<close> is what the shared cache held, \<open>offset_height\<close> the answer of
  \<open>get_bootstrap_offset_height_based_on_block_time\<close> (including the round lookup) for a round
  offset. \<open>None\<close> is a chunk loop that does not end.
\<close>

definition relay_bootstrap_events ::
    "RelayEnv \<Rightarrow> Log list option \<Rightarrow> BootstrapConfig option \<Rightarrow> (u64 \<Rightarrow> u64 res)
      \<Rightarrow> Log list res option" where
  "relay_bootstrap_events env cached config offset_height =
     (case cached of
        Some logs \<Rightarrow> Some (Ok logs)
      | None \<Rightarrow>
          (case config of
             None \<Rightarrow> Some (Ok [])
           | Some cfg \<Rightarrow>
               (case bind_res (offset_height (case round_offset cfg of
                          Some n \<Rightarrow> n | None \<Rightarrow> DEFAULT_BOOTSTRAP_ROUND_OFFSET))
                       (\<lambda>h. bind_res (r_block_number env) (\<lambda>l. Ok (h, l))) of
                  Ok (h, latest) \<Rightarrow>
                    fetch_chunks
                      (\<lambda>a b. r_get_logs env
                         \<lparr>f_addresses = bootstrap_filter_addresses (r_client env),
                          f_event_signature = Some (r_socket_signature_hash env),
                          from_block = a, to_block = b\<rparr>)
                      (saturating_sub latest h) latest BOOTSTRAP_BLOCK_CHUNK_SIZE []
                | Err e \<Rightarrow> Some (Err e)
                | Panic \<Rightarrow> Some Panic)))"

definition relay_bootstrap ::
    "RelayEnv \<Rightarrow> Log list option \<Rightarrow> BootstrapConfig option \<Rightarrow> (u64 \<Rightarrow> u64 res)
      \<Rightarrow> (effect, unit) eff option" where
  "relay_bootstrap env cached config offset_height =
     map_option (\<lambda>logs.
         bind_eff (lift logs) (for_each (\<lambda>log. process_confirmed_log env log True)))
       (relay_bootstrap_events env cached config offset_height)"

section \<open>A pass as a decision on each entry\<close>

text \<open>The reference: what a pass at head \<open>latest\<close> makes of one entry.\<close>

definition decide_event :: "RelayEnv \<Rightarrow> u64 \<Rightarrow> PendingEvent \<Rightarrow> PendingEvent option" where
  "decide_event env latest e =
     (if \<not> is_confirmed env latest e then Some e
      else
        (case verify_event_on_chain env e of
           Ok (Some b) \<Rightarrow>
             if b = pe_block_number e then None
             else Some (e\<lparr>pe_block_number := b, absent_checks := 0\<rparr>)
         | Ok None \<Rightarrow>
             if MAX_ABSENT_CHECKS \<le> saturating_add (absent_checks e) 1 then None
             else Some (e\<lparr>absent_checks := saturating_add (absent_checks e) 1\<rparr>)
         | _ \<Rightarrow> Some e))"

definition sweep_pending :: "RelayEnv \<Rightarrow> u64 \<Rightarrow> PendingEvent list \<Rightarrow> PendingEvent list" where
  "sweep_pending env latest pending =
     apply_marks (fold (mark_event env) (events_to_check env latest pending) ([], [], [])) pending"

definition marks_remove :: "RelayEnv \<Rightarrow> PendingEvent \<Rightarrow> bool" where
  "marks_remove env e \<longleftrightarrow>
     (case verify_event_on_chain env e of
        Ok (Some b) \<Rightarrow> b = pe_block_number e
      | Ok None \<Rightarrow> MAX_ABSENT_CHECKS \<le> saturating_add (absent_checks e) 1
      | _ \<Rightarrow> False)"

definition marks_move :: "RelayEnv \<Rightarrow> PendingEvent \<Rightarrow> bool" where
  "marks_move env e \<longleftrightarrow>
     (case verify_event_on_chain env e of Ok (Some b) \<Rightarrow> b \<noteq> pe_block_number e | _ \<Rightarrow> False)"

definition marks_bump :: "RelayEnv \<Rightarrow> PendingEvent \<Rightarrow> bool" where
  "marks_bump env e \<longleftrightarrow>
     verify_event_on_chain env e = Ok None \<and> \<not> MAX_ABSENT_CHECKS \<le> saturating_add (absent_checks e) 1"

definition moved_to :: "RelayEnv \<Rightarrow> PendingEvent \<Rightarrow> u64" where
  "moved_to env e = (case verify_event_on_chain env e of Ok (Some b) \<Rightarrow> b | _ \<Rightarrow> 0)"

lemmas marks_defs = marks_remove_def marks_move_def marks_bump_def moved_to_def

lemma fold_mark_event:
  "fold (mark_event env) (map (\<lambda>i. (i, p ! i)) is) (rm, bu, ab) =
     (rm @ filter (\<lambda>i. marks_remove env (p ! i)) is,
      bu @ map (\<lambda>i. (i, moved_to env (p ! i))) (filter (\<lambda>i. marks_move env (p ! i)) is),
      ab @ filter (\<lambda>i. marks_bump env (p ! i)) is)"
proof (induction "is" arbitrary: rm bu ab)
  case (Cons i "is")
  have "mark_event env (i, p ! i) (rm, bu, ab) =
     (rm @ (if marks_remove env (p ! i) then [i] else []),
      bu @ (if marks_move env (p ! i) then [(i, moved_to env (p ! i))] else []),
      ab @ (if marks_bump env (p ! i) then [i] else []))"
    by (auto simp: marks_defs split: res.splits option.splits)
  with Cons.IH show ?case
    by simp
qed simp

lemma sweep_pending_decides: "sweep_pending env latest pending = List.map_filter (decide_event env latest) pending"
proof -
  let ?n = "length pending"
  let ?c = "\<lambda>i. is_confirmed env latest (pending ! i)"
  define upd where "upd i = (if ?c i \<and> marks_move env (pending ! i)
      then (pending ! i)\<lparr>pe_block_number := moved_to env (pending ! i), absent_checks := 0\<rparr> else pending ! i)" for i
  define bmp where "bmp i = (if ?c i \<and> marks_bump env (pending ! i)
      then (upd i)\<lparr>absent_checks := saturating_add (absent_checks (upd i)) 1\<rparr> else upd i)" for i
  have u: "fold (\<lambda>(idx, new_block).
        get_mut idx (\<lambda>e. e\<lparr>pe_block_number := new_block, absent_checks := 0\<rparr>))
      (map (\<lambda>i. (i, moved_to env (pending ! i)))
        (filter (\<lambda>i. marks_move env (pending ! i)) (filter ?c [0..<?n]))) pending = map upd [0..<?n]"
    using fold_get_mut_eq_map
      [of "\<lambda>i e. e\<lparr>pe_block_number := moved_to env (pending ! i), absent_checks := 0\<rparr>"
          "\<lambda>i. ?c i \<and> marks_move env (pending ! i)" pending]
    by (simp add: fold_map comp_def upd_def cong: if_cong)
  have b: "fold (\<lambda>idx. get_mut idx (\<lambda>e. e\<lparr>absent_checks := saturating_add (absent_checks e) 1\<rparr>))
      (filter (\<lambda>i. marks_bump env (pending ! i)) (filter ?c [0..<?n])) (map upd [0..<?n]) = map bmp [0..<?n]"
    using fold_get_mut_eq_map
      [of "\<lambda>i e. e\<lparr>absent_checks := saturating_add (absent_checks e) 1\<rparr>"
          "\<lambda>i. ?c i \<and> marks_bump env (pending ! i)" "map upd [0..<?n]"]
    by (simp add: bmp_def cong: if_cong)
  have sorted: "sort (filter (\<lambda>i. marks_remove env (pending ! i)) (filter ?c [0..<?n])) =
      filter (\<lambda>i. marks_remove env (pending ! i)) (filter ?c [0..<?n])"
    by (intro sorted_sort_id sorted_wrt_filter) simp
  have "sweep_pending env latest pending =
      map bmp (filter (\<lambda>i. \<not> (?c i \<and> marks_remove env (pending ! i))) [0..<?n])"
    unfolding sweep_pending_def events_to_check_def fold_mark_event apply_marks_def prod.case Let_def
      append_Nil u b sorted
    using prune_map [of "\<lambda>i. ?c i \<and> marks_remove env (pending ! i)" ?n bmp]
    by (simp add: conj_commute)
  also have "\<dots> = map (\<lambda>i. the (decide_event env latest (pending ! i)))
      (filter (\<lambda>i. decide_event env latest (pending ! i) \<noteq> None) [0..<?n])"
    by (auto simp: decide_event_def bmp_def upd_def marks_defs split: res.splits option.splits if_splits
        intro!: map_cong filter_cong)
  also have "\<dots> = List.map_filter (decide_event env latest) pending"
    using filter_index_nth [of "\<lambda>e. the (decide_event env latest e)" pending
        "\<lambda>e. decide_event env latest e \<noteq> None"]
    by (simp add: List.map_filter_def comp_def)
  finally show ?thesis .
qed

interpretation pending_events: pending_pool "sweep_pending env latest" "decide_event env latest"
  for env latest
  by unfold_locales (rule sweep_pending_decides)

lemma relay_if_present_not_Err [simp]: "snd (relay_if_present env e) \<noteq> Err x"
  by (auto simp: relay_if_present_def split: res.splits option.splits)

lemma check_events_eq:
  "snd (check_events env xs m) \<noteq> Panic \<Longrightarrow>
     check_events env xs m =
       (concat (map (\<lambda>x. fst (relay_if_present env (snd x))) xs), Ok (fold (mark_event env) xs m))"
proof (induction xs arbitrary: m)
  case Nil
  then show ?case by (simp add: ret_def)
next
  case (Cons x xs)
  obtain idx e where x: "x = (idx, e)" by fastforce
  obtain fs r where f: "relay_if_present env e = (fs, r)" by fastforce
  with Cons.prems x have "r = Ok ()"
    using relay_if_present_not_Err [of env e] by (cases r) auto
  with Cons.IH [of "mark_event env (idx, e) m"] Cons.prems x f show ?case by auto
qed

lemma relayed_effects:
  "concat (map (\<lambda>x. fst (relay_if_present env (snd x))) (events_to_check env latest pending)) =
   concat (map (\<lambda>e. fst (process_confirmed_log env (pe_log e) False))
     (filter (\<lambda>e. is_confirmed env latest e
        \<and> verify_event_on_chain env e = Ok (Some (pe_block_number e))) pending))"
proof -
  have one: "fst (relay_if_present env e) =
      (if verify_event_on_chain env e = Ok (Some (pe_block_number e))
       then fst (process_confirmed_log env (pe_log e) False) else [])" for e
    by (auto simp: relay_if_present_def split: res.splits option.splits)
  have split: "concat (map (\<lambda>e. if Q e then g e else []) (filter P xs)) =
      concat (map g (filter (\<lambda>e. P e \<and> Q e) xs))"
    for P Q :: "PendingEvent \<Rightarrow> bool" and g :: "PendingEvent \<Rightarrow> effect list" and xs
    by (induction xs) auto
  have "map (\<lambda>x. fst (relay_if_present env (snd x))) (events_to_check env latest pending) =
      map (\<lambda>e. fst (relay_if_present env e)) (filter (is_confirmed env latest) pending)"
    using filter_index_nth [of "\<lambda>e. fst (relay_if_present env e)" pending "is_confirmed env latest"]
    by (simp add: events_to_check_def comp_def)
  then show ?thesis
    by (simp add: one split)
qed

lemma sweep_nothing_to_check:
  "events_to_check env latest pending = [] \<Longrightarrow> sweep_pending env latest pending = pending"
  by (simp add: sweep_pending_def apply_marks_def)

lemma process_confirmed_pending_events_eq:
  assumes "r_block_number env = Ok latest"
    and "snd (snd (process_confirmed_pending_events env pending)) \<noteq> Panic"
  shows "process_confirmed_pending_events env pending =
    (sweep_pending env latest pending,
     concat (map (\<lambda>e. fst (process_confirmed_log env (pe_log e) False))
       (filter (\<lambda>e. is_confirmed env latest e
          \<and> verify_event_on_chain env e = Ok (Some (pe_block_number e))) pending)), Ok ())"
proof (cases "events_to_check env latest pending = []")
  case True
  then show ?thesis
    using assms(1) relayed_effects [of env latest pending]
    by (simp add: process_confirmed_pending_events_def sweep_nothing_to_check ret_def)
next
  case False
  then have "snd (check_events env (events_to_check env latest pending) ([], [], [])) \<noteq> Panic"
    using assms by (cases "check_events env (events_to_check env latest pending) ([], [], [])")
      (auto simp: process_confirmed_pending_events_def Let_def)
  from check_events_eq [OF this] False show ?thesis
    using assms(1)
    by (simp add: process_confirmed_pending_events_def sweep_pending_def relayed_effects)
qed

section \<open>Properties\<close>

definition ex_pending :: PendingEvent where
  "ex_pending = \<lparr>pe_log = ex_log 11 3, pe_block_number = 90, absent_checks = 0\<rparr>"

definition ex_tick_env :: "u64 option option \<Rightarrow> RelayEnv" where
  "ex_tick_env mined = ex_relay_env\<lparr>r_get_transaction := (\<lambda>_. Ok mined),
     r_get_logs := (\<lambda>_. Ok [ex_log 11 3])\<rparr>"

text \<open>
  C3: The pass over the pending pool is a decision per event. Provided nothing panics, one pass
  relays exactly the events that have the configured confirmations and are still on chain at the
  block they were recorded for, in pool order and each once; it removes these and the events
  found missing for the fifth time, re-dates the ones a reorganisation moved, counts one more
  absence for the other missing ones and leaves everything else as it was. The index vectors of
  the implementation (bumps, updates and removals applied afterwards by position) never touch a
  wrong entry.
\<close>

theorem pending_pass:
  assumes "r_block_number env = Ok latest"
    and "snd (snd (process_confirmed_pending_events env pending)) \<noteq> Panic"
  shows "process_confirmed_pending_events env pending =
    (List.map_filter (decide_event env latest) pending,
     concat (map (\<lambda>e. fst (process_confirmed_log env (pe_log e) False))
       (filter (\<lambda>e. is_confirmed env latest e
          \<and> verify_event_on_chain env e = Ok (Some (pe_block_number e))) pending)), Ok ())"
  using process_confirmed_pending_events_eq [OF assms] by (simp add: sweep_pending_decides)

lemma ex_tick_log: "process_confirmed_log (ex_tick_env mined) (ex_log 11 3) False =
    process_confirmed_log ex_relay_env (ex_log 11 3) False"
proof -
  have "send_socket_message (ex_tick_env mined) (ex_message 3)
      (relay_metadata True Executed (ex_message 3) False) True =
     ([SendTx 3068 (build_poll_request 11 (ex_message 3) (signatures_from_signature ex_signature))
        (SocketRelay (relay_metadata True Executed (ex_message 3) False))], Ok ())"
    by (subst send_socket_message_eq [where client = "ex_client 3068 True"])
      (auto simp: relay_metadata_def relay_tx_chain_id_def build_signatures_def ex_tick_env_def
        build_inbound_signatures_def is_executable_def ex_relay_simps)
  moreover have "submit_brp_outbound_request (ex_tick_env mined) (ex_message 3)
      (relay_metadata True Executed (ex_message 3) False) = ret ()"
    by (rule submit_brp_not_bitcoin) (simp_all add: ex_relay_simps ex_tick_env_def)
  ultimately show ?thesis
    unfolding ex_relay_log
    by (simp add: process_confirmed_log_def Let_def ex_relay_simps ex_tick_env_def)
qed

lemma ex_tick_verify:
  "verify_event_on_chain (ex_tick_env mined) ex_pending = Ok (case mined of Some b \<Rightarrow> b | None \<Rightarrow> None)"
  "is_confirmed (ex_tick_env mined) 100 ex_pending"
  "r_block_number (ex_tick_env mined) = Ok 100"
  by (auto simp: verify_event_on_chain_def is_confirmed_def ex_tick_env_def ex_pending_def ex_relay_simps
      saturating_sub_def split: option.splits)

theorem pending_pass_witness:
  "fst (process_confirmed_pending_events (ex_tick_env (Some (Some 90))) [ex_pending]) = []
   \<and> length (fst (snd (process_confirmed_pending_events (ex_tick_env (Some (Some 90))) [ex_pending]))) = 1"
proof -
  let ?env = "ex_tick_env (Some (Some 90))"
  have log: "pe_log ex_pending = ex_log 11 3" "pe_block_number ex_pending = 90"
    by (simp_all add: ex_pending_def)
  have "relay_if_present ?env ex_pending = process_confirmed_log ?env (ex_log 11 3) False"
    by (simp add: relay_if_present_def ex_tick_verify log ex_tick_log ex_relay_log)
  then have ok: "snd (snd (process_confirmed_pending_events ?env [ex_pending])) \<noteq> Panic"
    by (simp add: process_confirmed_pending_events_def events_to_check_def ex_tick_verify
        ex_tick_log ex_relay_log ret_def Let_def)
  show ?thesis
    using pending_pass [OF ex_tick_verify(3) ok]
    by (simp add: List.map_filter_def decide_event_def ex_tick_verify log ex_tick_log ex_relay_log)
qed

text \<open>Passes one after the other, each with what the node answers then.\<close>

fun sweeps :: "(RelayEnv \<times> u64) list \<Rightarrow> PendingEvent list \<Rightarrow> PendingEvent list" where
  "sweeps [] pool = pool"
| "sweeps ((env, latest) # ticks) pool = sweeps ticks (sweep_pending env latest pool)"

lemma decide_event_log: "decide_event env latest e = Some e' \<Longrightarrow> pe_log e' = pe_log e"
  by (auto simp: decide_event_def split: if_splits res.splits option.splits)

lemma verify_event_log:
  "pe_log e = pe_log e' \<Longrightarrow> verify_event_on_chain env e = verify_event_on_chain env e'"
  unfolding verify_event_on_chain_def by (elim subst) (rule refl)

lemma decide_event_None:
  assumes "decide_event env latest e = None"
  shows "is_confirmed env latest e \<and>
    (verify_event_on_chain env e = Ok (Some (pe_block_number e))
     \<or> verify_event_on_chain env e = Ok None \<and> 4 \<le> unat (absent_checks e))"
  using assms
  by (auto simp: decide_event_def MAX_ABSENT_CHECKS_def word_le_nat_alt split: if_splits res.splits option.splits)

lemma decide_event_absent:
  assumes "decide_event env latest e = Some e'"
  shows "unat (absent_checks e') \<le> unat (absent_checks e) +
    (if verify_event_on_chain env e = Ok None then 1 else 0)"
  using assms by (auto simp: decide_event_def split: if_splits res.splits option.splits)

text \<open>
  No event is lost to a short reorganisation. Over any run of passes in which the node fails
  to find an event fewer than five times in all, counting the absences recorded before, the event
  is either relayed by one of the passes (it was confirmed and on chain at its block) or still
  in the pool at the end.
\<close>

theorem reorg_tolerance:
  assumes "e \<in> set pool"
    and "unat (absent_checks e)
      + length (filter (\<lambda>(env, _). verify_event_on_chain env e = Ok None) ticks) < 5"
  shows "(\<exists>pre env latest post e'. ticks = pre @ (env, latest) # post \<and> e' \<in> set (sweeps pre pool)
        \<and> pe_log e' = pe_log e \<and> is_confirmed env latest e'
        \<and> verify_event_on_chain env e' = Ok (Some (pe_block_number e')))
    \<or> (\<exists>e' \<in> set (sweeps ticks pool). pe_log e' = pe_log e)"
  using assms
proof (induction ticks arbitrary: pool e)
  case Nil
  then show ?case by auto
next
  case (Cons tick ticks)
  obtain env latest where t: "tick = (env, latest)" by fastforce
  show ?case
  proof (cases "decide_event env latest e")
    case None
    from decide_event_None [OF this] Cons.prems t
    have "is_confirmed env latest e" "verify_event_on_chain env e = Ok (Some (pe_block_number e))"
      by auto
    with Cons.prems(1) t show ?thesis
      by (intro disjI1 exI [of _ "[]"] exI [of _ env] exI [of _ latest] exI [of _ ticks] exI [of _ e]) simp
  next
    case (Some e1)
    note log = decide_event_log [OF Some]
    have in_pool: "e1 \<in> set (sweep_pending env latest pool)"
      using Some Cons.prems(1) by (auto simp: pending_events.mem_sweep_iff)
    have "unat (absent_checks e1)
        + length (filter (\<lambda>(env, _). verify_event_on_chain env e1 = Ok None) ticks) < 5"
      using Cons.prems(2) decide_event_absent [OF Some] verify_event_log [OF log]
      by (auto simp: t split: if_splits)
    from Cons.IH [OF in_pool this] show ?thesis
    proof (elim disjE exE conjE)
      fix pre env' latest' post e'
      assume "ticks = pre @ (env', latest') # post" "e' \<in> set (sweeps pre (sweep_pending env latest pool))"
        "pe_log e' = pe_log e1" "is_confirmed env' latest' e'"
        "verify_event_on_chain env' e' = Ok (Some (pe_block_number e'))"
      with t log show ?thesis
        by (intro disjI1 exI [of _ "tick # pre"] exI [of _ env'] exI [of _ latest'] exI [of _ post] exI [of _ e'])
          simp
    qed (use t log in auto)
  qed
qed

theorem reorg_tolerance_witness:
  "\<exists>e' \<in> set (sweeps [(ex_tick_env None, 100), (ex_tick_env (Some None), 100)] [ex_pending]).
      pe_log e' = ex_log 11 3"
proof -
  let ?ticks = "[(ex_tick_env None, 100), (ex_tick_env (Some None), 100)] :: (RelayEnv \<times> u64) list"
  have log: "pe_log ex_pending = ex_log 11 3" by (simp add: ex_pending_def)
  have never: "verify_event_on_chain env e' = Ok None"
    if "(env, l) \<in> set ?ticks" "pe_log e' = pe_log ex_pending" for env l e'
    using that verify_event_log [of e' ex_pending env] by (auto simp: ex_tick_verify)
  have "unat (absent_checks ex_pending)
      + length (filter (\<lambda>(env, _). verify_event_on_chain env ex_pending = Ok None) ?ticks) < 5"
    by (simp add: ex_pending_def)
  then have "(\<exists>pre env latest post e'. ?ticks = pre @ (env, latest) # post
        \<and> e' \<in> set (sweeps pre [ex_pending])
        \<and> pe_log e' = pe_log ex_pending \<and> is_confirmed env latest e'
        \<and> verify_event_on_chain env e' = Ok (Some (pe_block_number e')))
    \<or> (\<exists>e' \<in> set (sweeps ?ticks [ex_pending]). pe_log e' = pe_log ex_pending)"
    by (intro reorg_tolerance) simp_all
  then show ?thesis
  proof (elim disjE exE conjE)
    fix pre env latest post e'
    assume "?ticks = pre @ (env, latest) # post" "pe_log e' = pe_log ex_pending"
      "verify_event_on_chain env e' = Ok (Some (pe_block_number e'))"
    then have "(env, latest) \<in> set ?ticks" by (metis in_set_conv_decomp)
    from never [OF this \<open>pe_log e' = pe_log ex_pending\<close>]
    have "verify_event_on_chain env e' = Ok None" .
    with \<open>verify_event_on_chain env e' = Ok (Some (pe_block_number e'))\<close> show ?thesis by simp
  qed (auto simp: log)
qed

text \<open>
  An event that is gone is given up after exactly five passes. When every pass sees enough
  confirmations and does not find the event, it stays in the pool with its count of absences for
  four passes and is removed by the fifth.
\<close>

theorem absent_event_dropped:
  assumes "absent_checks e = 0"
    and "\<And>env latest. (env, latest) \<in> set ticks \<Longrightarrow>
      is_confirmed env latest e \<and> verify_event_on_chain env e = Ok None"
  shows "sweeps ticks [e] =
    (if length ticks < 5 then [e\<lparr>absent_checks := of_nat (length ticks)\<rparr>] else [])"
proof -
  have "sweeps ts [e\<lparr>absent_checks := of_nat n\<rparr>] =
      (if n + length ts < 5 then [e\<lparr>absent_checks := of_nat (n + length ts)\<rparr>] else [])"
    if "n < 5" "\<And>env latest. (env, latest) \<in> set ts \<Longrightarrow>
      is_confirmed env latest e \<and> verify_event_on_chain env e = Ok None" for n ts
    using that
  proof (induction ts arbitrary: n)
    case (Cons t ts)
    obtain env latest where t: "t = (env, latest)" by fastforce
    let ?e = "e\<lparr>absent_checks := of_nat n\<rparr>"
    have "is_confirmed env latest ?e \<and> verify_event_on_chain env ?e = Ok None"
      using Cons.prems(2) [of env latest] t verify_event_log [of ?e e env] by (simp add: is_confirmed_def)
    moreover have "unat (of_nat n :: u32) = n"
      using Cons.prems(1) by (simp add: unat_of_nat)
    moreover have "saturating_add (of_nat n) 1 = (of_nat (Suc n) :: u32)"
      using calculation(2) Cons.prems(1) by (simp add: saturating_add_def)
    moreover have "unat (1 + of_nat n :: u32) = Suc n"
      using calculation(2) Cons.prems(1) by (simp add: unat_word_ariths)
    ultimately have "sweep_pending env latest [?e] =
        (if Suc n < 5 then [e\<lparr>absent_checks := of_nat (Suc n)\<rparr>] else [])"
      using Cons.prems(1)
      by (auto simp: sweep_pending_decides List.map_filter_def decide_event_def MAX_ABSENT_CHECKS_def
          word_le_nat_alt unat_of_nat)
    moreover have "sweeps ts [] = []"
      by (induction ts) (auto simp: sweep_pending_decides List.map_filter_def)
    moreover have "Suc n < 5 \<Longrightarrow> sweeps ts [e\<lparr>absent_checks := of_nat (Suc n)\<rparr>] =
        (if Suc n + length ts < 5 then [e\<lparr>absent_checks := of_nat (Suc n + length ts)\<rparr>] else [])"
      using Cons.prems(2) by (intro Cons.IH) auto
    ultimately show ?case
      using t by simp
  qed simp
  from this [of 0 ticks] assms show ?thesis
    by (cases e) simp
qed

theorem absent_event_dropped_witness:
  "sweeps (replicate 5 (ex_tick_env None, 100)) [ex_pending] = []"
  using absent_event_dropped [of ex_pending "replicate 5 (ex_tick_env None, 100)"]
  by (simp add: ex_tick_verify, simp add: ex_pending_def)

section \<open>The loop as a step relation\<close>

text \<open>
  One turn of the handler's \<open>select!\<close>: a batch of logs, a message from the on-flight handler,
  or a tick of the timer. Errors are logged and the loop goes on; a panic ends the task, so no
  step leads out of it. Each step carries what the outside answers during it.
\<close>

inductive relay_step ::
    "RelayEnv \<Rightarrow> PendingEvent list \<Rightarrow> effect list \<Rightarrow> PendingEvent list \<Rightarrow> bool" where
  step_event: "on_event_message env m pool = (pool', fs, r) \<Longrightarrow> r \<noteq> Panic \<Longrightarrow>
     relay_step env pool fs pool'"
| step_onflight: "process_onflight_message env msg = (fs, r) \<Longrightarrow> r \<noteq> Panic \<Longrightarrow>
     relay_step env pool fs pool"
| step_tick: "process_confirmed_pending_events env pool = (pool', fs, r) \<Longrightarrow> r \<noteq> Panic \<Longrightarrow>
     relay_step env pool fs pool'"

inductive relay_reachable :: "EthClient \<Rightarrow> b256 \<Rightarrow> PendingEvent list \<Rightarrow> bool"
  for client hash where
  reach_init: "relay_reachable client hash []"
| reach_step: "relay_reachable client hash pool \<Longrightarrow> relay_step env pool fs pool' \<Longrightarrow>
     r_client env = client \<Longrightarrow> r_socket_signature_hash env = hash \<Longrightarrow>
     relay_reachable client hash pool'"

definition pool_entry_ok :: "EthClient \<Rightarrow> b256 \<Rightarrow> PendingEvent \<Rightarrow> bool" where
  "pool_entry_ok client hash e \<longleftrightarrow>
     absent_checks e < MAX_ABSENT_CHECKS \<and> topic0 (pe_log e) = Some hash
     \<and> (log_address (pe_log e) = socket (protocol_contracts client)
        \<or> bitcoin_socket (protocol_contracts client) = Some (log_address (pe_log e)))"

lemma target_entry_ok:
  "is_target_contract env log \<Longrightarrow> is_target_event env (topic0 log) \<Longrightarrow> r_client env = client \<Longrightarrow>
   r_socket_signature_hash env = hash \<Longrightarrow>
   pool_entry_ok client hash \<lparr>pe_log = log, pe_block_number = b, absent_checks = 0\<rparr>"
  by (auto simp: pool_entry_ok_def is_target_contract_def is_target_event_def MAX_ABSENT_CHECKS_def
      split: option.splits)

lemma on_event_logs_ok:
  assumes "\<forall>e \<in> set pool. pool_entry_ok client hash e" and "r_client env = client"
    and "r_socket_signature_hash env = hash"
  shows "\<forall>e \<in> set (fst (on_event_logs env b logs pool)). pool_entry_ok client hash e"
  using assms
proof (induction logs arbitrary: pool)
  case (Cons log logs)
  show ?case
  proof (cases "is_target_contract env log \<and> is_target_event env (topic0 log)")
    case True
    note new = target_entry_ok [of env log client hash b]
    let ?pushed = "pool @ [\<lparr>pe_log = log, pe_block_number = b, absent_checks = 0\<rparr>]"
    have "fst (on_event_logs env b (log # logs) pool) \<in>
        {pool, fst (on_event_logs env b logs pool), fst (on_event_logs env b logs ?pushed)}"
      using True by (auto split: res.splits option.splits prod.splits bool.splits)
    moreover have "\<forall>e \<in> set (fst (on_event_logs env b logs pool)). pool_entry_ok client hash e"
      using Cons by blast
    moreover have "\<forall>e \<in> set (fst (on_event_logs env b logs ?pushed)). pool_entry_ok client hash e"
      using True Cons.prems new by (intro Cons.IH) auto
    ultimately show ?thesis
      using Cons.prems(1) by auto
  qed (use Cons in auto)
qed simp

lemma decide_event_ok:
  "decide_event env latest e = Some e' \<Longrightarrow> pool_entry_ok client hash e \<Longrightarrow> pool_entry_ok client hash e'"
  by (auto simp: decide_event_def pool_entry_ok_def MAX_ABSENT_CHECKS_def not_le
      split: if_splits res.splits option.splits)

lemma process_confirmed_pending_events_ok:
  assumes "\<forall>e \<in> set pool. pool_entry_ok client hash e"
    and "snd (snd (process_confirmed_pending_events env pool)) \<noteq> Panic"
  shows "\<forall>e \<in> set (fst (process_confirmed_pending_events env pool)). pool_entry_ok client hash e"
proof (cases "r_block_number env")
  case (Ok latest)
  show ?thesis
  proof
    fix e'
    assume "e' \<in> set (fst (process_confirmed_pending_events env pool))"
    then obtain e where "e \<in> set pool" "decide_event env latest e = Some e'"
      by (auto simp: process_confirmed_pending_events_eq [OF Ok assms(2)] pending_events.mem_sweep_iff)
    with assms(1) show "pool_entry_ok client hash e'"
      by (blast intro: decide_event_ok)
  qed
qed (use assms in \<open>simp_all add: process_confirmed_pending_events_def\<close>)

text \<open>
  C27: Pool invariant. In every reachable state of the handler's loop each pending event is a
  socket event of one of the chain's socket contracts and has been missed fewer times than the
  limit that drops it.
\<close>

theorem pool_invariant:
  assumes "relay_reachable client hash pool" and "e \<in> set pool"
  shows "absent_checks e < MAX_ABSENT_CHECKS \<and> topic0 (pe_log e) = Some hash
    \<and> (log_address (pe_log e) = socket (protocol_contracts client)
       \<or> bitcoin_socket (protocol_contracts client) = Some (log_address (pe_log e)))"
proof -
  have "\<forall>e \<in> set pool. pool_entry_ok client hash e"
    using assms(1)
  proof (induction rule: relay_reachable.induct)
    case (reach_step pool env fs pool')
    from reach_step.hyps(2) show ?case
    proof cases
      case (step_event m r)
      then show ?thesis
        using on_event_logs_ok [OF reach_step.IH reach_step.hyps(3,4), of "ev_block_number m" "event_logs m"]
        by (simp add: on_event_message_def)
    next
      case (step_tick r)
      then show ?thesis
        using process_confirmed_pending_events_ok [OF reach_step.IH, of env] by simp
    qed (use reach_step.IH in simp)
  qed simp
  with assms(2) show ?thesis
    by (auto simp: pool_entry_ok_def)
qed

lemma immediate_status:
  "should_process_immediately env log = Ok (Some True) \<Longrightarrow>
     \<exists>msg. r_decode_socket env log = Some msg
      \<and> (if is_inbound_sequence (r_client env) (dst_chain_id msg)
         then msg_status msg = 3 else msg_status msg = 5)"
  by (auto simp: should_process_immediately_def bind_res_Ok_iff socket_code.decodes_iff
      split: option.splits bool.splits SocketEventStatus.splits)

lemma on_event_logs_immediate:
  "f \<in> set (fst (snd (on_event_logs env b logs p))) \<Longrightarrow>
     \<exists>log. f \<in> set (fst (process_confirmed_log env log False))
       \<and> should_process_immediately env log = Ok (Some True)"
proof (induction logs arbitrary: p)
  case (Cons log logs)
  obtain gs r where l: "log_err (process_confirmed_log env log False) = (gs, r)" by fastforce
  then have "gs = fst (process_confirmed_log env log False)"
    using fst_log_err [of "process_confirmed_log env log False"] by simp
  then have here: "f \<in> set gs \<Longrightarrow> f \<in> set (fst (process_confirmed_log env log False))"
    by simp
  obtain p1 gs1 r1 where p: "on_event_logs env b logs p = (p1, gs1, r1)"
    by (metis prod_cases3)
  show ?case
  proof (cases "is_target_contract env log \<and> is_target_event env (topic0 log)
      \<and> should_process_immediately env log = Ok (Some True)")
    case True
    with Cons.prems l p have "f \<in> set gs \<or> f \<in> set gs1"
      by (cases r) auto
    with True here Cons.IH [of p] p show ?thesis by auto
  next
    case False
    with Cons.prems obtain p' where "f \<in> set (fst (snd (on_event_logs env b logs p')))"
      by (auto split: if_splits res.splits option.splits bool.splits)
    then show ?thesis by (rule Cons.IH)
  qed
qed simp


theorem pool_invariant_witness:
  "relay_reachable (ex_client 3068 True) 5 [\<lparr>pe_log = ex_log 11 1, pe_block_number = 90, absent_checks = 0\<rparr>]
   \<and> (0::u32) < MAX_ABSENT_CHECKS"
proof -
  let ?e = "\<lparr>pe_log = ex_log 11 1, pe_block_number = 90, absent_checks = 0\<rparr>"
  have "on_event_message ex_relay_env \<lparr>ev_block_number = 90, event_logs = [ex_log 11 1]\<rparr> [] = ([?e], [], Ok ())"
    by (simp add: on_event_message_def is_target_contract_def is_target_event_def topic0_def
        should_process_immediately_def ex_relay_simps ret_def)
  then have "relay_reachable (ex_client 3068 True) 5 [?e]"
    by (intro reach_step [OF reach_init step_event]) (auto simp: ex_relay_env_def ex_hook_env_def)
  then show ?thesis
    using pool_invariant [of "ex_client 3068 True" 5 "[?e]" ?e] by simp
qed


text \<open>
  Bootstrap replays every historical socket event. With nothing cached and a node that
  answers filters by block range, the bootstrap of the handler ends and processes, in block
  order, exactly the events of the blocks from the offset below the head up to the head, each
  as a bootstrap relay, as long as none of them fails.
\<close>

theorem bootstrap_replays:
  assumes "serves_logs logs_at (r_get_logs env)"
    and "r_block_number env = Ok latest" and "unat latest + 1000 < 2 ^ 64"
    and "offset_height (case round_offset cfg of Some n \<Rightarrow> n | None \<Rightarrow> DEFAULT_BOOTSTRAP_ROUND_OFFSET) = Ok h"
    and "\<And>log. log \<in> set (concat (map logs_at [unat latest - unat h..<Suc (unat latest)])) \<Longrightarrow>
      snd (process_confirmed_log env log True) = Ok ()"
  shows "relay_bootstrap env None (Some cfg) offset_height =
    Some (concat (map (\<lambda>log. fst (process_confirmed_log env log True))
      (concat (map logs_at [unat latest - unat h..<Suc (unat latest)]))), Ok ())"
proof -
  let ?answer = "\<lambda>a b. concat (map logs_at [a..<Suc b])"
  let ?ranges = "chunk_ranges (unat latest - unat h) (unat latest) 1000"
  have all: "concat (map (\<lambda>(x, y). ?answer x y) ?ranges) =
      concat (map logs_at [unat latest - unat h..<Suc (unat latest)])"
    by (intro chunk_ranges_logs) simp
  have "fetch_chunks (\<lambda>a b. r_get_logs env
        \<lparr>f_addresses = bootstrap_filter_addresses (r_client env),
         f_event_signature = Some (r_socket_signature_hash env), from_block = a, to_block = b\<rparr>)
      (saturating_sub latest h) latest BOOTSTRAP_BLOCK_CHUNK_SIZE [] =
      Some (Ok ([] @ concat (map (\<lambda>(x, y). ?answer x y)
        (chunk_ranges (unat (saturating_sub latest h)) (unat latest) (unat BOOTSTRAP_BLOCK_CHUNK_SIZE)))))"
    using assms(3) serves_logsD [OF assms(1)]
    by (intro fetch_chunks_ok) (simp_all add: BOOTSTRAP_BLOCK_CHUNK_SIZE_def)
  then have "relay_bootstrap_events env None (Some cfg) offset_height =
      Some (Ok (concat (map logs_at [unat latest - unat h..<Suc (unat latest)])))"
    using assms(2,4) all by (simp add: relay_bootstrap_events_def BOOTSTRAP_BLOCK_CHUNK_SIZE_def del: upt_Suc)
  moreover have "for_each (\<lambda>log. process_confirmed_log env log True) logs =
      (concat (map (\<lambda>log. fst (process_confirmed_log env log True)) logs), Ok ())"
    if "logs = concat (map logs_at [unat latest - unat h..<Suc (unat latest)])" for logs
    using assms(5) that by (intro for_each_all_ok) blast
  ultimately show ?thesis
    by (simp only: relay_bootstrap_def option.map bind_eff_lift_Ok)
qed

definition ex_logs_at :: "nat \<Rightarrow> Log list" where
  "ex_logs_at n = (if n = 90 then [ex_log 11 7] else [])"

definition ex_boot_env :: RelayEnv where
  "ex_boot_env = ex_relay_env\<lparr>r_is_previous_selected := (\<lambda>_ _. Ok False),
     r_get_logs := (\<lambda>f. Ok (concat (map ex_logs_at [unat (from_block f)..<Suc (unat (to_block f))])))\<rparr>"

theorem bootstrap_replays_witness:
  "relay_bootstrap ex_boot_env None
      (Some \<lparr>is_enabled = True, round_offset = Some 3, btc_block_offset = None\<rparr>) (\<lambda>_. Ok 20)
   = Some ([], Ok ())"
proof -
  have quiet: "process_confirmed_log ex_boot_env (ex_log 11 7) True = ret ()"
    by (simp add: process_confirmed_log_def Let_def ex_relay_simps ex_boot_env_def)
  then have all: "process_confirmed_log ex_boot_env log True = ret ()" if "log \<in> set (ex_logs_at n)"
    for log n using that by (auto simp: ex_logs_at_def split: if_splits)
  have "relay_bootstrap ex_boot_env None
      (Some \<lparr>is_enabled = True, round_offset = Some 3, btc_block_offset = None\<rparr>) (\<lambda>_. Ok 20) =
    Some (concat (map (\<lambda>log. fst (process_confirmed_log ex_boot_env log True))
      (concat (map ex_logs_at [unat (100::u64) - unat (20::u64)..<Suc (unat (100::u64))]))), Ok ())"
  proof (rule bootstrap_replays)
    show "serves_logs ex_logs_at (r_get_logs ex_boot_env)"
      by (simp add: serves_logs_def ex_boot_env_def del: upt_Suc)
    show "r_block_number ex_boot_env = Ok 100"
      by (simp add: ex_boot_env_def ex_relay_env_def)
  qed (use all in auto)
  moreover have "concat (map (\<lambda>log. fst (process_confirmed_log ex_boot_env log True)) (concat (map ex_logs_at ns))) = []"
    for ns using all by auto
  ultimately show ?thesis
    by (simp only:)
qed

end
