(* ===== verification/Socket_Onflight.thy ===== *)
theory Socket_Onflight
  imports Socket_Pending
begin

text \<open>
  The on-flight handler (\<open>client/src/eth/handlers/socket_onflight_handler.rs\<close>): for every block
  of the Bifrost runtime it reads the approved transfers of the relay queue, hands fast transfers
  to the relay handler at once, and holds standard transfers until their source transaction has
  the source chain's confirmations.
\<close>

section \<open>State and surroundings\<close>

record SocketOnflightMessage =
  om_socket_message :: Socket_Message
  om_asset_index_hash :: b256
  om_sequence_id :: u128

record PendingStandardTransfer =
  pst_socket_message :: Socket_Message
  pst_asset_index_hash :: b256
  pst_sequence_id :: u128
  pst_src_chain_id :: chain_id
  pst_dst_chain_id :: chain_id
  pst_src_tx_id :: b256
  pst_src_block_number :: u64
  pst_msg_hash :: b256

record OnflightState =
  pending_standard_transfers :: "PendingStandardTransfer list"
  processed_transfers :: "b256 set"

datatype TransferOption = Fast | Standard

record TransferInfo =
  ti_socket_message :: bytes
  ti_src_chain_id :: u32
  ti_src_tx_id :: b256
  ti_option :: TransferOption

datatype TxVerificationResult = Valid "u64 option" | NotFound

datatype onflight_effect = SendOnflight chain_id SocketOnflightMessage

type_synonym socket_message_tuple =
  "(u32 \<times> u64 \<times> u128) \<times> u8 \<times> (u32 \<times> u128) \<times> (b256 \<times> b256 \<times> address \<times> address \<times> u256 \<times> bytes)"

text \<open>
  Calls to the chains fail with \<open>None\<close>, because the handler treats all their failures alike. The
  storage listing \<open>o_storage\<close> fails as a whole or item by item.
\<close>

record OnflightEnv =
  o_bifrost_client :: EthClient
  o_system_clients :: "chain_id \<rightharpoonup> EthClient"
  o_keccak256 :: "bytes \<Rightarrow> b256"
  o_abi_decode :: "bytes \<Rightarrow> socket_message_tuple option"
  o_senders :: "chain_id \<rightharpoonup> bool"
  o_block_number :: "chain_id \<Rightarrow> u64 option"
  o_receipt :: "chain_id \<Rightarrow> b256 \<Rightarrow> u64 option option option"
  o_storage :: "TransferInfo option list option"

section \<open>Operations\<close>

definition decode_socket_message :: "OnflightEnv \<Rightarrow> bytes \<Rightarrow> Socket_Message option" where
  "decode_socket_message env bs =
     (case o_abi_decode env bs of
        None \<Rightarrow> None
      | Some ((chain, rnd, sq), st, (dst, method), (t0, t1, ref, recipient, amt, vs)) \<Rightarrow>
          Some \<lparr>req_id = \<lparr>ChainIndex = chain, round_id = rnd, sequence = sq\<rparr>, msg_status = st,
                ins_code = \<lparr>ins_ChainIndex = dst, RBCmethod = method\<rparr>,
                params = \<lparr>tokenIDX0 = t0, tokenIDX1 = t1, refund = ref, to = recipient,
                          amount = amt, variants = vs\<rparr>\<rparr>)"

definition get_block_confirmations :: "OnflightEnv \<Rightarrow> chain_id \<Rightarrow> u64" where
  "get_block_confirmations env chain =
     (case o_system_clients env chain of
        Some client \<Rightarrow> block_confirmations (metadata client)
      | None \<Rightarrow> block_confirmations (metadata (o_bifrost_client env)))"

text \<open>Bitcoin has no client of its own: its transfers are looked up on Bifrost.\<close>

definition src_client :: "OnflightEnv \<Rightarrow> chain_id \<Rightarrow> EthClient option" where
  "src_client env src =
     (if get_bitcoin_chain_id (o_bifrost_client env) = Some src then Some (o_bifrost_client env)
      else o_system_clients env src)"

definition get_src_chain_block_number :: "OnflightEnv \<Rightarrow> chain_id \<Rightarrow> u64 option" where
  "get_src_chain_block_number env src =
     (case src_client env src of None \<Rightarrow> None | Some c \<Rightarrow> o_block_number env (client_chain_id c))"

definition verify_src_transaction ::
    "OnflightEnv \<Rightarrow> chain_id \<Rightarrow> b256 \<Rightarrow> TxVerificationResult option" where
  "verify_src_transaction env src tx =
     (case src_client env src of
        None \<Rightarrow> None
      | Some c \<Rightarrow>
          (case o_receipt env (client_chain_id c) tx of
             None \<Rightarrow> None
           | Some (Some block_number) \<Rightarrow> Some (Valid block_number)
           | Some None \<Rightarrow> Some NotFound))"

definition get_tx_block_number :: "OnflightEnv \<Rightarrow> chain_id \<Rightarrow> b256 \<Rightarrow> u64 option option" where
  "get_tx_block_number env src tx =
     (case src_client env src of
        None \<Rightarrow> None
      | Some c \<Rightarrow>
          (case o_receipt env (client_chain_id c) tx of
             None \<Rightarrow> None
           | Some (Some block_number) \<Rightarrow> Some block_number
           | Some None \<Rightarrow> Some None))"

definition send_to_socket_relay_handler ::
    "OnflightEnv \<Rightarrow> chain_id \<Rightarrow> chain_id \<Rightarrow> Socket_Message \<Rightarrow> b256 \<Rightarrow> u128 \<Rightarrow> onflight_effect list" where
  "send_to_socket_relay_handler env src dst msg asset sq =
     (let is_outbound = (src = client_chain_id (o_bifrost_client env));
          target_chain_id = (if is_outbound then src else dst)
      in case o_senders env target_chain_id of
           Some True \<Rightarrow>
             [SendOnflight target_chain_id
                \<lparr>om_socket_message = msg, om_asset_index_hash = asset, om_sequence_id = sq\<rparr>]
         | _ \<Rightarrow> [])"

definition deliver_transfer :: "OnflightEnv \<Rightarrow> PendingStandardTransfer \<Rightarrow> onflight_effect list" where
  "deliver_transfer env t =
     send_to_socket_relay_handler env (pst_src_chain_id t) (pst_dst_chain_id t)
       (pst_socket_message t) (pst_asset_index_hash t) (pst_sequence_id t)"

text \<open>Whether a pending transfer is due for verification, and what verification said.\<close>

definition transfer_verdict ::
    "OnflightEnv \<Rightarrow> PendingStandardTransfer \<Rightarrow> TxVerificationResult option" where
  "transfer_verdict env t =
     (case get_src_chain_block_number env (pst_src_chain_id t) of
        None \<Rightarrow> None
      | Some current_src_block \<Rightarrow>
          if get_block_confirmations env (pst_src_chain_id t)
               \<le> saturating_sub current_src_block (pst_src_block_number t)
          then verify_src_transaction env (pst_src_chain_id t) (pst_src_tx_id t)
          else None)"

text \<open>The pass's vectors: removals, block updates, hashes to unmark, transfers to process.\<close>

type_synonym transfer_marks =
  "nat list \<times> (nat \<times> u64) list \<times> b256 list \<times> PendingStandardTransfer list"

fun mark_transfer ::
    "OnflightEnv \<Rightarrow> nat \<times> PendingStandardTransfer \<Rightarrow> transfer_marks \<Rightarrow> transfer_marks" where
  "mark_transfer env (idx, t) (rm, up, um, pr) =
     (case transfer_verdict env t of
        Some (Valid (Some tx_block)) \<Rightarrow>
          if tx_block = pst_src_block_number t then (rm @ [idx], up, um, pr @ [t])
          else (rm, up @ [(idx, tx_block)], um, pr)
      | Some (Valid None) \<Rightarrow> (rm, up, um, pr)
      | Some NotFound \<Rightarrow> (rm @ [idx], up, um @ [pst_msg_hash t], pr)
      | None \<Rightarrow> (rm, up, um, pr))"

definition process_pending_standard_transfers ::
    "OnflightEnv \<Rightarrow> OnflightState \<Rightarrow> OnflightState \<times> onflight_effect list" where
  "process_pending_standard_transfers env st =
     (let pending = pending_standard_transfers st
      in if pending = [] then (st, [])
         else (case fold (mark_transfer env) (enumerate 0 pending) ([], [], [], []) of
                 (rm, up, um, pr) \<Rightarrow>
                   (let updated = fold (\<lambda>(idx, new_block).
                          get_mut idx (\<lambda>t. t\<lparr>pst_src_block_number := new_block\<rparr>)) up pending;
                        kept = fold remove_index (rev rm) updated;
                        processed = fold (\<lambda>h s. s - {h}) um (processed_transfers st)
                    in (st\<lparr>pending_standard_transfers := kept, processed_transfers := processed\<rparr>,
                        concat (map (deliver_transfer env) pr)))))"

definition ti_pending ::
    "OnflightEnv \<Rightarrow> TransferInfo \<Rightarrow> Socket_Message \<Rightarrow> u64 \<Rightarrow> PendingStandardTransfer" where
  "ti_pending env ti msg block =
     \<lparr>pst_socket_message = msg, pst_asset_index_hash = tokenIDX0 (params msg),
      pst_sequence_id = sequence (req_id msg), pst_src_chain_id = ucast (ti_src_chain_id ti),
      pst_dst_chain_id = dst_chain_id msg, pst_src_tx_id = ti_src_tx_id ti,
      pst_src_block_number = block, pst_msg_hash = o_keccak256 env (ti_socket_message ti)\<rparr>"

text \<open>The loop over the storage listing; the keys seen so far are threaded for the clean-up.\<close>

fun scan_transfers ::
    "OnflightEnv \<Rightarrow> TransferInfo option list \<Rightarrow> OnflightState \<Rightarrow> b256 set
      \<Rightarrow> OnflightState \<times> (onflight_effect, b256 set) eff" where
  "scan_transfers env [] st keys = (st, ret keys)"
| "scan_transfers env (None # items) st keys = (st, lift (Err RpcError))"
| "scan_transfers env (Some ti # items) st keys =
     (let msg_hash = o_keccak256 env (ti_socket_message ti);
          keys' = insert msg_hash keys;
          marked = st\<lparr>processed_transfers := insert msg_hash (processed_transfers st)\<rparr>
      in if msg_hash \<in> processed_transfers st then scan_transfers env items st keys'
         else
           (case decode_socket_message env (ti_socket_message ti) of
              None \<Rightarrow> scan_transfers env items st keys'
            | Some msg \<Rightarrow>
                if ti_option ti = Fast
                then (case scan_transfers env items marked keys' of
                        (st', fs, r) \<Rightarrow>
                          (st', send_to_socket_relay_handler env (ucast (ti_src_chain_id ti))
                                  (dst_chain_id msg) msg (tokenIDX0 (params msg))
                                  (sequence (req_id msg)) @ fs, r))
                else
                  (case get_tx_block_number env (ucast (ti_src_chain_id ti)) (ti_src_tx_id ti) of
                     Some (Some block) \<Rightarrow>
                       scan_transfers env items
                         (marked\<lparr>pending_standard_transfers :=
                            pending_standard_transfers st @ [ti_pending env ti msg block]\<rparr>) keys'
                   | _ \<Rightarrow> scan_transfers env items st keys')))"

definition process_substrate_block ::
    "OnflightEnv \<Rightarrow> OnflightState \<Rightarrow> OnflightState \<times> (onflight_effect, unit) eff" where
  "process_substrate_block env st =
     (case process_pending_standard_transfers env st of
        (st1, fs) \<Rightarrow>
          (case o_storage env of
             None \<Rightarrow> (st1, fs, Err RpcError)
           | Some items \<Rightarrow>
               (case scan_transfers env items st1 {} of
                  (st2, gs, Ok keys) \<Rightarrow>
                    (st2\<lparr>processed_transfers := {h \<in> processed_transfers st2. h \<in> keys}\<rparr>, fs @ gs, Ok ())
                | (st2, gs, Err e) \<Rightarrow> (st2, fs @ gs, Err e)
                | (st2, gs, Panic) \<Rightarrow> (st2, fs @ gs, Panic))))"

fun recover_pending_standard_transfers ::
    "OnflightEnv \<Rightarrow> TransferInfo option list \<Rightarrow> OnflightState \<Rightarrow> OnflightState \<times> unit res" where
  "recover_pending_standard_transfers env [] st = (st, Ok ())"
| "recover_pending_standard_transfers env (None # items) st = (st, Err RpcError)"
| "recover_pending_standard_transfers env (Some ti # items) st =
     (let msg_hash = o_keccak256 env (ti_socket_message ti)
      in if ti_option ti \<noteq> Standard then recover_pending_standard_transfers env items st
         else
           (case decode_socket_message env (ti_socket_message ti) of
              None \<Rightarrow> recover_pending_standard_transfers env items st
            | Some msg \<Rightarrow>
                (case get_tx_block_number env (ucast (ti_src_chain_id ti)) (ti_src_tx_id ti) of
                   Some (Some block) \<Rightarrow>
                     recover_pending_standard_transfers env items
                       (st\<lparr>pending_standard_transfers :=
                             pending_standard_transfers st @ [ti_pending env ti msg block],
                           processed_transfers := insert msg_hash (processed_transfers st)\<rparr>)
                 | _ \<Rightarrow> recover_pending_standard_transfers env items st)))"

text \<open>\<open>bootstrap\<close>, once its wait for the relay phase is over: a failed recovery is logged.\<close>

definition onflight_bootstrap :: "OnflightEnv \<Rightarrow> OnflightState \<Rightarrow> OnflightState" where
  "onflight_bootstrap env st =
     (case o_storage env of
        None \<Rightarrow> st
      | Some items \<Rightarrow> fst (recover_pending_standard_transfers env items st))"

section \<open>The pass as a decision per transfer\<close>

definition transfer_ready :: "OnflightEnv \<Rightarrow> PendingStandardTransfer \<Rightarrow> bool" where
  "transfer_ready env t \<longleftrightarrow> transfer_verdict env t = Some (Valid (Some (pst_src_block_number t)))"

definition transfer_gone :: "OnflightEnv \<Rightarrow> PendingStandardTransfer \<Rightarrow> bool" where
  "transfer_gone env t \<longleftrightarrow> transfer_verdict env t = Some NotFound"

definition decide_transfer ::
    "OnflightEnv \<Rightarrow> PendingStandardTransfer \<Rightarrow> PendingStandardTransfer option" where
  "decide_transfer env t =
     (if transfer_ready env t \<or> transfer_gone env t then None
      else (case transfer_verdict env t of
              Some (Valid (Some b)) \<Rightarrow> Some (t\<lparr>pst_src_block_number := b\<rparr>)
            | _ \<Rightarrow> Some t))"

definition sweep_transfers ::
    "OnflightEnv \<Rightarrow> PendingStandardTransfer list \<Rightarrow> PendingStandardTransfer list" where
  "sweep_transfers env pending =
     pending_standard_transfers (fst (process_pending_standard_transfers env
       \<lparr>pending_standard_transfers = pending, processed_transfers = {}\<rparr>))"

definition transfer_moved :: "OnflightEnv \<Rightarrow> PendingStandardTransfer \<Rightarrow> bool" where
  "transfer_moved env t \<longleftrightarrow>
     (\<exists>b. transfer_verdict env t = Some (Valid (Some b)) \<and> b \<noteq> pst_src_block_number t)"

definition transfer_block :: "OnflightEnv \<Rightarrow> PendingStandardTransfer \<Rightarrow> u64" where
  "transfer_block env t = (case transfer_verdict env t of Some (Valid (Some b)) \<Rightarrow> b | _ \<Rightarrow> 0)"

lemmas transfer_defs = transfer_ready_def transfer_gone_def transfer_moved_def transfer_block_def

lemma fold_mark_transfer:
  "fold (mark_transfer env) (map (\<lambda>i. (i, p ! i)) is) (rm, up, um, pr) =
     (rm @ filter (\<lambda>i. transfer_ready env (p ! i) \<or> transfer_gone env (p ! i)) is,
      up @ map (\<lambda>i. (i, transfer_block env (p ! i))) (filter (\<lambda>i. transfer_moved env (p ! i)) is),
      um @ map (\<lambda>i. pst_msg_hash (p ! i)) (filter (\<lambda>i. transfer_gone env (p ! i)) is),
      pr @ map (\<lambda>i. p ! i) (filter (\<lambda>i. transfer_ready env (p ! i)) is))"
proof (induction "is" arbitrary: rm up um pr)
  case (Cons i "is")
  have "mark_transfer env (i, p ! i) (rm, up, um, pr) =
     (rm @ (if transfer_ready env (p ! i) \<or> transfer_gone env (p ! i) then [i] else []),
      up @ (if transfer_moved env (p ! i) then [(i, transfer_block env (p ! i))] else []),
      um @ (if transfer_gone env (p ! i) then [pst_msg_hash (p ! i)] else []),
      pr @ (if transfer_ready env (p ! i) then [p ! i] else []))"
    by (auto simp: transfer_defs split: option.splits TxVerificationResult.splits)
  with Cons.IH show ?case
    by simp
qed simp

lemma fold_unmark: "fold (\<lambda>h s. s - {h}) hs S = S - set hs"
  by (induction hs arbitrary: S) auto

lemma process_pending_standard_transfers_eq:
  "process_pending_standard_transfers env st =
    (st\<lparr>pending_standard_transfers := List.map_filter (decide_transfer env) (pending_standard_transfers st),
        processed_transfers := processed_transfers st
          - pst_msg_hash ` {t \<in> set (pending_standard_transfers st). transfer_gone env t}\<rparr>,
     concat (map (deliver_transfer env) (filter (transfer_ready env) (pending_standard_transfers st))))"
proof (cases "pending_standard_transfers st = []")
  case True
  then show ?thesis
    by (cases st) (simp add: process_pending_standard_transfers_def List.map_filter_def)
next
  case False
  let ?p = "pending_standard_transfers st"
  let ?upd = "\<lambda>i. if transfer_moved env (?p ! i)
      then (?p ! i)\<lparr>pst_src_block_number := transfer_block env (?p ! i)\<rparr> else ?p ! i"
  have u: "fold (\<lambda>(idx, new_block). get_mut idx (\<lambda>t. t\<lparr>pst_src_block_number := new_block\<rparr>))
      (map (\<lambda>i. (i, transfer_block env (?p ! i))) (filter (\<lambda>i. transfer_moved env (?p ! i)) [0..<length ?p])) ?p
      = map ?upd [0..<length ?p]"
    using fold_get_mut_eq_map [of "\<lambda>i t. t\<lparr>pst_src_block_number := transfer_block env (?p ! i)\<rparr>"
        "\<lambda>i. transfer_moved env (?p ! i)" ?p]
    by (simp add: fold_map comp_def)
  have k: "map ?upd (filter (\<lambda>i. \<not> (transfer_ready env (?p ! i) \<or> transfer_gone env (?p ! i))) [0..<length ?p])
      = List.map_filter (decide_transfer env) ?p"
  proof -
    have "the (decide_transfer env t) =
        (if transfer_moved env t then t\<lparr>pst_src_block_number := transfer_block env t\<rparr> else t)"
      if "\<not> (transfer_ready env t \<or> transfer_gone env t)" for t
      using that by (auto simp: decide_transfer_def transfer_defs split: option.splits TxVerificationResult.splits)
    moreover have "decide_transfer env t \<noteq> None \<longleftrightarrow> \<not> (transfer_ready env t \<or> transfer_gone env t)" for t
      by (auto simp: decide_transfer_def split: option.splits TxVerificationResult.splits)
    ultimately have "List.map_filter (decide_transfer env) ?p =
        map (\<lambda>t. if transfer_moved env t then t\<lparr>pst_src_block_number := transfer_block env t\<rparr> else t)
          (filter (\<lambda>t. \<not> (transfer_ready env t \<or> transfer_gone env t)) ?p)"
      unfolding List.map_filter_def by (intro map_cong filter_cong) auto
    then show ?thesis
      using filter_index_nth
        [of "\<lambda>t. if transfer_moved env t then t\<lparr>pst_src_block_number := transfer_block env t\<rparr> else t" ?p
          "\<lambda>t. \<not> (transfer_ready env t \<or> transfer_gone env t)"]
      by (simp only:)
  qed
  have g: "set (map (\<lambda>i. pst_msg_hash (?p ! i)) (filter (\<lambda>i. transfer_gone env (?p ! i)) [0..<length ?p])) =
      pst_msg_hash ` {t \<in> set ?p. transfer_gone env t}"
    by (simp only: filter_index_nth) auto
  have r: "map (\<lambda>i. ?p ! i) (filter (\<lambda>i. transfer_ready env (?p ! i)) [0..<length ?p])
      = filter (transfer_ready env) ?p"
    using filter_index_nth [of "\<lambda>t. t" ?p "transfer_ready env"] by simp
  show ?thesis
    using False unfolding process_pending_standard_transfers_def enumerate_map fold_mark_transfer
      prod.case Let_def append_Nil u prune_map k fold_unmark g r by simp
qed

lemma sweep_transfers_decides:
  "sweep_transfers env pending = List.map_filter (decide_transfer env) pending"
  by (simp add: sweep_transfers_def process_pending_standard_transfers_eq)

interpretation standard_transfers: pending_pool "sweep_transfers env" "decide_transfer env" for env
  by unfold_locales (rule sweep_transfers_decides)

lemma decide_transfer_hash: "decide_transfer env t = Some t' \<Longrightarrow> pst_msg_hash t' = pst_msg_hash t"
  by (auto simp: decide_transfer_def split: if_splits option.splits TxVerificationResult.splits)

section \<open>The no-duplicates invariant\<close>

abbreviation pending_hashes :: "OnflightState \<Rightarrow> b256 list" where
  "pending_hashes st \<equiv> map pst_msg_hash (pending_standard_transfers st)"

definition onflight_inv :: "OnflightState \<Rightarrow> bool" where
  "onflight_inv st \<longleftrightarrow>
     distinct (pending_hashes st) \<and> set (pending_hashes st) \<subseteq> processed_transfers st"

lemma pass_keeps_inv:
  assumes "onflight_inv st"
  shows "onflight_inv (fst (process_pending_standard_transfers env st))"
proof -
  let ?p = "pending_standard_transfers st"
  have keys: "map pst_msg_hash (List.map_filter (decide_transfer env) ?p) =
      map pst_msg_hash (filter (\<lambda>t. decide_transfer env t \<noteq> None) ?p)"
    using standard_transfers.sweep_keys [of env pst_msg_hash ?p] decide_transfer_hash
    by (simp add: sweep_transfers_decides)
  have "pst_msg_hash t \<noteq> pst_msg_hash t'"
    if "t \<in> set ?p" "decide_transfer env t \<noteq> None" "t' \<in> set ?p" "transfer_gone env t'" for t t'
    using that assms
    by (auto simp: onflight_inv_def decide_transfer_def distinct_map dest: inj_onD)
  then show ?thesis
    using assms
    by (auto simp: onflight_inv_def process_pending_standard_transfers_eq keys distinct_map_filter)
qed

lemma onflight_inv_push:
  "onflight_inv st \<Longrightarrow> pst_msg_hash t \<notin> processed_transfers st \<Longrightarrow>
     onflight_inv (st\<lparr>pending_standard_transfers := pending_standard_transfers st @ [t],
                     processed_transfers := insert (pst_msg_hash t) (processed_transfers st)\<rparr>)"
  by (auto simp: onflight_inv_def)

lemma onflight_inv_mark:
  "onflight_inv st \<Longrightarrow> onflight_inv (st\<lparr>processed_transfers := insert h (processed_transfers st)\<rparr>)"
  by (auto simp: onflight_inv_def)

lemma ti_pending_hash [simp]:
  "pst_msg_hash (ti_pending env ti msg b) = o_keccak256 env (ti_socket_message ti)"
  by (simp add: ti_pending_def)

text \<open>What the loop does with one item of the listing, as one step on the state.\<close>

definition scan_item :: "OnflightEnv \<Rightarrow> TransferInfo \<Rightarrow> OnflightState \<Rightarrow> OnflightState \<times> onflight_effect list" where
  "scan_item env ti st =
     (let msg_hash = o_keccak256 env (ti_socket_message ti);
          marked = st\<lparr>processed_transfers := insert msg_hash (processed_transfers st)\<rparr>
      in if msg_hash \<in> processed_transfers st then (st, [])
         else
           (case decode_socket_message env (ti_socket_message ti) of
              None \<Rightarrow> (st, [])
            | Some msg \<Rightarrow>
                if ti_option ti = Fast
                then (marked, send_to_socket_relay_handler env (ucast (ti_src_chain_id ti))
                                (dst_chain_id msg) msg (tokenIDX0 (params msg)) (sequence (req_id msg)))
                else
                  (case get_tx_block_number env (ucast (ti_src_chain_id ti)) (ti_src_tx_id ti) of
                     Some (Some block) \<Rightarrow>
                       (marked\<lparr>pending_standard_transfers :=
                            pending_standard_transfers st @ [ti_pending env ti msg block]\<rparr>, [])
                   | _ \<Rightarrow> (st, []))))"

lemma scan_transfers_Cons:
  "scan_transfers env (Some ti # items) st keys =
     (case scan_item env ti st of (st1, fs) \<Rightarrow>
        case scan_transfers env items st1 (insert (o_keccak256 env (ti_socket_message ti)) keys) of
          (st2, gs, r) \<Rightarrow> (st2, fs @ gs, r))"
  by (auto simp: scan_item_def Let_def split: option.splits prod.splits)

lemma scan_item_inv: "onflight_inv st \<Longrightarrow> onflight_inv (fst (scan_item env ti st))"
proof -
  assume inv: "onflight_inv st"
  have "onflight_inv (st\<lparr>processed_transfers := insert (o_keccak256 env (ti_socket_message ti)) (processed_transfers st),
      pending_standard_transfers := pending_standard_transfers st @ [ti_pending env ti msg b]\<rparr>)"
    if "o_keccak256 env (ti_socket_message ti) \<notin> processed_transfers st" for msg b
    using inv that by (auto simp: onflight_inv_def)
  then show ?thesis
    using inv onflight_inv_mark [OF inv]
    by (auto simp: scan_item_def Let_def split: option.splits)
qed

lemma scan_keeps_inv:
  "onflight_inv st \<Longrightarrow> onflight_inv (fst (scan_transfers env items st keys))"
proof (induction items arbitrary: st keys)
  case (Cons item items)
  show ?case
  proof (cases item)
    case (Some ti)
    then show ?thesis
      using Cons.IH [OF scan_item_inv [OF Cons.prems]]
      by (auto simp: scan_transfers_Cons split: prod.splits simp del: scan_transfers.simps) (metis fst_conv)
  qed (use Cons.prems in simp)
qed simp

lemma scan_keys:
  "scan_transfers env items st keys = (st', fs, Ok keys') \<Longrightarrow>
     keys' = keys \<union> (\<lambda>ti. o_keccak256 env (ti_socket_message ti)) ` {ti. Some ti \<in> set items}"
proof (induction items arbitrary: st keys fs)
  case (Cons item items)
  then obtain ti where i: "item = Some ti"
    by (cases item) (auto simp: lift_def)
  with Cons.prems obtain st1 fs1 fs2 where "scan_item env ti st = (st1, fs1)"
    "scan_transfers env items st1 (insert (o_keccak256 env (ti_socket_message ti)) keys) = (st', fs2, Ok keys')"
    by (auto simp: scan_transfers_Cons split: prod.splits simp del: scan_transfers.simps)
  from Cons.IH [OF this(2)] i show ?case by auto
qed (simp add: ret_def)

lemma scan_all_processed:
  "(\<And>item. item \<in> set items \<Longrightarrow> \<exists>ti. item = Some ti
      \<and> o_keccak256 env (ti_socket_message ti) \<in> processed_transfers st) \<Longrightarrow>
   \<exists>keys'. scan_transfers env items st keys = (st, [], Ok keys')"
proof (induction items arbitrary: keys)
  case (Cons item items)
  then obtain ti where "item = Some ti" "o_keccak256 env (ti_socket_message ti) \<in> processed_transfers st"
    by (meson list.set_intros(1))
  with Cons show ?case by (auto simp: Let_def)
qed (simp add: ret_def)

lemma scan_item_effects:
  "f \<in> set (snd (scan_item env ti st)) \<Longrightarrow> ti_option ti = Fast
     \<and> o_keccak256 env (ti_socket_message ti) \<notin> processed_transfers st
     \<and> (\<exists>msg. decode_socket_message env (ti_socket_message ti) = Some msg
        \<and> f \<in> set (send_to_socket_relay_handler env (ucast (ti_src_chain_id ti)) (dst_chain_id msg) msg
                     (tokenIDX0 (params msg)) (sequence (req_id msg))))"
  by (auto simp: scan_item_def Let_def split: if_splits option.splits)

lemma scan_item_processed_mono:
  "processed_transfers st \<subseteq> processed_transfers (fst (scan_item env ti st))"
  by (auto simp: scan_item_def Let_def split: option.splits)

lemma scan_item_hashes:
  "h \<in> processed_transfers st \<Longrightarrow> h \<notin> set (pending_hashes st) \<Longrightarrow>
     h \<notin> set (pending_hashes (fst (scan_item env ti st)))"
  by (auto simp: scan_item_def Let_def split: option.splits)

lemma scan_effects:
  assumes "f \<in> set (fst (snd (scan_transfers env items st keys)))"
  shows "\<exists>ti msg. Some ti \<in> set items \<and> ti_option ti = Fast
    \<and> o_keccak256 env (ti_socket_message ti) \<notin> processed_transfers st
    \<and> decode_socket_message env (ti_socket_message ti) = Some msg
    \<and> f \<in> set (send_to_socket_relay_handler env (ucast (ti_src_chain_id ti)) (dst_chain_id msg) msg
                 (tokenIDX0 (params msg)) (sequence (req_id msg)))"
  using assms
proof (induction items arbitrary: st keys)
  case (Cons item items)
  then obtain ti where i: "item = Some ti"
    by (cases item) auto
  obtain st1 fs1 where s: "scan_item env ti st = (st1, fs1)" by fastforce
  with Cons.prems i have "f \<in> set fs1 \<or> f \<in> set (fst (snd (scan_transfers env items st1
      (insert (o_keccak256 env (ti_socket_message ti)) keys))))"
    by (auto simp: scan_transfers_Cons split: prod.splits simp del: scan_transfers.simps)
  then show ?case
  proof
    assume "f \<in> set fs1"
    then show ?thesis
      using scan_item_effects [of f env ti st] s i by auto
  next
    assume "f \<in> set (fst (snd (scan_transfers env items st1
      (insert (o_keccak256 env (ti_socket_message ti)) keys))))"
    from Cons.IH [OF this] obtain ti' msg where ti': "Some ti' \<in> set items" "ti_option ti' = Fast"
      "o_keccak256 env (ti_socket_message ti') \<notin> processed_transfers st1"
      "decode_socket_message env (ti_socket_message ti') = Some msg"
      "f \<in> set (send_to_socket_relay_handler env (ucast (ti_src_chain_id ti')) (dst_chain_id msg) msg
                 (tokenIDX0 (params msg)) (sequence (req_id msg)))"
      by blast
    moreover have "o_keccak256 env (ti_socket_message ti') \<notin> processed_transfers st"
      using ti'(3) scan_item_processed_mono [of st env ti] s by auto
    ultimately show ?thesis by auto
  qed
qed simp

lemma scan_settled:
  "h \<in> processed_transfers st \<Longrightarrow> h \<notin> set (pending_hashes st) \<Longrightarrow>
     h \<in> processed_transfers (fst (scan_transfers env items st keys))
   \<and> h \<notin> set (pending_hashes (fst (scan_transfers env items st keys)))"
proof (induction items arbitrary: st keys)
  case (Cons item items)
  show ?case
  proof (cases item)
    case (Some ti)
    let ?st = "fst (scan_item env ti st)"
    have "h \<in> processed_transfers ?st" "h \<notin> set (pending_hashes ?st)"
      using Cons.prems scan_item_processed_mono [of st env ti] scan_item_hashes [of h st env ti] by auto
    from Cons.IH [OF this, of "insert (o_keccak256 env (ti_socket_message ti)) keys"] Some show ?thesis
      by (auto simp: scan_transfers_Cons split: prod.splits simp del: scan_transfers.simps)
  qed (use Cons.prems in simp)
qed simp

lemma process_substrate_block_cases:
  assumes "process_substrate_block env st = (st', fs, r)"
  obtains (no_storage) "o_storage env = None" "st' = fst (process_pending_standard_transfers env st)"
      "fs = snd (process_pending_standard_transfers env st)" "r \<noteq> Ok ()"
    | (scanned) items st2 gs r2 where "o_storage env = Some items"
      "scan_transfers env items (fst (process_pending_standard_transfers env st)) {} = (st2, gs, r2)"
      "fs = snd (process_pending_standard_transfers env st) @ gs"
      "r = Ok () \<Longrightarrow> \<exists>keys. r2 = Ok keys
         \<and> st' = st2\<lparr>processed_transfers := {h \<in> processed_transfers st2. h \<in> keys}\<rparr>"
      "r \<noteq> Ok () \<Longrightarrow> st' = st2"
  using assms that
  by (cases "process_pending_standard_transfers env st")
    (auto simp: process_substrate_block_def split: option.splits prod.splits res.splits)

section \<open>Properties\<close>

definition ex_transfer_info :: "TransferOption \<Rightarrow> TransferInfo" where
  "ex_transfer_info opt = \<lparr>ti_socket_message = [1], ti_src_chain_id = 1, ti_src_tx_id = 77, ti_option = opt\<rparr>"

definition ex_onflight_env :: "TransferOption \<Rightarrow> OnflightEnv" where
  "ex_onflight_env opt =
     \<lparr>o_bifrost_client = ex_client 3068 True, o_system_clients = ex_clients,
      o_keccak256 = (\<lambda>bs. of_nat (length bs)),
      o_abi_decode = (\<lambda>_. Some ((1, 5, 42), 1, (3068, 0), (99, 0, 14, 8, 1000, [1]))),
      o_senders = (\<lambda>_. Some True), o_block_number = (\<lambda>_. Some 100),
      o_receipt = (\<lambda>_ _. Some (Some (Some 90))),
      o_storage = Some [Some (ex_transfer_info opt)]\<rparr>"

definition ex_transfer :: PendingStandardTransfer where
  "ex_transfer = ti_pending (ex_onflight_env Standard) (ex_transfer_info Standard) (ex_message 1) 90"

definition ex_onflight_state :: OnflightState where
  "ex_onflight_state = \<lparr>pending_standard_transfers = [ex_transfer], processed_transfers = {1}\<rparr>"

lemmas ex_onflight_simps = ex_transfer_info_def ex_onflight_env_def ti_pending_def ex_transfer_def
  ex_onflight_state_def

lemma ex_decode [simp]: "decode_socket_message (ex_onflight_env opt) bs = Some (ex_message 1)"
  by (simp add: decode_socket_message_def ex_onflight_env_def ex_message_def)

text \<open>
  C6: The pass over standard transfers is a decision per transfer. It hands over exactly the
  transfers whose source transaction has the source chain's confirmations and is still included
  in the block it was recorded for, in order; it drops those and the ones whose transaction
  vanished, un-marking the latter so that they can come back, re-dates the moved ones, and keeps
  the rest.
\<close>

theorem standard_transfer_pass:
  "process_pending_standard_transfers env st =
    (st\<lparr>pending_standard_transfers := List.map_filter (decide_transfer env) (pending_standard_transfers st),
        processed_transfers := processed_transfers st
          - pst_msg_hash ` {t \<in> set (pending_standard_transfers st).
              transfer_verdict env t = Some NotFound}\<rparr>,
     concat (map (deliver_transfer env)
       (filter (\<lambda>t. transfer_verdict env t = Some (Valid (Some (pst_src_block_number t))))
         (pending_standard_transfers st))))"
  unfolding process_pending_standard_transfers_eq transfer_gone_def transfer_ready_def ..

text \<open>
  C7: Delivery is justified. Every message a block hands to a relay handler belongs to a standard
  transfer whose source transaction was verified at its recorded block with enough
  confirmations, or to a fast transfer that the queue lists and that was not handled before.
\<close>

theorem onflight_delivery_sound:
  assumes "process_substrate_block env st = (st', fs, r)" and "f \<in> set fs"
  shows "(\<exists>t \<in> set (pending_standard_transfers st). \<exists>current.
        get_src_chain_block_number env (pst_src_chain_id t) = Some current
        \<and> unat (get_block_confirmations env (pst_src_chain_id t)) \<le> unat current - unat (pst_src_block_number t)
        \<and> verify_src_transaction env (pst_src_chain_id t) (pst_src_tx_id t)
            = Some (Valid (Some (pst_src_block_number t)))
        \<and> f \<in> set (deliver_transfer env t))
    \<or> (\<exists>items ti msg. o_storage env = Some items \<and> Some ti \<in> set items \<and> ti_option ti = Fast
        \<and> decode_socket_message env (ti_socket_message ti) = Some msg
        \<and> o_keccak256 env (ti_socket_message ti) \<notin>
            processed_transfers (fst (process_pending_standard_transfers env st))
        \<and> f \<in> set (send_to_socket_relay_handler env (ucast (ti_src_chain_id ti)) (dst_chain_id msg) msg
                 (tokenIDX0 (params msg)) (sequence (req_id msg))))"
proof -
  have pass: "\<exists>t \<in> set (pending_standard_transfers st). \<exists>current.
        get_src_chain_block_number env (pst_src_chain_id t) = Some current
        \<and> unat (get_block_confirmations env (pst_src_chain_id t)) \<le> unat current - unat (pst_src_block_number t)
        \<and> verify_src_transaction env (pst_src_chain_id t) (pst_src_tx_id t)
            = Some (Valid (Some (pst_src_block_number t)))
        \<and> f \<in> set (deliver_transfer env t)"
    if "f \<in> set (snd (process_pending_standard_transfers env st))"
    using that
    by (auto simp: process_pending_standard_transfers_eq transfer_ready_def transfer_verdict_def
        word_le_nat_alt split: option.splits if_splits)
  from assms(1) show ?thesis
  proof (cases rule: process_substrate_block_cases)
    case no_storage
    with assms(2) pass show ?thesis by blast
  next
    case (scanned items st2 gs r2)
    with assms(2) consider "f \<in> set (snd (process_pending_standard_transfers env st))" | "f \<in> set gs"
      by auto
    then show ?thesis
    proof cases
      case 1
      with pass show ?thesis by blast
    next
      case 2
      then show ?thesis
        using scan_effects [of f env items "fst (process_pending_standard_transfers env st)" "{}"] scanned(1,2)
        by auto
    qed
  qed
qed

lemma ex_verdict:
  "transfer_verdict (ex_onflight_env opt) ex_transfer = Some (Valid (Some 90))"
  "deliver_transfer (ex_onflight_env opt) ex_transfer =
     [SendOnflight 3068 \<lparr>om_socket_message = ex_message 1, om_asset_index_hash = 99, om_sequence_id = 42\<rparr>]"
  by (simp_all add: transfer_verdict_def get_src_chain_block_number_def src_client_def get_block_confirmations_def
      verify_src_transaction_def deliver_transfer_def send_to_socket_relay_handler_def ex_onflight_simps
      ex_client_def ex_metadata_def ex_clients_def get_bitcoin_chain_id_def client_chain_id_def
      saturating_sub_def Let_def dst_chain_id_def ex_message_def)

lemma ex_onflight_pass:
  "process_pending_standard_transfers (ex_onflight_env opt) ex_onflight_state =
     (\<lparr>pending_standard_transfers = [], processed_transfers = {1}\<rparr>,
      [SendOnflight 3068 \<lparr>om_socket_message = ex_message 1, om_asset_index_hash = 99, om_sequence_id = 42\<rparr>])"
proof -
  have b: "pst_src_block_number ex_transfer = 90"
    by (simp add: ex_onflight_simps)
  have p: "pending_standard_transfers ex_onflight_state = [ex_transfer]" "processed_transfers ex_onflight_state = {1}"
    by (simp_all add: ex_onflight_state_def)
  show ?thesis
    unfolding process_pending_standard_transfers_eq p
    by (auto simp: List.map_filter_def decide_transfer_def transfer_ready_def transfer_gone_def ex_verdict b
        ex_onflight_state_def)
qed

theorem onflight_delivery_sound_witness:
  "\<exists>t \<in> set (pending_standard_transfers ex_onflight_state).
     verify_src_transaction (ex_onflight_env Standard) (pst_src_chain_id t) (pst_src_tx_id t)
       = Some (Valid (Some (pst_src_block_number t)))"
proof -
  have "process_substrate_block (ex_onflight_env Standard) ex_onflight_state =
    (\<lparr>pending_standard_transfers = [], processed_transfers = {1}\<rparr>,
      [SendOnflight 3068 \<lparr>om_socket_message = ex_message 1, om_asset_index_hash = 99, om_sequence_id = 42\<rparr>], Ok ())"
    by (simp add: process_substrate_block_def ex_onflight_pass)
      (simp add: ex_onflight_env_def ex_transfer_info_def ret_def Let_def)
  from onflight_delivery_sound [OF this, of "SendOnflight 3068
      \<lparr>om_socket_message = ex_message 1, om_asset_index_hash = 99, om_sequence_id = 42\<rparr>"]
  show ?thesis
    by (auto simp: ex_onflight_pass) (auto simp: ex_onflight_env_def ex_transfer_info_def)
qed

text \<open>
  No transfer is held or handed over twice. As long as every held transfer stays listed in
  the queue, a block keeps the held transfers pairwise different and marked as handled.
\<close>

theorem onflight_no_duplicates:
  assumes "onflight_inv st" and "process_substrate_block env st = (st', fs, r)"
    and "o_storage env = Some items"
    and "\<And>t. t \<in> set (pending_standard_transfers st') \<Longrightarrow>
      \<exists>ti. Some ti \<in> set items \<and> o_keccak256 env (ti_socket_message ti) = pst_msg_hash t"
  shows "distinct (map pst_msg_hash (pending_standard_transfers st'))
    \<and> pst_msg_hash ` set (pending_standard_transfers st') \<subseteq> processed_transfers st'"
  using assms(2)
proof (cases rule: process_substrate_block_cases)
  case (scanned items' st2 gs r2)
  have inv: "onflight_inv st2"
    using scan_keeps_inv [OF pass_keeps_inv [OF assms(1), of env], of env items' "{}"] scanned(2) by simp
  show ?thesis
  proof (cases "r = Ok ()")
    case True
    then obtain keys where k: "r2 = Ok keys"
      "st' = st2\<lparr>processed_transfers := {h \<in> processed_transfers st2. h \<in> keys}\<rparr>"
      using scanned(4) by blast
    have "pst_msg_hash t \<in> keys" if "t \<in> set (pending_standard_transfers st')" for t
      using assms(3,4) that scanned(1) scan_keys [of env items' _ "{}" st2 gs keys] scanned(2) k(1) by force
    then show ?thesis
      using inv k(2) by (auto simp: onflight_inv_def)
  next
    case False
    then show ?thesis
      using inv scanned(5) by (auto simp: onflight_inv_def)
  qed
qed (use assms(3) in simp)

theorem onflight_no_duplicates_witness:
  "\<exists>st' fs r. process_substrate_block ((ex_onflight_env Standard)\<lparr>o_block_number := (\<lambda>_. Some 92)\<rparr>) ex_onflight_state
      = (st', fs, r)
    \<and> distinct (map pst_msg_hash (pending_standard_transfers st')) \<and> length (pending_standard_transfers st') = 1"
proof -
  let ?env = "(ex_onflight_env Standard)\<lparr>o_block_number := (\<lambda>_. Some 92)\<rparr>"
  have v: "transfer_verdict ?env ex_transfer = None"
    by (simp add: transfer_verdict_def get_src_chain_block_number_def src_client_def get_block_confirmations_def
      ex_onflight_simps ex_client_def ex_metadata_def ex_clients_def get_bitcoin_chain_id_def client_chain_id_def
      saturating_sub_def)
  have p: "process_pending_standard_transfers ?env ex_onflight_state = (ex_onflight_state, [])"
    by (auto simp: process_pending_standard_transfers_eq ex_onflight_state_def List.map_filter_def decide_transfer_def
        transfer_ready_def transfer_gone_def v)
  have b: "process_substrate_block ?env ex_onflight_state = (ex_onflight_state, [], Ok ())"
    by (simp add: process_substrate_block_def p)
      (simp add: ex_onflight_env_def ex_transfer_info_def ret_def Let_def ex_onflight_state_def)
  have "onflight_inv ex_onflight_state"
    by (simp add: onflight_inv_def ex_onflight_simps)
  from onflight_no_duplicates [OF this b, of "[Some (ex_transfer_info Standard)]"]
  have "distinct (map pst_msg_hash (pending_standard_transfers ex_onflight_state))"
    by (auto simp: ex_onflight_simps)
  with b show ?thesis
    by (auto simp: ex_onflight_state_def)
qed

text \<open>
  A handed-over transfer stays settled. Once a transfer is marked as handled and no longer
  held, a block that still lists it keeps it so, and everything the block hands over belongs to
  other transfers.
\<close>

theorem onflight_settled_stable:
  assumes "h \<in> processed_transfers st" and "h \<notin> pst_msg_hash ` set (pending_standard_transfers st)"
    and "process_substrate_block env st = (st', fs, r)"
    and "o_storage env = Some items" and "Some ti \<in> set items" and "o_keccak256 env (ti_socket_message ti) = h"
  shows "h \<in> processed_transfers st' \<and> h \<notin> pst_msg_hash ` set (pending_standard_transfers st')
    \<and> (\<forall>f \<in> set fs.
        (\<exists>t \<in> set (pending_standard_transfers st). pst_msg_hash t \<noteq> h \<and> f \<in> set (deliver_transfer env t))
      \<or> (\<exists>ti'. Some ti' \<in> set items \<and> o_keccak256 env (ti_socket_message ti') \<noteq> h))"
proof -
  let ?st1 = "fst (process_pending_standard_transfers env st)"
  have st1: "h \<in> processed_transfers ?st1" "h \<notin> set (pending_hashes ?st1)"
    using assms(1,2) standard_transfers.sweep_key_set [of env pst_msg_hash "pending_standard_transfers st"]
      decide_transfer_hash
    by (auto simp: process_pending_standard_transfers_eq sweep_transfers_decides)
  from assms(3) show ?thesis
  proof (cases rule: process_substrate_block_cases)
    case (scanned items' st2 gs r2)
    have st2: "h \<in> processed_transfers st2" "h \<notin> set (pending_hashes st2)"
      using scan_settled [OF st1, of env items' "{}"] scanned(2) by simp_all
    have "h \<in> processed_transfers st' \<and> h \<notin> set (pending_hashes st')"
    proof (cases "r = Ok ()")
      case True
      then obtain keys where k: "r2 = Ok keys"
        "st' = st2\<lparr>processed_transfers := {h \<in> processed_transfers st2. h \<in> keys}\<rparr>"
        using scanned(4) by blast
      have "h \<in> keys"
        using scan_keys [of env items' _ "{}" st2 gs keys] scanned(1,2) k(1) assms(4-6) by force
      with st2 k(2) show ?thesis by simp
    qed (use st2 scanned(5) in auto)
    moreover have "(\<exists>t \<in> set (pending_standard_transfers st). pst_msg_hash t \<noteq> h \<and> f \<in> set (deliver_transfer env t))
        \<or> (\<exists>ti'. Some ti' \<in> set items \<and> o_keccak256 env (ti_socket_message ti') \<noteq> h)" if "f \<in> set fs" for f
    proof (cases "f \<in> set gs")
      case True
      with scan_effects [of f env items' ?st1 "{}"] scanned(1,2) st1(1) assms(4) show ?thesis
        by force
    next
      case False
      with that scanned(3) assms(2) show ?thesis
        by (auto simp: process_pending_standard_transfers_eq)
    qed
    ultimately show ?thesis by auto
  qed (use assms(4) in simp)
qed

theorem onflight_settled_stable_witness:
  "\<exists>st' fs r. process_substrate_block (ex_onflight_env Standard)
       \<lparr>pending_standard_transfers = [], processed_transfers = {1}\<rparr> = (st', fs, r)
     \<and> 1 \<in> processed_transfers st'"
proof -
  let ?st = "\<lparr>pending_standard_transfers = [], processed_transfers = {1}\<rparr> :: OnflightState"
  obtain st' fs r where b: "process_substrate_block (ex_onflight_env Standard) ?st = (st', fs, r)"
    by (metis prod_cases3)
  have "1 \<in> processed_transfers st'"
    using onflight_settled_stable [OF _ _ b, of 1 "[Some (ex_transfer_info Standard)]" "ex_transfer_info Standard"]
    by (simp add: ex_onflight_env_def ex_transfer_info_def)
  with b show ?thesis by blast
qed

text \<open>
  A restart holds a transfer twice. Recovery runs at every start of the handler's loop and
  does not look at what is already held: when it meets a standard transfer that is held from
  before, the transfer is held twice afterwards, and both copies will be handed over.
\<close>

theorem restart_duplicates:
  assumes "t \<in> set (pending_standard_transfers st)" and "o_storage env = Some [Some ti]"
    and "pst_msg_hash t = o_keccak256 env (ti_socket_message ti)" and "ti_option ti = Standard"
    and "decode_socket_message env (ti_socket_message ti) = Some msg"
    and "get_tx_block_number env (ucast (ti_src_chain_id ti)) (ti_src_tx_id ti) = Some (Some b)"
  shows "\<not> distinct (map pst_msg_hash (pending_standard_transfers (onflight_bootstrap env st)))"
  using assms by (auto simp: onflight_bootstrap_def Let_def ti_pending_def intro: rev_image_eqI)

theorem restart_duplicates_witness:
  "onflight_inv ex_onflight_state
   \<and> \<not> distinct (map pst_msg_hash (pending_standard_transfers
         (onflight_bootstrap (ex_onflight_env Standard) ex_onflight_state)))"
proof -
  have "onflight_inv ex_onflight_state"
    by (simp add: onflight_inv_def ex_onflight_simps)
  moreover have "get_tx_block_number (ex_onflight_env Standard) (ucast (ti_src_chain_id (ex_transfer_info Standard)))
      (ti_src_tx_id (ex_transfer_info Standard)) = Some (Some 90)"
    by (simp add: get_tx_block_number_def src_client_def ex_onflight_simps ex_clients_def ex_client_def
        ex_metadata_def get_bitcoin_chain_id_def)
  ultimately show ?thesis
    using restart_duplicates [of ex_transfer ex_onflight_state "ex_onflight_env Standard"
        "ex_transfer_info Standard" "ex_message 1" 90]
    by (auto simp: ex_onflight_state_def) (auto simp: ex_onflight_simps)
qed

text \<open>
  Recovery at the first start is exact. From the empty state, and with the pairwise different
  hashes that a storage map lists, recovery holds exactly the standard transfers that decode and
  whose source transaction is found, in listing order, and establishes the invariant.
\<close>

theorem recovery_exact:
  assumes "o_storage env = Some (map Some tis)"
    and "distinct (map (\<lambda>ti. o_keccak256 env (ti_socket_message ti)) tis)"
  shows "onflight_inv (onflight_bootstrap env \<lparr>pending_standard_transfers = [], processed_transfers = {}\<rparr>)
    \<and> map pst_msg_hash (pending_standard_transfers
        (onflight_bootstrap env \<lparr>pending_standard_transfers = [], processed_transfers = {}\<rparr>))
      = map (\<lambda>ti. o_keccak256 env (ti_socket_message ti))
          (filter (\<lambda>ti. ti_option ti = Standard \<and> decode_socket_message env (ti_socket_message ti) \<noteq> None
             \<and> (\<exists>b. get_tx_block_number env (ucast (ti_src_chain_id ti)) (ti_src_tx_id ti) = Some (Some b))) tis)"
proof -
  let ?h = "\<lambda>ti. o_keccak256 env (ti_socket_message ti)"
  let ?ok = "\<lambda>ti. ti_option ti = Standard \<and> decode_socket_message env (ti_socket_message ti) \<noteq> None
             \<and> (\<exists>b. get_tx_block_number env (ucast (ti_src_chain_id ti)) (ti_src_tx_id ti) = Some (Some b))"
  have "map pst_msg_hash (pending_standard_transfers (fst (recover_pending_standard_transfers env (map Some ts) st)))
        = pending_hashes st @ map ?h (filter ?ok ts)
      \<and> processed_transfers (fst (recover_pending_standard_transfers env (map Some ts) st))
        = processed_transfers st \<union> ?h ` {ti \<in> set ts. ?ok ti}" for ts st
  proof (induction ts arbitrary: st)
    case (Cons ti ts)
    then show ?case
      by (auto simp: Let_def split: option.splits)
  qed simp
  from this [of tis "\<lparr>pending_standard_transfers = [], processed_transfers = {}\<rparr>"] assms show ?thesis
    by (auto simp: onflight_bootstrap_def onflight_inv_def distinct_map_filter)
qed

theorem recovery_exact_witness:
  "length (pending_standard_transfers (onflight_bootstrap (ex_onflight_env Standard)
     \<lparr>pending_standard_transfers = [], processed_transfers = {}\<rparr>)) = 1"
proof -
  have "get_tx_block_number (ex_onflight_env Standard) (ucast (ti_src_chain_id (ex_transfer_info Standard)))
      (ti_src_tx_id (ex_transfer_info Standard)) = Some (Some 90)"
    by (simp add: get_tx_block_number_def src_client_def ex_onflight_simps ex_clients_def ex_client_def
        ex_metadata_def get_bitcoin_chain_id_def)
  moreover have "o_storage (ex_onflight_env Standard) = Some (map Some [ex_transfer_info Standard])"
    by (simp add: ex_onflight_env_def)
  moreover have "ti_option (ex_transfer_info Standard) = Standard"
    by (simp add: ex_transfer_info_def)
  ultimately have "map pst_msg_hash (pending_standard_transfers (onflight_bootstrap (ex_onflight_env Standard)
     \<lparr>pending_standard_transfers = [], processed_transfers = {}\<rparr>)) =
       [o_keccak256 (ex_onflight_env Standard) (ti_socket_message (ex_transfer_info Standard))]"
    using recovery_exact [of "ex_onflight_env Standard" "[ex_transfer_info Standard]"] by simp
  then show ?thesis
    by (metis length_map length_Cons list.size(3) One_nat_def)
qed

end
