(* ===== verification/Rollback_Emitter.thy ===== *)
theory Rollback_Emitter
  imports Socket_Pending
begin

text \<open>
  The rollback emitter of one chain (\<open>periodic/src/socket_rollback_emitter.rs\<close>): it keeps the
  messages the relay handler stored for it and, when one has not been executed on its
  destination within the waiting period, sends the transaction that rolls it back.
\<close>

section \<open>State and surroundings\<close>

record RollbackableMessage =
  timeout_started_at :: u64
  socket_msg :: Socket_Message

text \<open>\<open>rollback_msgs\<close>, a map ordered by the sequence number, as its list of entries.\<close>

type_synonym rollback_msgs = "(u128 \<times> RollbackableMessage) list"

text \<open>
  \<open>rb_system_clients\<close> lists the clients by chain identifier, in order. \<open>rb_request\<close> is the first
  status field of a request on a chain; \<open>rb_latest_timestamp\<close> the timestamp of the chain's head
  (\<open>None\<close> when the node does not have the block).
\<close>

record RollbackEnv =
  rb_client :: EthClient
  rb_system_clients :: "(chain_id \<times> EthClient) list"
  rb_request :: "chain_id \<Rightarrow> RequestID \<Rightarrow> u8 res"
  rb_get_signatures :: "RequestID \<Rightarrow> u8 \<Rightarrow> Signatures res"
  rb_abi_encode_msg :: "Socket_Message \<Rightarrow> bytes"
  rb_recover :: "bytes \<Rightarrow> Signature \<Rightarrow> address res"
  rb_latest_timestamp :: "u64 option res"

definition ROLLBACK_CHECK_MINIMUM_INTERVAL :: u64 where
  "ROLLBACK_CHECK_MINIMUM_INTERVAL = 3 * 60"

section \<open>Operations\<close>

definition get_socket_request :: "RollbackEnv \<Rightarrow> RequestID \<Rightarrow> chain_id \<Rightarrow> u8 option res" where
  "get_socket_request env rid chain =
     (case map_of (rb_system_clients env) chain of
        Some _ \<Rightarrow> bind_res (rb_request env chain rid) (\<lambda>r. Ok (Some r))
      | None \<Rightarrow> Ok None)"

definition rb_is_inbound_sequence :: "RollbackEnv \<Rightarrow> chain_id \<Rightarrow> bool" where
  "rb_is_inbound_sequence env dst =
     (case map_of (rb_system_clients env) dst of
        Some client \<Rightarrow> if_destination_chain (metadata client) = Inbound
      | None \<Rightarrow> False)"

definition is_request_executed :: "RollbackEnv \<Rightarrow> Socket_Message \<Rightarrow> bool res" where
  "is_request_executed env msg =
     bind_res (get_socket_request env (req_id msg) (src_chain_id msg)) (\<lambda>src_request.
     bind_res (get_socket_request env (req_id msg) (dst_chain_id msg)) (\<lambda>dst_request.
       case (src_request, dst_request) of
         (Some src_field, Some dst_field) \<Rightarrow>
           bind_res (socket_status_from_u8 src_field) (\<lambda>src_status.
           bind_res (socket_status_from_u8 dst_field) (\<lambda>dst_status.
             if src_status = Committed \<or> src_status = Rollbacked then Ok True
             else if rb_is_inbound_sequence env (dst_chain_id msg)
             then Ok (dst_status \<in> {Executed, Reverted, Accepted, Rejected})
             else Ok (dst_status \<in> {Executed, Reverted})))
       | _ \<Rightarrow> Ok False))"

definition is_request_timeout :: "u64 \<Rightarrow> u64 \<Rightarrow> bool" where
  "is_request_timeout started current =
     (ROLLBACK_CHECK_MINIMUM_INTERVAL \<le> saturating_sub current started)"

text \<open>\<open>get_client\<close> of the builder: the first native client, or a panic.\<close>

definition rb_native_client :: "RollbackEnv \<Rightarrow> EthClient res" where
  "rb_native_client env =
     (case List.find (\<lambda>(_, client). is_native (metadata client)) (rb_system_clients env) of
        Some (_, client) \<Rightarrow> Ok client
      | None \<Rightarrow> Panic)"

definition rb_get_sorted_signatures :: "RollbackEnv \<Rightarrow> Socket_Message \<Rightarrow> Signatures res" where
  "rb_get_sorted_signatures env msg =
     bind_res (rb_native_client env) (\<lambda>_.
     bind_res (rb_get_signatures env (req_id msg) (msg_status msg))
       (sort_by_signer (rb_recover env (rb_abi_encode_msg env msg))))"

definition rollback_metadata :: "bool \<Rightarrow> SocketEventStatus \<Rightarrow> Socket_Message \<Rightarrow> RollbackMetadata" where
  "rollback_metadata is_inbound status msg =
     \<lparr>rbm_is_inbound = is_inbound, rbm_status = status, rbm_sequence = sequence (req_id msg),
      rbm_src_chain_id = src_chain_id msg, rbm_dst_chain_id = dst_chain_id msg\<rparr>"

definition try_rollback_inbound :: "RollbackEnv \<Rightarrow> Socket_Message \<Rightarrow> (effect, unit) eff" where
  "try_rollback_inbound env msg =
     bind_eff (lift (rb_native_client env)) (\<lambda>native.
       send_transaction (rb_client env)
         (build_poll_request (socket (protocol_contracts native)) (set_status Failed msg) signatures_default)
         (Rollback (rollback_metadata True Failed msg)))"

definition try_rollback_outbound :: "RollbackEnv \<Rightarrow> Socket_Message \<Rightarrow> (effect, unit) eff" where
  "try_rollback_outbound env msg =
     bind_eff (lift (rb_get_sorted_signatures env msg)) (\<lambda>sigs.
       send_transaction (rb_client env)
         (build_poll_request (socket (protocol_contracts (rb_client env))) (set_status Rejected msg) sigs)
         (Rollback (rollback_metadata False Rejected msg)))"

definition try_rollback :: "RollbackEnv \<Rightarrow> Socket_Message \<Rightarrow> (effect, unit) eff" where
  "try_rollback env msg =
     bind_eff (lift (socket_status_from_u8 (msg_status msg))) (\<lambda>status.
       case status of
         Requested \<Rightarrow> try_rollback_inbound env msg
       | Accepted \<Rightarrow> try_rollback_outbound env msg
       | _ \<Rightarrow> lift Panic)"

text \<open>The messages waiting in the channel are taken in order.\<close>

fun receive :: "RollbackEnv \<Rightarrow> u64 \<Rightarrow> Socket_Message list \<Rightarrow> rollback_msgs \<Rightarrow> rollback_msgs" where
  "receive env now [] msgs = msgs"
| "receive env now (msg # queue) msgs =
     (if (case get_bitcoin_chain_id (rb_client env) of
            Some btc \<Rightarrow> src_chain_id msg = btc \<or> dst_chain_id msg = btc
          | None \<Rightarrow> False)
      then receive env now queue msgs
      else if map_of msgs (sequence (req_id msg)) \<noteq> None then receive env now queue msgs
      else receive env now queue
             (insort_key fst (sequence (req_id msg), \<lparr>timeout_started_at = now, socket_msg = msg\<rparr>) msgs))"

fun check_msgs :: "RollbackEnv \<Rightarrow> u64 \<Rightarrow> rollback_msgs \<Rightarrow> u128 list \<Rightarrow> (effect, u128 list) eff" where
  "check_msgs env now [] handled = ret handled"
| "check_msgs env now ((rid, m) # rest) handled =
     bind_eff (lift (is_request_executed env (socket_msg m))) (\<lambda>executed.
       if executed then check_msgs env now rest (handled @ [rid])
       else if \<not> is_request_timeout (timeout_started_at m) now then check_msgs env now rest handled
       else bind_eff (try_rollback env (socket_msg m)) (\<lambda>_.
              check_msgs env now rest (handled @ [rid])))"

text \<open>One turn of the loop of \<open>run\<close>; an error ends the run, with the messages received so far kept.\<close>

definition rollback_tick ::
    "RollbackEnv \<Rightarrow> Socket_Message list \<Rightarrow> rollback_msgs \<Rightarrow> rollback_msgs \<times> (effect, unit) eff" where
  "rollback_tick env queue msgs =
     (case rb_latest_timestamp env of
        Ok None \<Rightarrow> (msgs, ret ())
      | Ok (Some now) \<Rightarrow>
          (let received = receive env now queue msgs
           in case check_msgs env now received [] of
                (fs, Ok handled) \<Rightarrow> (filter (\<lambda>(rid, _). rid \<notin> set handled) received, fs, Ok ())
              | (fs, Err e) \<Rightarrow> (received, fs, Err e)
              | (fs, Panic) \<Rightarrow> (received, fs, Panic))
      | Err e \<Rightarrow> (msgs, lift (Err e))
      | Panic \<Rightarrow> (msgs, lift Panic))"

section \<open>Lemmas\<close>

lemma try_rollback_mem:
  assumes "f \<in> set (fst (try_rollback env msg))"
  shows "(\<exists>native. msg_status msg = 1 \<and> rb_native_client env = Ok native
      \<and> f = SendTx (client_chain_id (rb_client env))
            (build_poll_request (socket (protocol_contracts native)) (set_status Failed msg) signatures_default)
            (Rollback (rollback_metadata True Failed msg)))
    \<or> (\<exists>sigs. msg_status msg = 5 \<and> rb_get_sorted_signatures env msg = Ok sigs
      \<and> f = SendTx (client_chain_id (rb_client env))
            (build_poll_request (socket (protocol_contracts (rb_client env))) (set_status Rejected msg) sigs)
            (Rollback (rollback_metadata False Rejected msg)))"
proof -
  obtain status where s: "socket_status_from_u8 (msg_status msg) = Ok status"
    and f: "f \<in> set (fst (case status of Requested \<Rightarrow> try_rollback_inbound env msg
         | Accepted \<Rightarrow> try_rollback_outbound env msg | _ \<Rightarrow> lift Panic))"
    using assms by (auto simp: try_rollback_def fst_bind_eff_mem)
  from f s show ?thesis
    by (cases status) (auto simp: try_rollback_inbound_def try_rollback_outbound_def fst_bind_eff_mem
        socket_code.decodes_iff)
qed

lemma check_msgs_mem:
  "f \<in> set (fst (check_msgs env now msgs handled)) \<Longrightarrow>
     \<exists>(rid, m) \<in> set msgs. is_request_executed env (socket_msg m) = Ok False
       \<and> is_request_timeout (timeout_started_at m) now \<and> f \<in> set (fst (try_rollback env (socket_msg m)))"
proof (induction msgs arbitrary: handled)
  case (Cons e msgs)
  obtain rid m where e: "e = (rid, m)" by fastforce
  from Cons.prems e consider
      "is_request_executed env (socket_msg m) = Ok False" "is_request_timeout (timeout_started_at m) now"
      "f \<in> set (fst (try_rollback env (socket_msg m)))"
    | h where "f \<in> set (fst (check_msgs env now msgs h))"
    by (auto simp: fst_bind_eff_mem split: if_splits)
  then show ?case
  proof cases
    case 1
    with e show ?thesis by auto
  next
    case 2
    from Cons.IH [OF this] show ?thesis by auto
  qed
qed simp

definition settles :: "RollbackEnv \<Rightarrow> u64 \<Rightarrow> RollbackableMessage \<Rightarrow> bool" where
  "settles env now m \<longleftrightarrow>
     is_request_executed env (socket_msg m) = Ok True \<or> is_request_timeout (timeout_started_at m) now"

lemma check_msgs_Ok:
  "check_msgs env now msgs handled = (fs, Ok handled') \<Longrightarrow>
     handled' = handled @ map fst (filter (\<lambda>(_, m). settles env now m) msgs)"
proof (induction msgs arbitrary: handled fs)
  case (Cons e msgs)
  obtain rid m where e: "e = (rid, m)" by fastforce
  obtain executed where x: "is_request_executed env (socket_msg m) = Ok executed"
    using Cons.prems e by (cases "is_request_executed env (socket_msg m)") auto
  show ?case
  proof (cases "executed \<or> \<not> is_request_timeout (timeout_started_at m) now")
    case True
    with Cons.prems x e
    have "check_msgs env now msgs (if executed then handled @ [rid] else handled) = (fs, Ok handled')"
      by (auto split: if_splits)
    from Cons.IH [OF this] True x e show ?thesis
      by (auto simp: settles_def)
  next
    case False
    with Cons.prems x e have "bind_eff (try_rollback env (socket_msg m)) (\<lambda>_.
        check_msgs env now msgs (handled @ [rid])) = (fs, Ok handled')"
      by simp
    then obtain gs where "check_msgs env now msgs (handled @ [rid]) = (gs, Ok handled')"
      by (rule bind_eff_OkE)
    from Cons.IH [OF this] False x e show ?thesis
      by (simp add: settles_def)
  qed
qed (simp add: ret_def)

definition rollback_inv :: "RollbackEnv \<Rightarrow> rollback_msgs \<Rightarrow> bool" where
  "rollback_inv env msgs \<longleftrightarrow> sorted (map fst msgs) \<and> distinct (map fst msgs)
     \<and> (\<forall>(rid, m) \<in> set msgs. rid = sequence (req_id (socket_msg m))
          \<and> get_bitcoin_chain_id (rb_client env) \<noteq> Some (src_chain_id (socket_msg m))
          \<and> get_bitcoin_chain_id (rb_client env) \<noteq> Some (dst_chain_id (socket_msg m)))"

lemma map_fst_insort: "map fst (insort_key fst x xs) = insort (fst x) (map fst xs)"
  by (induction xs) auto

lemma rollback_inv_insert:
  assumes "rollback_inv env msgs"
    and "\<not> (case get_bitcoin_chain_id (rb_client env) of
            Some btc \<Rightarrow> src_chain_id msg = btc \<or> dst_chain_id msg = btc | None \<Rightarrow> False)"
    and "map_of msgs (sequence (req_id msg)) = None"
  shows "rollback_inv env (insort_key fst
      (sequence (req_id msg), \<lparr>timeout_started_at = now, socket_msg = msg\<rparr>) msgs)"
  using assms unfolding rollback_inv_def map_fst_insort fst_conv set_insort_key
  by (auto simp: sorted_insort distinct_insort map_of_eq_None_iff split: option.splits)

lemma receive_inv: "rollback_inv env msgs \<Longrightarrow> rollback_inv env (receive env now queue msgs)"
proof (induction queue arbitrary: msgs)
  case (Cons msg queue)
  then show ?case
    using rollback_inv_insert [OF Cons.prems, of msg now] by simp
qed simp

lemma receive_keeps: "set msgs \<subseteq> set (receive env now queue msgs)"
proof (induction queue arbitrary: msgs)
  case (Cons msg queue)
  have "set msgs \<subseteq> set (receive env now queue (insort_key fst x msgs))" for x
    using Cons.IH [of "insort_key fst x msgs"] by (auto simp: set_insort_key)
  with Cons.IH [of msgs] show ?case
    by simp
qed simp

lemma receive_new:
  "(rid, m) \<in> set (receive env now queue msgs) \<Longrightarrow>
     (rid, m) \<in> set msgs \<or> timeout_started_at m = now \<and> socket_msg m \<in> set queue"
  by (induction queue arbitrary: msgs) (fastforce simp: set_insort_key split: if_splits)+

section \<open>Properties\<close>

definition ex_rollback_env :: "u8 \<Rightarrow> RollbackEnv" where
  "ex_rollback_env st =
     \<lparr>rb_client = ex_client 3068 True,
      rb_system_clients = [(1, ex_client 1 False), (3068, ex_client 3068 True)],
      rb_request = (\<lambda>_ _. Ok st), rb_get_signatures = (\<lambda>_ _. Ok signatures_default),
      rb_abi_encode_msg = (\<lambda>_. []), rb_recover = (\<lambda>_ _. Ok 7), rb_latest_timestamp = Ok (Some 1000)\<rparr>"

definition ex_rollbackable :: "rollback_msgs" where
  "ex_rollbackable = [(42, \<lparr>timeout_started_at = 800, socket_msg = ex_message 1\<rparr>)]"


lemma ex_rollbackable_inv: "rollback_inv (ex_rollback_env 1) ex_rollbackable"
  by (simp add: rollback_inv_def ex_rollbackable_def ex_rollback_env_def ex_client_def ex_metadata_def
      get_bitcoin_chain_id_def) (simp add: ex_message_def)

lemma ex_rollback_tick:
  "rollback_tick (ex_rollback_env 1) [] ex_rollbackable =
    ([], [SendTx 3068 (build_poll_request 11 (set_status Failed (ex_message 1)) signatures_default)
            (Rollback (rollback_metadata True Failed (ex_message 1)))], Ok ())"
proof -
  have "is_request_executed (ex_rollback_env 1) (ex_message 1) = Ok False"
    by (simp add: is_request_executed_def get_socket_request_def ex_rollback_env_def)
  moreover have "try_rollback (ex_rollback_env 1) (ex_message 1) =
    ([SendTx 3068 (build_poll_request 11 (set_status Failed (ex_message 1)) signatures_default)
            (Rollback (rollback_metadata True Failed (ex_message 1)))], Ok ())"
    by (simp add: try_rollback_def try_rollback_inbound_def rb_native_client_def ex_rollback_env_def
        ex_client_def ex_metadata_def ex_contracts_def send_transaction_def client_chain_id_def emit_def)
  moreover have "is_request_timeout 800 1000"
    by (simp add: is_request_timeout_def ROLLBACK_CHECK_MINIMUM_INTERVAL_def saturating_sub_def)
  moreover have "rb_latest_timestamp (ex_rollback_env 1) = Ok (Some 1000)"
    by (simp add: ex_rollback_env_def)
  ultimately show ?thesis
    by (simp add: rollback_tick_def ex_rollbackable_def ret_def)
qed


text \<open>
  What a turn keeps. When a turn ends without error, the messages kept are exactly those,
  stored before or received now, that are neither executed nor past the waiting period; the store
  stays ordered with one message per sequence number and never holds a message from or to
  Bitcoin.
\<close>

theorem rollback_tick_keeps:
  assumes "rollback_inv env msgs" and "rollback_tick env queue msgs = (msgs', fs, Ok ())"
    and "rb_latest_timestamp env = Ok (Some now)"
  shows "msgs' = filter (\<lambda>(_, m). is_request_executed env (socket_msg m) \<noteq> Ok True
        \<and> unat now - unat (timeout_started_at m) < 180) (receive env now queue msgs)
    \<and> sorted (map fst msgs') \<and> distinct (map fst msgs')
    \<and> (\<forall>(rid, m) \<in> set msgs'. rid = sequence (req_id (socket_msg m))
         \<and> get_bitcoin_chain_id (rb_client env) \<noteq> Some (src_chain_id (socket_msg m))
         \<and> get_bitcoin_chain_id (rb_client env) \<noteq> Some (dst_chain_id (socket_msg m)))"
proof -
  let ?rcv = "receive env now queue msgs"
  have inv: "rollback_inv env ?rcv"
    using assms(1) by (rule receive_inv)
  obtain handled where c: "check_msgs env now ?rcv [] = (fs, Ok handled)"
    and m: "msgs' = filter (\<lambda>(rid, _). rid \<notin> set handled) ?rcv"
    using assms(2,3) by (auto simp: rollback_tick_def Let_def split: prod.splits res.splits)
  have "rid \<in> set handled \<longleftrightarrow> settles env now m'" if "(rid, m') \<in> set ?rcv" for rid m'
  proof
    assume "rid \<in> set handled"
    then obtain m'' where "(rid, m'') \<in> set ?rcv" "settles env now m''"
      using check_msgs_Ok [OF c] by auto
    then show "settles env now m'"
      using that inv eq_key_imp_eq_value [of ?rcv rid m' m''] by (simp add: rollback_inv_def)
  next
    assume "settles env now m'"
    with that show "rid \<in> set handled"
      using check_msgs_Ok [OF c] by (auto intro!: rev_image_eqI)
  qed
  then have eq: "msgs' = filter (\<lambda>(_, m). is_request_executed env (socket_msg m) \<noteq> Ok True
        \<and> unat now - unat (timeout_started_at m) < 180) ?rcv"
    unfolding m by (intro filter_cong)
      (auto simp: settles_def is_request_timeout_def ROLLBACK_CHECK_MINIMUM_INTERVAL_def word_le_nat_alt)
  moreover have "sorted (map fst msgs')" "distinct (map fst msgs')"
    using inv unfolding eq by (auto simp: rollback_inv_def sorted_filter distinct_map_filter)
  moreover have "set msgs' \<subseteq> set ?rcv"
    unfolding eq by auto
  ultimately show ?thesis
    using inv unfolding rollback_inv_def by blast
qed

theorem rollback_tick_keeps_witness:
  "[] = filter (\<lambda>(_, m). is_request_executed (ex_rollback_env 1) (socket_msg m) \<noteq> Ok True
        \<and> unat (1000::u64) - unat (timeout_started_at m) < 180)
      (receive (ex_rollback_env 1) 1000 [] ex_rollbackable)"
  using rollback_tick_keeps [OF ex_rollbackable_inv ex_rollback_tick, of 1000]
  by (simp add: ex_rollback_env_def)

text \<open>
  Requests of different chains with the same sequence number exclude each other. The store
  is keyed by the sequence number alone, so a message whose number is already stored for another
  request (another source chain or round) is discarded on receipt and will never be rolled back.
\<close>

theorem rollback_key_collision:
  assumes "rollback_inv env msgs" and "(rid, other) \<in> set msgs"
    and "sequence (req_id (socket_msg other)) = sequence (req_id msg)"
    and "req_id (socket_msg other) \<noteq> req_id msg"
    and "(rid', m) \<in> set (receive env now queue msgs)"
  shows "req_id (socket_msg m) \<noteq> req_id msg"
proof
  assume same: "req_id (socket_msg m) = req_id msg"
  have inv: "rollback_inv env (receive env now queue msgs)"
    using assms(1) by (rule receive_inv)
  have "(rid, other) \<in> set (receive env now queue msgs)"
    using assms(2) receive_keeps by blast
  moreover from this inv have "rid = sequence (req_id msg)"
    using assms(3) by (auto simp: rollback_inv_def)
  moreover have "rid' = sequence (req_id msg)"
    using inv assms(5) same by (auto simp: rollback_inv_def)
  ultimately have "other = m"
    using inv assms(5) eq_key_imp_eq_value [of "receive env now queue msgs" rid other m]
    by (simp add: rollback_inv_def)
  with same assms(4) show False by simp
qed

theorem rollback_key_collision_witness:
  "\<lparr>ChainIndex = 2, round_id = 5, sequence = 42\<rparr> \<notin> (\<lambda>(rid, m). req_id (socket_msg m)) `
     set (receive (ex_rollback_env 1) 1000
       [(ex_message 1)\<lparr>req_id := \<lparr>ChainIndex = 2, round_id = 5, sequence = 42\<rparr>\<rparr>] ex_rollbackable)"
proof -
  let ?msg = "(ex_message 1)\<lparr>req_id := \<lparr>ChainIndex = 2, round_id = 5, sequence = 42\<rparr>\<rparr>"
  have "req_id (socket_msg m) \<noteq> req_id ?msg"
    if "(rid, m) \<in> set (receive (ex_rollback_env 1) 1000 [?msg] ex_rollbackable)" for rid m
  proof (rule rollback_key_collision [OF ex_rollbackable_inv _ _ _ that])
    show "(42, \<lparr>timeout_started_at = 800, socket_msg = ex_message 1\<rparr>) \<in> set ex_rollbackable"
      by (simp add: ex_rollbackable_def)
  qed (simp_all add: ex_message_def)
  then show ?thesis by fastforce
qed

text \<open>
  A failing check repeats the rollbacks before it. When a turn rolls one message back and
  then fails on a later one, the message it rolled back is still stored afterwards, so the next
  turn sends its rollback again.
\<close>

theorem rollback_repeated_after_error:
  assumes "rb_latest_timestamp env = Ok (Some now)"
    and "is_request_executed env (socket_msg m) = Ok False" and "is_request_timeout (timeout_started_at m) now"
    and "try_rollback env (socket_msg m) = (gs, Ok ())"
    and "is_request_executed env (socket_msg m') = Err e"
  shows "rollback_tick env [] [(rid, m), (rid', m')] = ([(rid, m), (rid', m')], gs, Err e)"
  using assms by (simp add: rollback_tick_def)

theorem rollback_repeated_after_error_witness:
  "snd (snd (rollback_tick ((ex_rollback_env 1)\<lparr>rb_request := (\<lambda>_ r. if sequence r = 42 then Ok 1 else Err RpcError)\<rparr>) []
     (ex_rollbackable @ [(43, \<lparr>timeout_started_at = 800, socket_msg = ex_outbound_message 5\<rparr>)]))) = Err RpcError"
proof -
  let ?env = "(ex_rollback_env 1)\<lparr>rb_request := (\<lambda>_ r. if sequence r = 42 then Ok 1 else Err RpcError)\<rparr>"
  have "is_request_executed ?env (ex_message 1) = Ok False"
    by (simp add: is_request_executed_def get_socket_request_def ex_rollback_env_def) (simp add: ex_message_def)
  moreover have "is_request_executed ?env (ex_outbound_message 5) = Err RpcError"
    by (simp add: is_request_executed_def get_socket_request_def ex_rollback_env_def)
      (simp add: ex_outbound_message_def)
  moreover have "try_rollback ?env (ex_message 1) =
    ([SendTx 3068 (build_poll_request 11 (set_status Failed (ex_message 1)) signatures_default)
            (Rollback (rollback_metadata True Failed (ex_message 1)))], Ok ())"
    by (simp add: try_rollback_def try_rollback_inbound_def rb_native_client_def ex_rollback_env_def
        ex_client_def ex_metadata_def ex_contracts_def send_transaction_def client_chain_id_def emit_def)
  moreover have "is_request_timeout 800 1000"
    by (simp add: is_request_timeout_def ROLLBACK_CHECK_MINIMUM_INTERVAL_def saturating_sub_def)
  moreover have "rb_latest_timestamp ?env = Ok (Some 1000)"
    by (simp add: ex_rollback_env_def)
  ultimately show ?thesis
    using rollback_repeated_after_error [of ?env 1000 "\<lparr>timeout_started_at = 800, socket_msg = ex_message 1\<rparr>"
        "[SendTx 3068 (build_poll_request 11 (set_status Failed (ex_message 1)) signatures_default)
            (Rollback (rollback_metadata True Failed (ex_message 1)))]"
        "\<lparr>timeout_started_at = 800, socket_msg = ex_outbound_message 5\<rparr>" RpcError 42 43]
    by (simp add: ex_rollbackable_def)
qed

end
