(* ===== verification/Roundup.thy ===== *)
theory Roundup
  imports Socket_Pending
begin

text \<open>
  The relayer-set round: phase 1, the emitter that polls the new relayer set on Bifrost
  (\<open>periodic/src/roundup_emitter.rs\<close>), and phase 2, the handler that relays the committed set to
  the external chains and keeps retrying the ones that lag behind
  (\<open>client/src/eth/handlers/roundup_relay_handler.rs\<close>).
\<close>

section \<open>Surroundings\<close>

record RoundUpEvent =
  ru_status :: u8
  ru_round :: u256
  ru_new_relayers :: "address list"

text \<open>
  What one attempt to submit and watch a transaction met: confirmation, a timeout of the watch
  (with the outcome of the flush that follows), or a refusal.
\<close>

datatype sync_answer = Confirmed | Unconfirmed "unit res" | Refused error

record RoundupEnv =
  ru_client :: EthClient
  ru_external_clients :: "(chain_id \<times> EthClient) list"
  ru_receipt :: "b256 \<Rightarrow> bool option res"
  ru_decode :: "Log \<Rightarrow> RoundUpEvent option"
  ru_signature_hash :: b256
  ru_round_signatures :: "u256 \<Rightarrow> Signatures res"
  ru_abi_encode_params :: abi_encoder
  ru_recover :: "bytes \<Rightarrow> Signature \<Rightarrow> address res"
  ru_sign :: "address \<Rightarrow> bytes \<Rightarrow> Signature res"
  ru_is_previous_selected :: "u256 \<Rightarrow> address \<Rightarrow> bool res"
  ru_previous_relayers :: "u256 \<Rightarrow> address list res"
  ru_latest_round :: "chain_id \<Rightarrow> u256 res"
  ru_sync_answers :: "chain_id \<Rightarrow> u256 \<Rightarrow> (sync_answer \<times> unit res) list"

type_synonym pending_relays = "chain_id \<rightharpoonup> Round_Up_Submit list"

section \<open>Shared helpers\<close>

text \<open>\<open>relay_as\<close> unwraps both the contract and its answer.\<close>

definition relay_as :: "RoundupEnv \<Rightarrow> u256 \<Rightarrow> address res" where
  "relay_as env rnd =
     bind_res (unwrap (relayer_manager (protocol_contracts (ru_client env)))) (\<lambda>_.
       case ru_previous_relayers env rnd of
         Ok prev_relayers \<Rightarrow>
           Ok (case List.find (\<lambda>s. s \<in> set prev_relayers) (signers (ru_client env)) of
                 Some s \<Rightarrow> s | None \<Rightarrow> 0)
       | _ \<Rightarrow> Panic)"

definition ru_is_selected_relayer :: "RoundupEnv \<Rightarrow> u256 \<Rightarrow> address \<Rightarrow> bool res" where
  "ru_is_selected_relayer env rnd relayer =
     bind_res (unwrap (relayer_manager (protocol_contracts (ru_client env)))) (\<lambda>_.
       ru_is_previous_selected env rnd relayer)"

definition sync_send_transaction ::
    "EthClient \<Rightarrow> sync_answer \<Rightarrow> TxRequest \<Rightarrow> TxMetadata \<Rightarrow> (effect, unit) eff" where
  "sync_send_transaction client answer request meta =
     (if \<not> is_relay_target (metadata client) then ret ()
      else
        (case answer of
           Refused e \<Rightarrow> lift (Err e)
         | Confirmed \<Rightarrow> emit (SendTx (client_chain_id client) request meta)
         | Unconfirmed flush \<Rightarrow>
             bind_eff (emit (SendTx (client_chain_id client) request meta)) (\<lambda>_. lift flush)))"

text \<open>
  The bootstrap send loop: a nonce that is too low flushes and tries again, any other error ends
  it. The answers of the attempts, each with the outcome of its flush, are given in order; \<open>None\<close>
  is a loop still waiting for the next answer.
\<close>

fun sync_send_loop ::
    "EthClient \<Rightarrow> TxRequest \<Rightarrow> TxMetadata \<Rightarrow> (sync_answer \<times> unit res) list
      \<Rightarrow> (effect, unit) eff option" where
  "sync_send_loop client request meta [] = None"
| "sync_send_loop client request meta ((answer, flush) # rest) =
     (case sync_send_transaction client answer request meta of
        (fs, Err e) \<Rightarrow>
          if e = NonceTooLow
          then (case flush of
                  Ok u \<Rightarrow> map_option (\<lambda>(gs, r). (fs @ gs, r)) (sync_send_loop client request meta rest)
                | Err e' \<Rightarrow> Some (fs, Err e')
                | Panic \<Rightarrow> Some (fs, Panic))
          else Some (fs, Err e)
      | done \<Rightarrow> Some done)"

section \<open>Phase 2: the relay handler\<close>

definition ru_get_sorted_signatures :: "RoundupEnv \<Rightarrow> u256 \<Rightarrow> address list \<Rightarrow> Signatures res" where
  "ru_get_sorted_signatures env rnd new_relayers =
     bind_res (ru_round_signatures env rnd)
       (sort_by_signer (ru_recover env (encode_roundup_param (ru_abi_encode_params env) rnd new_relayers)))"

definition build_roundup_submit :: "RoundupEnv \<Rightarrow> u256 \<Rightarrow> address list \<Rightarrow> Round_Up_Submit res" where
  "build_roundup_submit env rnd new_relayers =
     (let relayers = sort new_relayers
      in bind_res (ru_get_sorted_signatures env rnd relayers) (\<lambda>sigs.
           Ok \<lparr>rus_round = rnd, rus_new_relayers = relayers, rus_sigs = sigs\<rparr>))"

definition ru_build_transaction_request :: "EthClient \<Rightarrow> Round_Up_Submit \<Rightarrow> address \<Rightarrow> TxRequest" where
  "ru_build_transaction_request target submit frm =
     \<lparr>tx_to = socket (protocol_contracts target), tx_from = Some frm,
      tx_call = RoundControlRelay submit, tx_gas_limit = None\<rparr>"

text \<open>\<open>partition_point\<close> on a vector ordered by the predicate: the length of its true prefix.\<close>

definition partition_point :: "('a \<Rightarrow> bool) \<Rightarrow> 'a list \<Rightarrow> nat" where
  "partition_point P xs = length (takeWhile P xs)"

definition record_relay :: "chain_id \<Rightarrow> Round_Up_Submit \<Rightarrow> pending_relays \<Rightarrow> pending_relays" where
  "record_relay dst submit pending =
     (let relays = (case pending dst of Some rs \<Rightarrow> rs | None \<Rightarrow> [])
      in if \<exists>r \<in> set relays. rus_round r = rus_round submit then pending(dst \<mapsto> relays)
         else
           (let pos = partition_point (\<lambda>r. rus_round r < rus_round submit) relays
            in pending(dst \<mapsto> take pos relays @ submit # drop pos relays)))"

fun broadcast_loop ::
    "RoundupEnv \<Rightarrow> Round_Up_Submit \<Rightarrow> address \<Rightarrow> bool \<Rightarrow> (chain_id \<times> EthClient) list
      \<Rightarrow> pending_relays \<Rightarrow> (pending_relays \<times> (effect, unit) eff) option" where
  "broadcast_loop env submit frm is_bootstrap [] pending = Some (pending, ret ())"
| "broadcast_loop env submit frm is_bootstrap ((dst, target) # rest) pending =
     (let pending' = (if \<not> is_bootstrap then record_relay dst submit pending else pending)
      in case ru_latest_round env dst of
           Ok latest_round \<Rightarrow>
             if latest_round < rus_round submit
             then
               (let request = ru_build_transaction_request target submit frm;
                    meta = VSPPhase2 (rus_round submit) dst
                in case (if is_bootstrap
                         then sync_send_loop target request meta (ru_sync_answers env dst (rus_round submit))
                         else Some (send_transaction target request meta)) of
                     None \<Rightarrow> None
                   | Some (fs, Ok u) \<Rightarrow>
                       map_option (\<lambda>(p, gs, r). (p, fs @ gs, r))
                         (broadcast_loop env submit frm is_bootstrap rest pending')
                   | Some (fs, Err e) \<Rightarrow> Some (pending', fs, Err e)
                   | Some (fs, Panic) \<Rightarrow> Some (pending', fs, Panic))
             else broadcast_loop env submit frm is_bootstrap rest pending'
         | Err e \<Rightarrow> Some (pending', lift (Err e))
         | Panic \<Rightarrow> Some (pending', lift Panic))"

definition broadcast_roundup ::
    "RoundupEnv \<Rightarrow> Round_Up_Submit \<Rightarrow> address \<Rightarrow> bool \<Rightarrow> pending_relays
      \<Rightarrow> (pending_relays \<times> (effect, unit) eff) option" where
  "broadcast_roundup env submit frm is_bootstrap pending =
     broadcast_loop env submit frm is_bootstrap (ru_external_clients env) pending"

definition ru_process_confirmed_log ::
    "RoundupEnv \<Rightarrow> Log \<Rightarrow> bool \<Rightarrow> pending_relays \<Rightarrow> (pending_relays \<times> (effect, unit) eff) option" where
  "ru_process_confirmed_log env log is_bootstrap pending =
     (case bind_res (unwrap (transaction_hash log)) (ru_receipt env) of
        Err e \<Rightarrow> Some (pending, lift (Err e))
      | Panic \<Rightarrow> Some (pending, lift Panic)
      | Ok None \<Rightarrow> Some (pending, ret ())
      | Ok (Some False) \<Rightarrow> Some (pending, ret ())
      | Ok (Some True) \<Rightarrow>
          (case ru_decode env log of
             None \<Rightarrow> Some (pending, ret ())
           | Some ev \<Rightarrow>
               (let prev_round = ru_round ev - 1
                in case bind_res (relay_as env prev_round) (\<lambda>frm.
                          bind_res (ru_is_selected_relayer env prev_round frm) (\<lambda>sel.
                            if \<not> sel then Ok None
                            else bind_res (roundup_status_from_u8 (ru_status ev)) (\<lambda>st.
                                   case st of
                                     NextAuthorityRelayed \<Rightarrow> Ok None
                                   | NextAuthorityCommitted \<Rightarrow>
                                       bind_res (build_roundup_submit env (ru_round ev) (ru_new_relayers ev))
                                         (\<lambda>submit. Ok (Some (submit, frm)))))) of
                     Ok None \<Rightarrow> Some (pending, ret ())
                   | Ok (Some (submit, frm)) \<Rightarrow> broadcast_roundup env submit frm is_bootstrap pending
                   | Err e \<Rightarrow> Some (pending, lift (Err e))
                   | Panic \<Rightarrow> Some (pending, lift Panic))))"

definition retry_sends ::
    "RoundupEnv \<Rightarrow> chain_id \<Rightarrow> EthClient \<Rightarrow> Round_Up_Submit list \<Rightarrow> (effect, unit) eff" where
  "retry_sends env dst target =
     for_each (\<lambda>submit.
       bind_eff (lift (relay_as env (rus_round submit - 1))) (\<lambda>frm.
         send_transaction target (ru_build_transaction_request target submit frm)
           (VSPPhase2 (rus_round submit) dst)))"

text \<open>The chains are visited in the iteration order of a hash map, an argument here.\<close>

fun retry_chains ::
    "RoundupEnv \<Rightarrow> u256 \<Rightarrow> chain_id list \<Rightarrow> pending_relays \<Rightarrow> pending_relays \<times> (effect, unit) eff" where
  "retry_chains env bifrost_latest [] pending = (pending, ret ())"
| "retry_chains env bifrost_latest (dst # rest) pending =
     (case map_of (ru_external_clients env) dst of
        None \<Rightarrow> retry_chains env bifrost_latest rest (pending(dst := None))
      | Some target \<Rightarrow>
          (case ru_latest_round env dst of
             Ok chain_latest \<Rightarrow>
               if chain_latest = bifrost_latest
               then retry_chains env bifrost_latest rest (pending(dst := None))
               else
                 (let submits = filter (\<lambda>r. chain_latest < rus_round r)
                        (case pending dst of Some rs \<Rightarrow> rs | None \<Rightarrow> [])
                  in case retry_sends env dst target submits of
                       (fs, Ok u) \<Rightarrow>
                         (case retry_chains env bifrost_latest rest pending of (p, gs, r) \<Rightarrow> (p, fs @ gs, r))
                     | (fs, Err e) \<Rightarrow> (pending, fs, Err e)
                     | (fs, Panic) \<Rightarrow> (pending, fs, Panic))
           | Err e \<Rightarrow> (pending, lift (Err e))
           | Panic \<Rightarrow> (pending, lift Panic)))"

definition retry_pending_relays ::
    "RoundupEnv \<Rightarrow> chain_id list \<Rightarrow> pending_relays \<Rightarrow> pending_relays \<times> (effect, unit) eff" where
  "retry_pending_relays env keys pending =
     (case ru_latest_round env (client_chain_id (ru_client env)) of
        Ok bifrost_latest \<Rightarrow> retry_chains env bifrost_latest keys pending
      | Err e \<Rightarrow> (pending, lift (Err e))
      | Panic \<Rightarrow> (pending, lift Panic))"

section \<open>Phase 1: the emitter\<close>

record RoundupEmitter =
  current_round :: u256
  re_client :: EthClient

definition fetch_validator_list :: "RoundupEnv \<Rightarrow> u256 \<Rightarrow> address list res" where
  "fetch_validator_list env rnd =
     bind_res (unwrap (relayer_manager (protocol_contracts (ru_client env)))) (\<lambda>_.
     bind_res (ru_previous_relayers env rnd) (\<lambda>addresses. Ok (sort addresses)))"

definition build_phase1_transaction ::
    "RoundupEnv \<Rightarrow> EthClient \<Rightarrow> u256 \<Rightarrow> address list \<Rightarrow> address \<Rightarrow> TxRequest res" where
  "build_phase1_transaction env client rnd new_relayers frm =
     bind_res (sign_message (ru_sign env) client
        (encode_roundup_param (ru_abi_encode_params env) rnd new_relayers)) (\<lambda>sig.
       Ok \<lparr>tx_to = socket (protocol_contracts client), tx_from = Some frm,
           tx_call = RoundControlPoll \<lparr>rus_round = rnd, rus_new_relayers = new_relayers,
                                       rus_sigs = signatures_from_signature sig\<rparr>,
           tx_gas_limit = None\<rparr>)"

definition phase1_send ::
    "RoundupEnv \<Rightarrow> EthClient \<Rightarrow> u256 \<Rightarrow> address list \<Rightarrow> address \<Rightarrow> (effect, unit) eff" where
  "phase1_send env client rnd new_relayers frm =
     bind_eff (lift (build_phase1_transaction env client rnd new_relayers frm)) (\<lambda>request.
       send_transaction client request (VSPPhase1 rnd new_relayers))"

text \<open>One turn of the emitter's loop; the first use of \<open>ru_client\<close> is the emitter's own client.\<close>

definition roundup_tick :: "RoundupEnv \<Rightarrow> RoundupEmitter \<Rightarrow> RoundupEmitter \<times> (effect, unit) eff" where
  "roundup_tick env st =
     (case ru_latest_round env (client_chain_id (re_client st)) of
        Ok latest_round \<Rightarrow>
          if current_round st < latest_round
          then
            (case bind_eff (lift (fetch_validator_list env latest_round)) (\<lambda>new_relayers.
                    bind_eff (lift (ru_is_selected_relayer env (latest_round - 1)
                        (default_address (re_client st)))) (\<lambda>selected.
                      bind_eff (if selected
                                then phase1_send env (re_client st) latest_round new_relayers
                                       (default_address (re_client st))
                                else ret ()) (\<lambda>_. ret new_relayers))) of
               (fs, Ok new_relayers) \<Rightarrow>
                 (case update_default_address (Ok []) (Some new_relayers) (re_client st) of
                    Ok c \<Rightarrow> (st\<lparr>current_round := latest_round, re_client := c\<rparr>, fs, Ok ())
                  | Err e \<Rightarrow> (st\<lparr>current_round := latest_round\<rparr>, fs, Err e)
                  | Panic \<Rightarrow> (st\<lparr>current_round := latest_round\<rparr>, fs, Panic))
             | (fs, Err e) \<Rightarrow> (st, fs, Err e)
             | (fs, Panic) \<Rightarrow> (st, fs, Panic))
          else (st, ret ())
      | Err e \<Rightarrow> (st, lift (Err e))
      | Panic \<Rightarrow> (st, lift Panic))"

text \<open>
  \<open>get_next_poll_round\<close> on the logs of the bootstrap range: every unwrap is a panic.
\<close>

definition next_poll_round :: "RoundupEnv \<Rightarrow> Log list res \<Rightarrow> u256 res" where
  "next_poll_round env logs =
     (case logs of
        Ok ls \<Rightarrow>
          bind_res (traverse_res (\<lambda>l. unwrap (ru_decode env l)) ls) (\<lambda>events.
            if events = [] then Panic
            else
              (let max_round = Max (ru_round ` set events);
                   max_events = filter (\<lambda>ev. ru_round ev = max_round) events
               in bind_res (roundup_status_from_u8 (Max (ru_status ` set max_events))) (\<lambda>st.
                    case st of
                      NextAuthorityRelayed \<Rightarrow> Ok max_round
                    | NextAuthorityCommitted \<Rightarrow> Ok (max_round + 1))))
      | _ \<Rightarrow> Panic)"

text \<open>
  The two loops of the phase-1 bootstrap. \<open>polls n\<close> is what the \<open>n\<close>-th evaluation of
  \<open>get_next_poll_round\<close> gives; \<open>None\<close> is a loop that does not end.
\<close>

partial_function (option) wait_next_round :: "(nat \<Rightarrow> u256 res) \<Rightarrow> nat \<Rightarrow> u256 \<Rightarrow> (nat \<times> u256) res option" where
  "wait_next_round polls n next =
     (case polls n of
        Ok fresh \<Rightarrow> if next < fresh then Some (Ok (Suc n, fresh)) else wait_next_round polls (Suc n) next
      | Err e \<Rightarrow> Some (Err e)
      | Panic \<Rightarrow> Some Panic)"

definition phase1_poll :: "RoundupEnv \<Rightarrow> EthClient \<Rightarrow> u256 \<Rightarrow> (effect, unit) eff" where
  "phase1_poll env client next =
     bind_eff (lift (relay_as env (next - 1))) (\<lambda>frm.
     bind_eff (lift (ru_is_selected_relayer env (next - 1) (default_address client))) (\<lambda>selected.
       if selected
       then bind_eff (lift (fetch_validator_list env next)) (\<lambda>new_relayers.
              phase1_send env client next new_relayers frm)
       else ret ()))"

partial_function (option) phase1_bootstrap ::
    "RoundupEnv \<Rightarrow> EthClient \<Rightarrow> (nat \<Rightarrow> u256 res) \<Rightarrow> u256 \<Rightarrow> nat \<Rightarrow> u256 \<Rightarrow> effect list
      \<Rightarrow> (effect, unit) eff option" where
  "phase1_bootstrap env client polls current n next sent =
     (if next = current + 1 then Some (sent, Ok ())
      else if next \<le> current
      then (case phase1_poll env client next of
              (fs, Ok u) \<Rightarrow>
                (case wait_next_round polls n next of
                   None \<Rightarrow> None
                 | Some (Ok (m, fresh)) \<Rightarrow>
                     phase1_bootstrap env client polls current m fresh (sent @ fs)
                 | Some (Err e) \<Rightarrow> Some (sent @ fs, Err e)
                 | Some Panic \<Rightarrow> Some (sent @ fs, Panic))
            | (fs, Err e) \<Rightarrow> Some (sent @ fs, Err e)
            | (fs, Panic) \<Rightarrow> Some (sent @ fs, Panic))
      else phase1_bootstrap env client polls current n next sent)"

section \<open>The pending relays stay ordered\<close>

definition relays_ordered :: "pending_relays \<Rightarrow> bool" where
  "relays_ordered pending \<longleftrightarrow>
     (\<forall>dst rs. pending dst = Some rs \<longrightarrow> sorted_wrt (\<lambda>a b. rus_round a < rus_round b) rs)"

lemma insert_at_partition_point:
  assumes "sorted_wrt (\<lambda>a b. rus_round a < rus_round b) rs" and "\<forall>r \<in> set rs. rus_round r \<noteq> rus_round s"
  shows "sorted_wrt (\<lambda>a b. rus_round a < rus_round b)
    (take (partition_point (\<lambda>r. rus_round r < rus_round s) rs) rs
      @ s # drop (partition_point (\<lambda>r. rus_round r < rus_round s) rs) rs)"
  using assms
proof (induction rs)
  case (Cons r rs)
  then show ?case
  proof (cases "rus_round r < rus_round s")
    case True
    have "\<forall>x \<in> set (take n rs @ s # drop n rs). rus_round r < rus_round x" for n
      using True Cons.prems(1) by (auto dest: in_set_takeD in_set_dropD)
    with True Cons show ?thesis by (simp add: partition_point_def)
  next
    case False
    with Cons.prems have "rus_round s < rus_round r" by force
    with False Cons.prems show ?thesis by (auto simp: partition_point_def)
  qed
qed (simp add: partition_point_def)

lemma record_relay_ordered: "relays_ordered pending \<Longrightarrow> relays_ordered (record_relay dst s pending)"
proof -
  assume ord: "relays_ordered pending"
  define rs where "rs = (case pending dst of Some rs \<Rightarrow> rs | None \<Rightarrow> [])"
  have "sorted_wrt (\<lambda>a b. rus_round a < rus_round b) rs"
    using ord by (auto simp: rs_def relays_ordered_def split: option.splits)
  with ord insert_at_partition_point [of rs s] show ?thesis
    by (auto simp: record_relay_def rs_def [symmetric] relays_ordered_def Let_def)
qed

lemma broadcast_loop_ordered:
  "relays_ordered pending \<Longrightarrow> broadcast_loop env s frm b ext pending = Some (pending', fs, r) \<Longrightarrow>
     relays_ordered pending'"
proof (induction ext arbitrary: pending fs)
  case (Cons e ext)
  obtain dst target where e: "e = (dst, target)" by fastforce
  let ?p = "if \<not> b then record_relay dst s pending else pending"
  have p: "relays_ordered ?p"
    using Cons.prems(1) record_relay_ordered by simp
  from Cons.prems(2) e consider "pending' = ?p"
    | gs where "broadcast_loop env s frm b ext ?p = Some (pending', gs, r)"
    by (auto simp: Let_def split: res.splits if_splits option.splits prod.splits)
  then show ?case
    by cases (use p Cons.IH [OF p] in auto)
qed auto

lemma retry_chains_ordered:
  "relays_ordered pending \<Longrightarrow> relays_ordered (fst (retry_chains env b keys pending))"
proof (induction keys arbitrary: pending)
  case (Cons dst keys)
  have drop: "relays_ordered (pending(dst := None))"
    using Cons.prems by (auto simp: relays_ordered_def)
  have "fst (retry_chains env b (dst # keys) pending) \<in>
      {pending, fst (retry_chains env b keys pending), fst (retry_chains env b keys (pending(dst := None)))}"
    by (auto simp: Let_def split: option.splits res.splits prod.splits)
  then consider "fst (retry_chains env b (dst # keys) pending) = pending"
    | "fst (retry_chains env b (dst # keys) pending) = fst (retry_chains env b keys pending)"
    | "fst (retry_chains env b (dst # keys) pending) = fst (retry_chains env b keys (pending(dst := None)))"
    by blast
  then show ?case
    by cases (simp_all only: Cons.IH [OF Cons.prems] Cons.IH [OF drop] Cons.prems)
qed simp

inductive roundup_reachable :: "pending_relays \<Rightarrow> bool" where
  roundup_init: "roundup_reachable Map.empty"
| roundup_event: "roundup_reachable p \<Longrightarrow> ru_process_confirmed_log env log b p = Some (p', fs, r) \<Longrightarrow>
     roundup_reachable p'"
| roundup_retry: "roundup_reachable p \<Longrightarrow> retry_pending_relays env keys p = (p', fs, r) \<Longrightarrow>
     roundup_reachable p'"

lemma ru_process_confirmed_log_ordered:
  assumes "relays_ordered p" and "ru_process_confirmed_log env log b p = Some (p', fs, r)"
  shows "relays_ordered p'"
proof -
  have "p' = p \<or> (\<exists>s frm gs. broadcast_loop env s frm b (ru_external_clients env) p = Some (p', gs, r))"
    using assms(2)
    by (auto simp: ru_process_confirmed_log_def broadcast_roundup_def Let_def
        split: res.splits option.splits bool.splits)
  with assms(1) broadcast_loop_ordered show ?thesis by blast
qed

lemma retry_pending_relays_ordered:
  assumes "relays_ordered p" and "retry_pending_relays env keys p = (p', fs, r)"
  shows "relays_ordered p'"
proof -
  have "p' = p \<or> (\<exists>b. p' = fst (retry_chains env b keys p))"
    using assms(2) by (auto simp: retry_pending_relays_def split: res.splits) (metis fst_conv)
  with assms(1) retry_chains_ordered show ?thesis by blast
qed

section \<open>Properties\<close>

text \<open>
  The pending relays of every chain stay in order. Whatever events the handler processes and
  however often it retries, the relays pending for a chain are strictly ascending in their round,
  so a retry relays the oldest missing round first and no round twice.
\<close>

theorem pending_relays_ascending:
  assumes "roundup_reachable pending" and "pending dst = Some rs"
  shows "sorted_wrt (<) (map rus_round rs)"
proof -
  have "relays_ordered pending"
    using assms(1)
    by induction (auto intro: ru_process_confirmed_log_ordered retry_pending_relays_ordered
        simp: relays_ordered_def [of Map.empty])
  with assms(2) show ?thesis
    by (simp add: relays_ordered_def sorted_wrt_map)
qed

definition ex_submit :: "u256 \<Rightarrow> Round_Up_Submit" where
  "ex_submit n = \<lparr>rus_round = n, rus_new_relayers = [7], rus_sigs = signatures_default\<rparr>"

definition ex_roundup_env :: "u256 \<Rightarrow> RoundupEnv" where
  "ex_roundup_env n =
     \<lparr>ru_client = ex_client 3068 True, ru_external_clients = [(1, ex_client 1 False), (2, ex_client 2 False)],
      ru_receipt = (\<lambda>_. Ok (Some True)),
      ru_decode = (\<lambda>_. Some \<lparr>ru_status = 10, ru_round = n, ru_new_relayers = [7]\<rparr>),
      ru_signature_hash = 6, ru_round_signatures = (\<lambda>_. Ok signatures_default),
      ru_abi_encode_params = (\<lambda>_. []), ru_recover = (\<lambda>_ _. Ok 7), ru_sign = (\<lambda>_ _. Ok ex_signature),
      ru_is_previous_selected = (\<lambda>_ _. Ok True), ru_previous_relayers = (\<lambda>_. Ok [7]),
      ru_latest_round = (\<lambda>c. Ok (if c = 1 then 3 else 9)), ru_sync_answers = (\<lambda>_ _. [])\<rparr>"

lemma ex_roundup_submit: "build_roundup_submit (ex_roundup_env n) n [7] = Ok (ex_submit n)"
  unfolding build_roundup_submit_def ru_get_sorted_signatures_def sort_by_signer_def
  by (simp add: ex_roundup_env_def vec_from_signatures_default)
    (simp add: ex_submit_def signatures_from_vec_def signatures_default_def)

lemma ex_roundup_relay_as: "relay_as (ex_roundup_env n) m = Ok 7"
  by (simp add: relay_as_def ex_roundup_env_def ex_client_def ex_contracts_def)

lemma ex_roundup_selected: "ru_is_selected_relayer (ex_roundup_env n) m a = Ok True"
  by (simp add: ru_is_selected_relayer_def ex_roundup_env_def ex_client_def ex_contracts_def)

lemma ex_roundup_log:
  "\<exists>p fs. ru_process_confirmed_log (ex_roundup_env 5) (ex_log 11 0) False Map.empty = Some (p, fs, Ok ())
     \<and> p 1 = Some [ex_submit 5]"
proof -
  have "\<exists>p fs. broadcast_roundup (ex_roundup_env 5) (ex_submit 5) 7 False Map.empty = Some (p, fs, Ok ())
     \<and> p 1 = Some [ex_submit 5]"
    by (simp add: broadcast_roundup_def ex_roundup_env_def ex_submit_def record_relay_def partition_point_def
        Let_def send_transaction_def emit_def ret_def ex_client_def ex_metadata_def)
  moreover have "ru_process_confirmed_log (ex_roundup_env 5) (ex_log 11 0) False Map.empty =
      broadcast_roundup (ex_roundup_env 5) (ex_submit 5) 7 False Map.empty"
  proof -
    have "ru_receipt (ex_roundup_env 5) h = Ok (Some True)"
      "ru_decode (ex_roundup_env 5) l = Some \<lparr>ru_status = 10, ru_round = 5, ru_new_relayers = [7]\<rparr>" for h l
      by (simp_all add: ex_roundup_env_def)
    then show ?thesis
      by (simp add: ru_process_confirmed_log_def ex_log_def ex_roundup_relay_as ex_roundup_selected
          roundup_status_from_u8_def ex_roundup_submit)
  qed
  ultimately show ?thesis by simp
qed

theorem pending_relays_ascending_witness:
  "\<exists>pending. roundup_reachable pending \<and> pending 1 = Some [ex_submit 5] \<and> sorted_wrt (<) (map rus_round [ex_submit 5])"
proof -
  obtain p fs where p: "ru_process_confirmed_log (ex_roundup_env 5) (ex_log 11 0) False Map.empty = Some (p, fs, Ok ())"
    "p 1 = Some [ex_submit 5]"
    using ex_roundup_log by blast
  then have r: "roundup_reachable p"
    by (intro roundup_event [OF roundup_init])
  from pending_relays_ascending [OF r p(2)] r p(2) show ?thesis by blast
qed



text \<open>
  One unreachable chain stops the broadcast. Outside bootstrap too, a chain that does not
  answer ends the whole broadcast with an error: no chain behind it in the order gets the relay
  or even the record that a later retry would work from.
\<close>

theorem broadcast_aborts:
  assumes "ru_external_clients env = (dst, target) # rest" and "ru_latest_round env dst = Err e"
    and "other \<noteq> dst"
  shows "\<exists>pending'. broadcast_roundup env submit frm False pending = Some (pending', [], Err e)
    \<and> pending' other = pending other"
  using assms by (simp add: broadcast_roundup_def lift_def record_relay_def Let_def)

theorem broadcast_aborts_witness:
  "\<exists>pending'. broadcast_roundup ((ex_roundup_env 5)\<lparr>ru_latest_round := (\<lambda>c. if c = 1 then Err RpcError else Ok 3)\<rparr>)
      (ex_submit 5) 7 False Map.empty = Some (pending', [], Err RpcError) \<and> pending' 2 = None"
  using broadcast_aborts [of "(ex_roundup_env 5)\<lparr>ru_latest_round := (\<lambda>c. if c = 1 then Err RpcError else Ok 3)\<rparr>"
      1 "ex_client 1 False" "[(2, ex_client 2 False)]" RpcError 2 "ex_submit 5" 7 Map.empty]
  by (simp add: ex_roundup_env_def)

text \<open>
  A retry catches a chain up in order. When the chain lags behind Bifrost and its relayers
  can be read, a retry for it sends the relays of all pending rounds above the chain's own, in
  the pending order, and keeps the record; when it has caught up, the record is dropped and
  nothing is sent.
\<close>

theorem retry_relays_in_order:
  assumes "ru_latest_round env (client_chain_id (ru_client env)) = Ok bifrost_latest"
    and "map_of (ru_external_clients env) dst = Some target" and "is_relay_target (metadata target)"
    and "ru_latest_round env dst = Ok chain_latest" and "pending dst = Some rs"
    and "\<And>s. s \<in> set rs \<Longrightarrow> relay_as env (rus_round s - 1) = Ok (frm s)"
  shows "retry_pending_relays env [dst] pending =
    (if chain_latest = bifrost_latest then (pending(dst := None), [], Ok ())
     else (pending,
       map (\<lambda>s. SendTx (client_chain_id target) (ru_build_transaction_request target s (frm s))
              (VSPPhase2 (rus_round s) dst))
         (filter (\<lambda>s. chain_latest < rus_round s) rs), Ok ()))"
proof -
  have "retry_sends env dst target submits =
      (map (\<lambda>s. SendTx (client_chain_id target) (ru_build_transaction_request target s (frm s))
              (VSPPhase2 (rus_round s) dst)) submits, Ok ())"
    if "set submits \<subseteq> set rs" for submits
    using that
  proof (induction submits)
    case (Cons s submits)
    then have "relay_as env (rus_round s - 1) = Ok (frm s)"
      using assms(6) [of s] by simp
    with Cons assms(3) show ?case
      by (simp add: retry_sends_def send_transaction_def)
  qed (simp add: retry_sends_def ret_def)
  then show ?thesis
    using assms(1-5) by (simp add: retry_pending_relays_def ret_def)
qed

theorem retry_relays_in_order_witness:
  "fst (snd (retry_pending_relays (ex_roundup_env 5) [1] [1 \<mapsto> [ex_submit 2, ex_submit 4, ex_submit 5]])) =
    [SendTx 1 (ru_build_transaction_request (ex_client 1 False) (ex_submit 4) 7) (VSPPhase2 4 1),
     SendTx 1 (ru_build_transaction_request (ex_client 1 False) (ex_submit 5) 7) (VSPPhase2 5 1)]"
proof -
  have "retry_pending_relays (ex_roundup_env 5) [1] [1 \<mapsto> [ex_submit 2, ex_submit 4, ex_submit 5]] =
    (if (3::u256) = 9 then ([1 \<mapsto> [ex_submit 2, ex_submit 4, ex_submit 5]](1 := None), [], Ok ())
     else ([1 \<mapsto> [ex_submit 2, ex_submit 4, ex_submit 5]],
       map (\<lambda>s. SendTx (client_chain_id (ex_client 1 False)) (ru_build_transaction_request (ex_client 1 False) s 7)
              (VSPPhase2 (rus_round s) 1))
         (filter (\<lambda>s. 3 < rus_round s) [ex_submit 2, ex_submit 4, ex_submit 5]), Ok ()))"
    by (rule retry_relays_in_order)
      (simp_all add: ex_roundup_relay_as, simp_all add: ex_roundup_env_def ex_client_def ex_metadata_def
        client_chain_id_def)
  then show ?thesis
    by (simp add: client_chain_id_def) (simp add: ex_submit_def ex_client_def ex_metadata_def)
qed

lemma phase1_send_eq:
  assumes "build_phase1_transaction env client rnd relayers frm = Ok request"
  shows "phase1_send env client rnd relayers frm =
    (if is_relay_target (metadata client)
     then [SendTx (client_chain_id client) request (VSPPhase1 rnd relayers)] else [], Ok ())"
  using assms by (simp add: phase1_send_def send_transaction_def emit_def ret_def)

lemma phase1_send_cases:
  "(\<exists>request. build_phase1_transaction env client rnd relayers frm = Ok request)
   \<or> fst (phase1_send env client rnd relayers frm) = [] \<and> snd (phase1_send env client rnd relayers frm) \<noteq> Ok ()"
  by (cases "build_phase1_transaction env client rnd relayers frm") (auto simp: phase1_send_def)

lemma update_default_address_Some:
  "\<exists>c'. update_default_address sel (Some relayers) c = Ok c'"
  by (simp add: update_default_address_def Let_def)

lemma roundup_tick_advance:
  assumes "ru_latest_round env (client_chain_id (re_client st)) = Ok latest" and "current_round st < latest"
    and "fetch_validator_list env latest = Ok relayers"
    and "ru_is_selected_relayer env (latest - 1) (default_address (re_client st)) = Ok selected"
    and "selected \<Longrightarrow> build_phase1_transaction env (re_client st) latest relayers (default_address (re_client st)) = Ok request"
  shows "\<exists>c. roundup_tick env st = (st\<lparr>current_round := latest, re_client := c\<rparr>,
      if selected \<and> is_relay_target (metadata (re_client st))
      then [SendTx (client_chain_id (re_client st)) request (VSPPhase1 latest relayers)] else [], Ok ())"
proof -
  obtain c where "update_default_address (Ok []) (Some relayers) (re_client st) = Ok c"
    using update_default_address_Some by blast
  moreover have "bind_eff (if selected then phase1_send env (re_client st) latest relayers (default_address (re_client st))
       else ret ()) (\<lambda>_. ret relayers) =
     (if selected \<and> is_relay_target (metadata (re_client st))
      then [SendTx (client_chain_id (re_client st)) request (VSPPhase1 latest relayers)] else [], Ok relayers)"
    using phase1_send_eq [OF assms(5)] by (auto simp: ret_def)
  ultimately show ?thesis
    using assms(1-4) by (intro exI [of _ c]) (simp add: roundup_tick_def)
qed

lemma roundup_tick_cases:
  assumes "roundup_tick env st = (st', fs, r)"
  obtains (failed) "r \<noteq> Ok ()" "fs = []" "st' = st"
    | (idle) latest where "ru_latest_round env (client_chain_id (re_client st)) = Ok latest"
      "latest \<le> current_round st" "st' = st" "fs = []" "r = Ok ()"
    | (advanced) latest relayers selected request where
      "ru_latest_round env (client_chain_id (re_client st)) = Ok latest" "current_round st < latest"
      "fetch_validator_list env latest = Ok relayers"
      "ru_is_selected_relayer env (latest - 1) (default_address (re_client st)) = Ok selected"
      "selected \<Longrightarrow> build_phase1_transaction env (re_client st) latest relayers
         (default_address (re_client st)) = Ok request"
      "current_round st' = latest" "r = Ok ()"
      "fs = (if selected \<and> is_relay_target (metadata (re_client st))
         then [SendTx (client_chain_id (re_client st)) request (VSPPhase1 latest relayers)] else [])"
proof (cases "\<exists>latest. ru_latest_round env (client_chain_id (re_client st)) = Ok latest \<and> current_round st < latest")
  case False
  then show thesis
    using assms failed idle by (auto simp: roundup_tick_def ret_def lift_def not_less split: res.splits if_splits)
next
  case True
  then obtain latest where l: "ru_latest_round env (client_chain_id (re_client st)) = Ok latest"
    "current_round st < latest" by blast
  let ?me = "default_address (re_client st)"
  show thesis
  proof (cases "\<exists>relayers selected. fetch_validator_list env latest = Ok relayers
      \<and> ru_is_selected_relayer env (latest - 1) ?me = Ok selected
      \<and> (selected \<longrightarrow> (\<exists>request. build_phase1_transaction env (re_client st) latest relayers ?me = Ok request))")
    case True
    then obtain relayers selected request where v: "fetch_validator_list env latest = Ok relayers"
      "ru_is_selected_relayer env (latest - 1) ?me = Ok selected"
      "selected \<Longrightarrow> build_phase1_transaction env (re_client st) latest relayers ?me = Ok request" by blast
    from roundup_tick_advance [OF l v] assms
    have "current_round st' = latest" "r = Ok ()" "fs = (if selected \<and> is_relay_target (metadata (re_client st))
         then [SendTx (client_chain_id (re_client st)) request (VSPPhase1 latest relayers)] else [])"
      by (auto split: if_splits)
    then show thesis
      using advanced [of latest relayers selected request] l v by blast
  next
    case False
    have "fs = [] \<and> st' = st \<and> r \<noteq> Ok ()"
    proof (cases "\<exists>relayers. fetch_validator_list env latest = Ok relayers
        \<and> ru_is_selected_relayer env (latest - 1) ?me = Ok True")
      case True
      then obtain relayers where v: "fetch_validator_list env latest = Ok relayers"
        "ru_is_selected_relayer env (latest - 1) ?me = Ok True" by blast
      obtain gs q where p: "phase1_send env (re_client st) latest relayers ?me = (gs, q)" by fastforce
      with False v phase1_send_cases [of env "re_client st" latest relayers ?me] have "gs = []" "q \<noteq> Ok ()"
        by auto
      with assms l v p show ?thesis
        by (cases q) (auto simp: roundup_tick_def)
    next
      case nosel: False
      then show ?thesis
        using assms l False
        by (cases "fetch_validator_list env latest"; cases "ru_is_selected_relayer env (latest - 1) ?me")
          (auto simp: roundup_tick_def)
    qed
    then show thesis using failed by blast
  qed
qed

text \<open>
  Phase 1 polls each new round once. A turn of the emitter that succeeds ends at the latest
  round; it sends one transaction exactly when the round advanced, this relayer was selected in
  the round before, and the chain is a relay target. The transaction polls the sorted new relayer
  set of that round with this relayer's signature on it. A turn that fails sends nothing and
  leaves the round as it was.
\<close>

theorem roundup_tick_sound:
  assumes "roundup_tick env st = (st', fs, r)"
  shows "(r = Ok () \<longrightarrow> (\<exists>latest. ru_latest_round env (client_chain_id (re_client st)) = Ok latest
        \<and> current_round st' = max (current_round st) latest))
    \<and> (r \<noteq> Ok () \<longrightarrow> fs = [] \<and> st' = st)
    \<and> (\<forall>f \<in> set fs. \<exists>latest relayers sig. ru_latest_round env (client_chain_id (re_client st)) = Ok latest
        \<and> current_round st < latest \<and> fs = [f]
        \<and> ru_is_previous_selected env (latest - 1) (default_address (re_client st)) = Ok True
        \<and> ru_previous_relayers env latest = Ok relayers
        \<and> sign_message (ru_sign env) (re_client st)
            (encode_roundup_param (ru_abi_encode_params env) latest (sort relayers)) = Ok sig
        \<and> f = SendTx (client_chain_id (re_client st))
            \<lparr>tx_to = socket (protocol_contracts (re_client st)),
             tx_from = Some (default_address (re_client st)),
             tx_call = RoundControlPoll \<lparr>rus_round = latest, rus_new_relayers = sort relayers,
                                         rus_sigs = signatures_from_signature sig\<rparr>,
             tx_gas_limit = None\<rparr> (VSPPhase1 latest (sort relayers)))"
  using assms
proof (cases rule: roundup_tick_cases)
  case (idle latest)
  then show ?thesis by (simp add: max_def)
next
  case (advanced latest relayers selected request)
  then show ?thesis
    by (auto simp: build_phase1_transaction_def bind_res_Ok_iff fetch_validator_list_def
        ru_is_selected_relayer_def max_def split: if_splits)
qed simp

theorem roundup_tick_sound_witness:
  "\<exists>st' fs. roundup_tick (ex_roundup_env 5) \<lparr>current_round = 5, re_client = ex_client 3068 True\<rparr> = (st', fs, Ok ())
     \<and> current_round st' = 9"
proof -
  let ?st = "\<lparr>current_round = 5, re_client = ex_client 3068 True\<rparr> :: RoundupEmitter"
  obtain st' fs r where t: "roundup_tick (ex_roundup_env 5) ?st = (st', fs, r)"
    by (metis prod_cases3)
  have l: "ru_latest_round (ex_roundup_env 5) 3068 = Ok 9"
    by (simp add: ex_roundup_env_def)
  have c: "client_chain_id (ex_client 3068 True) = 3068"
    by (simp add: client_chain_id_def ex_client_def ex_metadata_def)
  have "fetch_validator_list (ex_roundup_env 5) 9 = Ok [7]"
    by (simp add: fetch_validator_list_def ex_roundup_env_def ex_client_def ex_contracts_def)
  moreover have "\<exists>req. build_phase1_transaction (ex_roundup_env 5) (ex_client 3068 True) 9 [7]
      (default_address (ex_client 3068 True)) = Ok req"
    by (simp add: build_phase1_transaction_def sign_message_def ex_roundup_env_def ex_client_def)
  ultimately have "r = Ok ()"
    using roundup_tick_advance [of "ex_roundup_env 5" ?st 9 "[7]" True] t l c ex_roundup_selected
    by auto
  with roundup_tick_sound [OF t] t l c show ?thesis
    by (auto simp: max_def)
qed

text \<open>\<open>run\<close> starts by taking the chain's round as the current one, also after an error.\<close>

definition roundup_start :: "RoundupEnv \<Rightarrow> RoundupEmitter \<Rightarrow> RoundupEmitter \<times> unit res" where
  "roundup_start env st =
     (case ru_latest_round env (client_chain_id (re_client st)) of
        Ok latest_round \<Rightarrow> (st\<lparr>current_round := latest_round\<rparr>, Ok ())
      | Err e \<Rightarrow> (st, Err e)
      | Panic \<Rightarrow> (st, Panic))"

text \<open>
  A failed turn loses the round. When the turn that should poll a new round fails, the
  emitter is restarted, takes the new round as current, and its next turn against the same round
  sends nothing: this relayer never polls the round.
\<close>

theorem roundup_lost_after_error:
  assumes "roundup_tick env st = (st1, fs1, Err e)"
    and "roundup_start env' st1 = (st2, Ok ())"
    and "ru_latest_round env'' (client_chain_id (re_client st2)) = ru_latest_round env' (client_chain_id (re_client st1))"
  shows "fs1 = [] \<and> roundup_tick env'' st2 = (st2, [], Ok ())"
proof -
  have "fs1 = []"
    using assms(1) by (cases rule: roundup_tick_cases) auto
  moreover have "roundup_tick env'' st2 = (st2, [], Ok ())"
    using assms(2,3) by (auto simp: roundup_start_def roundup_tick_def ret_def split: res.splits)
  ultimately show ?thesis ..
qed

theorem roundup_lost_after_error_witness:
  "\<exists>st2. roundup_start (ex_roundup_env 5) \<lparr>current_round = 5, re_client = ex_client 3068 True\<rparr> = (st2, Ok ())
     \<and> roundup_tick (ex_roundup_env 5) st2 = (st2, [], Ok ())"
proof -
  let ?st = "\<lparr>current_round = 5, re_client = ex_client 3068 True\<rparr> :: RoundupEmitter"
  let ?env = "(ex_roundup_env 5)\<lparr>ru_previous_relayers := (\<lambda>_. Err RpcError)\<rparr>"
  have c: "client_chain_id (ex_client 3068 True) = 3068"
    by (simp add: client_chain_id_def ex_client_def ex_metadata_def)
  have l: "ru_latest_round (ex_roundup_env 5) 3068 = Ok 9"
    by (simp add: ex_roundup_env_def)
  have "fetch_validator_list ?env 9 = Err RpcError"
    by (simp add: fetch_validator_list_def ex_roundup_env_def ex_client_def ex_contracts_def)
  then have t: "roundup_tick ?env ?st = (?st, [], Err RpcError)"
    using c l by (simp add: roundup_tick_def)
  have s: "roundup_start (ex_roundup_env 5) ?st = (?st\<lparr>current_round := 9\<rparr>, Ok ())"
    using c l by (simp add: roundup_start_def)
  from roundup_lost_after_error [OF t s, of "ex_roundup_env 5"] s show ?thesis
    by auto
qed

text \<open>
  The emitter's bootstrap hangs when rounds advance during start-up. The round it compares
  with is read before the wait for all chains; if by the time the history is read the next round
  to poll lies more than one above it, no branch of the loop applies and it never ends.
\<close>

theorem phase1_bootstrap_hangs:
  assumes "current + 1 < nxt" and "current < nxt"
  shows "phase1_bootstrap env client polls current n nxt sent = None"
proof -
  have "\<not> (current + 1 < nxt \<and> current < nxt)"
    if "phase1_bootstrap env client polls current n nxt sent = Some y" for y
    using that
    by (rule phase1_bootstrap.raw_induct
        [where P = "\<lambda>env client polls current n nxt sent y. \<not> (current + 1 < nxt \<and> current < nxt)", rotated])
      (auto split: if_splits)
  with assms show ?thesis
    by (cases "phase1_bootstrap env client polls current n nxt sent") auto
qed

theorem phase1_bootstrap_hangs_witness:
  "phase1_bootstrap (ex_roundup_env 5) (ex_client 3068 True) (\<lambda>_. Ok 7) 5 0 7 [] = None"
  by (rule phase1_bootstrap_hangs) simp_all

text \<open>
  C34: Otherwise the emitter's bootstrap ends. If the next round to poll never overshoots the
  round after the current one and is eventually seen to reach it, and the polls in between
  succeed, the bootstrap ends successfully.
\<close>

lemma wait_next_round_finds:
  assumes "\<And>k. n \<le> k \<Longrightarrow> \<exists>v. polls k = Ok v \<and> v \<le> goal" and "\<exists>m \<ge> n. polls m = Ok goal" and "nxt < goal"
  shows "\<exists>m v. wait_next_round polls n nxt = Some (Ok (m, v)) \<and> n < m \<and> nxt < v \<and> v \<le> goal"
proof -
  obtain m where "n \<le> m" "polls m = Ok goal" using assms(2) by blast
  then show ?thesis
    using assms(1)
  proof (induction "m - n" arbitrary: n)
    case 0
    then show ?case
      using assms(3) by (subst wait_next_round.simps) auto
  next
    case (Suc d)
    obtain v where v: "polls n = Ok v" "v \<le> goal" using Suc.prems(3) [of n] by blast
    show ?case
    proof (cases "nxt < v")
      case True
      then show ?thesis using v by (subst wait_next_round.simps) auto
    next
      case False
      have "\<exists>m v. wait_next_round polls (Suc n) nxt = Some (Ok (m, v)) \<and> Suc n < m \<and> nxt < v \<and> v \<le> goal"
        using Suc by (intro Suc.hyps) auto
      then show ?thesis
        using False v by (subst wait_next_round.simps) auto
    qed
  qed
qed

theorem phase1_bootstrap_terminates:
  assumes "\<And>k. \<exists>v. polls k = Ok v \<and> v \<le> current + 1"
    and "\<And>n. \<exists>m \<ge> n. polls m = Ok (current + 1)"
    and "\<And>r. r \<le> current \<Longrightarrow> snd (phase1_poll env client r) = Ok ()"
    and "nxt \<le> current + 1" and "current < - 1"
  shows "\<exists>fs. phase1_bootstrap env client polls current n nxt sent = Some (fs, Ok ())"
  using assms(4)
proof (induction "unat (current + 1) - unat nxt" arbitrary: n nxt sent rule: less_induct)
  case less
  show ?case
  proof (cases "nxt = current + 1")
    case True
    then show ?thesis by (subst phase1_bootstrap.simps) simp
  next
    case False
    then have lt: "nxt < current + 1" using less.prems by simp
    have suc: "unat (current + 1) = Suc (unat current)"
      using assms(5) by (simp add: unat_word_ariths word_less_nat_alt)
    have le: "nxt \<le> current"
      using lt suc by (simp add: word_le_nat_alt word_less_nat_alt)
    obtain fs where poll: "phase1_poll env client nxt = (fs, Ok ())"
      using assms(3) [OF le] by (metis prod.collapse)
    obtain m v where w: "wait_next_round polls n nxt = Some (Ok (m, v))" "nxt < v" "v \<le> current + 1"
      using wait_next_round_finds [of n polls "current + 1" nxt] assms(1,2) lt by blast
    have "unat (current + 1) - unat v < unat (current + 1) - unat nxt"
      using w(2,3) lt by (simp add: word_le_nat_alt word_less_nat_alt)
    from less.hyps [OF this w(3), of m "sent @ fs"] obtain gs where
      "phase1_bootstrap env client polls current m v (sent @ fs) = Some (gs, Ok ())" by blast
    then show ?thesis
      using False le poll w(1) by (subst phase1_bootstrap.simps) auto
  qed
qed

theorem phase1_bootstrap_terminates_witness:
  "\<exists>fs. phase1_bootstrap (ex_roundup_env 5) (ex_client 3068 True) (\<lambda>_. Ok 6) 5 0 4 [] = Some (fs, Ok ())"
proof (rule phase1_bootstrap_terminates)
  fix r :: u256
  have "fetch_validator_list (ex_roundup_env 5) r = Ok [7]"
    by (simp add: fetch_validator_list_def ex_roundup_env_def ex_client_def ex_contracts_def)
  moreover have "\<exists>q. build_phase1_transaction (ex_roundup_env 5) (ex_client 3068 True) r [7] 7 = Ok q"
    by (simp add: build_phase1_transaction_def sign_message_def ex_roundup_env_def ex_client_def)
  ultimately show "snd (phase1_poll (ex_roundup_env 5) (ex_client 3068 True) r) = Ok ()"
    by (auto simp: phase1_poll_def ex_roundup_relay_as ex_roundup_selected phase1_send_def)
qed auto

text \<open>
  Phase 1 and phase 2 sign and verify the same bytes. When the relayers' emitters signed the
  sorted relayer set of a round, and the event names the same relayers in any order and the
  contract returns these signatures, then the relay built for the external chains carries the
  sorted relayer set and all the signatures ordered by the address that made them. Hypothesis on
  the signer: recovery inverts signing.
\<close>

theorem roundup_signatures_agree:
  assumes "\<And>a d sig. ru_sign env a d = Ok sig \<Longrightarrow> ru_recover env d sig = Ok a"
    and "mset announced = mset relayers"
    and "list_all2 (\<lambda>a sig. ru_sign env a
          (encode_roundup_param (ru_abi_encode_params env) rnd (sort relayers)) = Ok sig) signer_addresses sigs"
    and "ru_round_signatures env rnd = Ok (signatures_from_vec sigs)"
  shows "\<exists>ss. build_roundup_submit env rnd announced =
      Ok \<lparr>rus_round = rnd, rus_new_relayers = sort relayers, rus_sigs = signatures_from_vec ss\<rparr>
    \<and> mset ss = mset sigs
    \<and> map (ru_recover env (encode_roundup_param (ru_abi_encode_params env) rnd (sort relayers))) ss
        = map Ok (sort signer_addresses)"
proof -
  let ?data = "encode_roundup_param (ru_abi_encode_params env) rnd (sort relayers)"
  have sorted: "sort announced = sort relayers"
    using assms(2) by (metis mset_sort properties_for_sort sorted_sort)
  have "list_all2 (\<lambda>a sig. ru_recover env ?data sig = Ok a) signer_addresses sigs"
    using assms(3) by (rule list.rel_mono_strong) (rule assms(1))
  from sort_by_signer_signed [OF this] obtain ss where
    "sort_by_signer (ru_recover env ?data) (signatures_from_vec sigs) = Ok (signatures_from_vec ss)"
    "mset ss = mset sigs" "map (ru_recover env ?data) ss = map Ok (sort signer_addresses)"
    by blast
  then show ?thesis
    using assms(4) sorted by (auto simp: build_roundup_submit_def ru_get_sorted_signatures_def)
qed

theorem roundup_signatures_agree_witness:
  "\<exists>ss. build_roundup_submit ((ex_roundup_env 5)\<lparr>ru_sign := (\<lambda>a _. Ok (ex_sign a)),
        ru_recover := (\<lambda>_ sig. Ok (ucast (sig_r sig))),
        ru_round_signatures := (\<lambda>_. Ok (signatures_from_vec [ex_sign 9, ex_sign 7]))\<rparr>) 5 [9, 7] =
      Ok \<lparr>rus_round = 5, rus_new_relayers = [7, 9], rus_sigs = signatures_from_vec ss\<rparr>"
proof -
  let ?env = "(ex_roundup_env 5)\<lparr>ru_sign := (\<lambda>a _. Ok (ex_sign a)),
        ru_recover := (\<lambda>_ sig. Ok (ucast (sig_r sig))),
        ru_round_signatures := (\<lambda>_. Ok (signatures_from_vec [ex_sign 9, ex_sign 7]))\<rparr>"
  have "ucast (ucast a :: u256) = a" for a :: address
    by (rule bit_word_eqI) (simp add: bit_simps)
  then have rec: "ru_sign ?env a d = Ok sig \<Longrightarrow> ru_recover ?env d sig = Ok a" for a d sig
    by (auto simp: ex_sign_def)
  have "\<exists>ss. build_roundup_submit ?env 5 [9, 7] =
      Ok \<lparr>rus_round = 5, rus_new_relayers = sort [7, 9], rus_sigs = signatures_from_vec ss\<rparr>
    \<and> mset ss = mset [ex_sign 9, ex_sign 7]
    \<and> map (ru_recover ?env (encode_roundup_param (ru_abi_encode_params ?env) 5 (sort [7, 9]))) ss
        = map Ok (sort [9, 7])"
    by (rule roundup_signatures_agree [OF rec]) simp_all
  then show ?thesis by auto
qed

end
