(* ===== verification/Socket_Queue_Poller.thy ===== *)
theory Socket_Queue_Poller
  imports Socket_Pending
begin

text \<open>
  The relay-queue poller (\<open>client/src/eth/handlers/socket_queue_poller.rs\<close>): it votes for new
  transfers (\<open>on_flight_poll\<close>) and for finished ones (\<open>finalize_poll\<close>) in the runtime's relay
  queue, at most once each.
\<close>

section \<open>What the poller reads\<close>

text \<open>
  The queue's storage is read at the best block: the finalization voters of an on-flight transfer
  and the presence of a finalized one, by message hash, and the on-flight voters of a pending
  transfer by message hash and source transaction. Hashing, SCALE encoding and signing are
  third-party functions.
\<close>

record QueueEnv =
  q_client :: EthClient
  q_bifrost_client :: EthClient
  q_decode_socket :: "Log \<Rightarrow> Socket_Message option"
  q_socket_signature_hash :: b256
  q_abi_encode :: abi_encoder
  q_keccak256 :: "bytes \<Rightarrow> b256"
  q_scale_encode :: "bytes \<Rightarrow> b256 \<Rightarrow> b256 \<Rightarrow> bytes"
  q_max_message_bytes :: "u32 res"
  q_best_block :: "unit res"
  q_on_flight_transfers :: "b256 \<Rightarrow> address list option res"
  q_finalized_transfers :: "b256 \<Rightarrow> bool res"
  q_pending_transfers :: "b256 \<Rightarrow> b256 \<Rightarrow> address list option res"
  q_sign :: "address \<Rightarrow> bytes \<Rightarrow> Signature res"
  q_xt_open :: bool
  q_block_number :: "u64 res"
  q_get_logs :: "Filter \<Rightarrow> Log list res"

abbreviation q_encode :: "QueueEnv \<Rightarrow> Socket_Message \<Rightarrow> bytes" where
  "q_encode env \<equiv> encode_socket_message (q_abi_encode env)"

abbreviation q_msg_hash :: "QueueEnv \<Rightarrow> Socket_Message \<Rightarrow> b256" where
  "q_msg_hash env msg \<equiv> q_keccak256 env (q_encode env msg)"

section \<open>Operations\<close>

definition q_is_inbound :: "QueueEnv \<Rightarrow> chain_id \<Rightarrow> bool" where
  "q_is_inbound env dst \<longleftrightarrow> dst = client_chain_id (q_bifrost_client env)"

definition q_exceeds_max_socket_message_bytes :: "QueueEnv \<Rightarrow> Socket_Message \<Rightarrow> bool res" where
  "q_exceeds_max_socket_message_bytes env msg =
     bind_res (q_max_message_bytes env) (\<lambda>max_bytes. Ok (unat max_bytes < length (q_encode env msg)))"

definition should_skip_on_flight_poll :: "QueueEnv \<Rightarrow> b256 \<Rightarrow> b256 \<Rightarrow> bool res" where
  "should_skip_on_flight_poll env msg_hash src_tx_id =
     bind_res (q_best_block env) (\<lambda>_.
     bind_res (q_on_flight_transfers env msg_hash) (\<lambda>on_flight.
       if on_flight \<noteq> None then Ok True
       else
         bind_res (q_finalized_transfers env msg_hash) (\<lambda>finalized.
           if finalized then Ok True
           else
             bind_res (q_pending_transfers env msg_hash src_tx_id) (\<lambda>pending.
               case pending of
                 Some voters \<Rightarrow> Ok (default_address (q_client env) \<in> set voters)
               | None \<Rightarrow> Ok False))))"

definition should_skip_finalize_poll :: "QueueEnv \<Rightarrow> b256 \<Rightarrow> bool res" where
  "should_skip_finalize_poll env msg_hash =
     bind_res (q_best_block env) (\<lambda>_.
     bind_res (q_finalized_transfers env msg_hash) (\<lambda>finalized.
       if finalized then Ok True
       else
         bind_res (q_on_flight_transfers env msg_hash) (\<lambda>on_flight.
           case on_flight of
             Some voters \<Rightarrow> Ok (default_address (q_client env) \<in> set voters)
           | None \<Rightarrow> Ok False)))"

definition on_flight_payload :: "QueueEnv \<Rightarrow> bytes \<Rightarrow> b256 \<Rightarrow> bytes" where
  "on_flight_payload env encoded_msg src_tx_id =
     to_be_bytes 32 (q_keccak256 env (ascii ''OnFlightPoll''))
       @ q_scale_encode env encoded_msg (q_keccak256 env encoded_msg) src_tx_id"

definition submit_on_flight_poll ::
    "QueueEnv \<Rightarrow> bytes \<Rightarrow> OnFlightPollMetadata \<Rightarrow> b256 \<Rightarrow> (effect, unit) eff" where
  "submit_on_flight_poll env encoded_msg meta src_tx_id =
     bind_eff (lift (sign_message (q_sign env) (q_client env)
         (on_flight_payload env encoded_msg src_tx_id))) (\<lambda>signature.
       send_xt (q_xt_open env)
         (OnFlightPoll (default_address (q_client env)) encoded_msg (q_keccak256 env encoded_msg)
            src_tx_id signature)
         (XtOnFlightPoll meta))"

definition finalize_payload :: "QueueEnv \<Rightarrow> bytes \<Rightarrow> bytes" where
  "finalize_payload env encoded_msg =
     to_be_bytes 32 (q_keccak256 env (ascii ''FinalizePoll'')) @ encoded_msg"

definition submit_finalize_poll ::
    "QueueEnv \<Rightarrow> bytes \<Rightarrow> FinalizePollMetadata \<Rightarrow> (effect, unit) eff" where
  "submit_finalize_poll env encoded_msg meta =
     bind_eff (lift (sign_message (q_sign env) (q_client env) (finalize_payload env encoded_msg)))
       (\<lambda>signature.
          send_xt (q_xt_open env)
            (FinalizePoll (default_address (q_client env)) encoded_msg signature)
            (XtFinalizePoll meta))"

definition process_requested ::
    "QueueEnv \<Rightarrow> Socket_Message \<Rightarrow> bool \<Rightarrow> b256 \<Rightarrow> (effect, unit) eff" where
  "process_requested env msg is_inbound src_tx_id =
     bind_eff (lift (should_skip_on_flight_poll env (q_msg_hash env msg) src_tx_id)) (\<lambda>skip.
       if skip then ret ()
       else
         submit_on_flight_poll env (q_encode env msg)
           \<lparr>ofm_is_inbound = is_inbound, ofm_sequence = sequence (req_id msg),
            ofm_src_chain_id = src_chain_id msg, ofm_dst_chain_id = dst_chain_id msg\<rparr> src_tx_id)"

definition process_finalized ::
    "QueueEnv \<Rightarrow> Socket_Message \<Rightarrow> bool \<Rightarrow> SocketEventStatus \<Rightarrow> (effect, unit) eff" where
  "process_finalized env msg is_inbound status =
     (let requested_msg = msg\<lparr>msg_status := 1\<rparr>
      in bind_eff (lift (should_skip_finalize_poll env (q_msg_hash env requested_msg))) (\<lambda>skip.
           if skip then ret ()
           else
             submit_finalize_poll env (q_encode env msg)
               \<lparr>fpm_is_inbound = is_inbound, fpm_sequence = sequence (req_id msg),
                fpm_src_chain_id = src_chain_id msg, fpm_dst_chain_id = dst_chain_id msg,
                fpm_is_committed = (status = Committed \<or> status = Accepted)\<rparr>))"

definition q_process_confirmed_log :: "QueueEnv \<Rightarrow> Log \<Rightarrow> (effect, unit) eff" where
  "q_process_confirmed_log env log =
     (case q_decode_socket env log of
        None \<Rightarrow> ret ()
      | Some msg \<Rightarrow>
          bind_eff (lift (q_exceeds_max_socket_message_bytes env msg)) (\<lambda>oversized.
            if oversized then ret ()
            else
              bind_eff (lift (socket_status_from_u8 (msg_status msg))) (\<lambda>status.
                let is_inbound = q_is_inbound env (dst_chain_id msg);
                    src_tx_id = (case transaction_hash log of Some h \<Rightarrow> h | None \<Rightarrow> 0)
                in case status of
                     Requested \<Rightarrow> process_requested env msg is_inbound src_tx_id
                   | Committed \<Rightarrow> process_finalized env msg is_inbound status
                   | Rollbacked \<Rightarrow> process_finalized env msg is_inbound status
                   | Accepted \<Rightarrow>
                       if get_bitcoin_chain_id (q_bifrost_client env) = Some (src_chain_id msg)
                       then process_finalized env msg is_inbound status else ret ()
                   | _ \<Rightarrow> ret ())))"

definition q_is_target_contract :: "QueueEnv \<Rightarrow> Log \<Rightarrow> bool" where
  "q_is_target_contract env log =
     (case bitcoin_socket (protocol_contracts (q_client env)) of
        Some bs \<Rightarrow> log_address log = socket (protocol_contracts (q_client env)) \<or> log_address log = bs
      | None \<Rightarrow> log_address log = socket (protocol_contracts (q_client env)))"

definition q_is_target_event :: "QueueEnv \<Rightarrow> b256 option \<Rightarrow> bool" where
  "q_is_target_event env topic =
     (case topic of Some t \<Rightarrow> t = q_socket_signature_hash env | None \<Rightarrow> False)"

text \<open>One message of the event stream in \<open>run\<close>: the first failure ends the whole run.\<close>

definition q_on_event_message :: "QueueEnv \<Rightarrow> EventMessage \<Rightarrow> (effect, unit) eff" where
  "q_on_event_message env m =
     for_each (\<lambda>log.
         if q_is_target_contract env log \<and> q_is_target_event env (topic0 log)
         then q_process_confirmed_log env log else ret ()) (event_logs m)"

text \<open>
  Bootstrap fetches the same range as the relay handler, caches the logs for it (the second
  component; \<open>None\<close> when bootstrap is not configured) and processes each, logging errors.
\<close>

definition q_bootstrap_events ::
    "QueueEnv \<Rightarrow> BootstrapConfig option \<Rightarrow> (u64 \<Rightarrow> u64 res)
      \<Rightarrow> (Log list res \<times> Log list option) option" where
  "q_bootstrap_events env config offset_height =
     (case config of
        None \<Rightarrow> Some (Ok [], None)
      | Some cfg \<Rightarrow>
          (case bind_res (offset_height (case round_offset cfg of
                     Some n \<Rightarrow> n | None \<Rightarrow> DEFAULT_BOOTSTRAP_ROUND_OFFSET))
                  (\<lambda>h. bind_res (q_block_number env) (\<lambda>l. Ok (h, l))) of
             Ok (h, latest) \<Rightarrow>
               map_option (\<lambda>r. case r of Ok logs \<Rightarrow> (Ok logs, Some logs) | _ \<Rightarrow> (r, None))
                 (fetch_chunks
                   (\<lambda>a b. q_get_logs env
                      \<lparr>f_addresses = bootstrap_filter_addresses (q_client env),
                       f_event_signature = Some (q_socket_signature_hash env),
                       from_block = a, to_block = b\<rparr>)
                   (saturating_sub latest h) latest BOOTSTRAP_BLOCK_CHUNK_SIZE [])
           | Err e \<Rightarrow> Some (Err e, None)
           | Panic \<Rightarrow> Some (Panic, None)))"

definition q_bootstrap ::
    "QueueEnv \<Rightarrow> BootstrapConfig option \<Rightarrow> (u64 \<Rightarrow> u64 res)
      \<Rightarrow> ((effect, unit) eff \<times> Log list option) option" where
  "q_bootstrap env config offset_height =
     map_option (\<lambda>(logs, cache).
         (bind_eff (lift logs) (for_each (\<lambda>log. log_err (q_process_confirmed_log env log))), cache))
       (q_bootstrap_events env config offset_height)"

section \<open>Lemmas\<close>

lemma should_skip_on_flight_poll_False:
  "should_skip_on_flight_poll env h tx = Ok False \<longleftrightarrow>
     q_best_block env = Ok () \<and> q_on_flight_transfers env h = Ok None
   \<and> q_finalized_transfers env h = Ok False
   \<and> (q_pending_transfers env h tx = Ok None
      \<or> (\<exists>voters. q_pending_transfers env h tx = Ok (Some voters)
           \<and> default_address (q_client env) \<notin> set voters))"
  by (auto simp: should_skip_on_flight_poll_def bind_res_Ok_iff split: if_splits option.splits)

lemma should_skip_finalize_poll_False:
  "should_skip_finalize_poll env h = Ok False \<longleftrightarrow>
     q_best_block env = Ok () \<and> q_finalized_transfers env h = Ok False
   \<and> (q_on_flight_transfers env h = Ok None
      \<or> (\<exists>voters. q_on_flight_transfers env h = Ok (Some voters)
           \<and> default_address (q_client env) \<notin> set voters))"
  by (auto simp: should_skip_finalize_poll_def bind_res_Ok_iff split: if_splits option.splits)

lemma process_requested_mem:
  "f \<in> set (fst (process_requested env msg is_inbound tx)) \<Longrightarrow>
     should_skip_on_flight_poll env (q_msg_hash env msg) tx = Ok False
   \<and> (\<exists>sig meta. sign_message (q_sign env) (q_client env) (on_flight_payload env (q_encode env msg) tx) = Ok sig
      \<and> f = SendXt (XtRequestMessage_new
              (OnFlightPoll (default_address (q_client env)) (q_encode env msg) (q_msg_hash env msg) tx sig)
              (XtOnFlightPoll meta)))"
  by (auto simp: process_requested_def submit_on_flight_poll_def fst_bind_eff_mem split: if_splits)

lemma process_finalized_mem:
  "f \<in> set (fst (process_finalized env msg is_inbound status)) \<Longrightarrow>
     should_skip_finalize_poll env (q_msg_hash env (set_status Requested msg)) = Ok False
   \<and> (\<exists>sig. sign_message (q_sign env) (q_client env) (finalize_payload env (q_encode env msg)) = Ok sig
      \<and> f = SendXt (XtRequestMessage_new
              (FinalizePoll (default_address (q_client env)) (q_encode env msg) sig)
              (XtFinalizePoll
                 \<lparr>fpm_is_inbound = is_inbound, fpm_sequence = sequence (req_id msg),
                  fpm_src_chain_id = src_chain_id msg, fpm_dst_chain_id = dst_chain_id msg,
                  fpm_is_committed = (status = Committed \<or> status = Accepted)\<rparr>)))"
  by (auto simp: process_finalized_def submit_finalize_poll_def fst_bind_eff_mem Let_def set_status_def
      split: if_splits)

lemma q_process_confirmed_log_mem:
  assumes "f \<in> set (fst (q_process_confirmed_log env log))"
  obtains msg status is_inbound where "q_decode_socket env log = Some msg"
    and "q_exceeds_max_socket_message_bytes env msg = Ok False"
    and "socket_status_from_u8 (msg_status msg) = Ok status"
    and "status = Requested
          \<and> f \<in> set (fst (process_requested env msg is_inbound
                (case transaction_hash log of Some h \<Rightarrow> h | None \<Rightarrow> 0)))
       \<or> (status \<in> {Committed, Rollbacked}
            \<or> status = Accepted \<and> get_bitcoin_chain_id (q_bifrost_client env) = Some (src_chain_id msg))
          \<and> f \<in> set (fst (process_finalized env msg is_inbound status))"
proof -
  let ?tx = "case transaction_hash log of Some h \<Rightarrow> h | None \<Rightarrow> 0"
  obtain msg where d: "q_decode_socket env log = Some msg"
    using assms by (cases "q_decode_socket env log") (auto simp: q_process_confirmed_log_def)
  let ?in = "q_is_inbound env (dst_chain_id msg)"
  obtain status where e: "q_exceeds_max_socket_message_bytes env msg = Ok False"
    and st: "socket_status_from_u8 (msg_status msg) = Ok status"
    and f: "f \<in> set (fst (case status of
                     Requested \<Rightarrow> process_requested env msg ?in ?tx
                   | Committed \<Rightarrow> process_finalized env msg ?in status
                   | Rollbacked \<Rightarrow> process_finalized env msg ?in status
                   | Accepted \<Rightarrow>
                       if get_bitcoin_chain_id (q_bifrost_client env) = Some (src_chain_id msg)
                       then process_finalized env msg ?in status else ret ()
                   | _ \<Rightarrow> ret ()))"
    using assms unfolding q_process_confirmed_log_def d option.case Let_def
    by (auto simp: fst_bind_eff_mem split: if_splits)
  have "status = Requested \<and> f \<in> set (fst (process_requested env msg ?in ?tx))
      \<or> (status \<in> {Committed, Rollbacked}
          \<or> status = Accepted \<and> get_bitcoin_chain_id (q_bifrost_client env) = Some (src_chain_id msg))
        \<and> f \<in> set (fst (process_finalized env msg ?in status))"
    using f by (cases status) (auto split: if_splits)
  with d e st show thesis by (rule that)
qed

section \<open>Properties\<close>

definition ex_queue_env :: QueueEnv where
  "ex_queue_env =
     \<lparr>q_client = ex_client 1 False, q_bifrost_client = ex_client 3068 True,
      q_decode_socket = (\<lambda>log. case log_data log of [] \<Rightarrow> None | st # _ \<Rightarrow> Some (ex_message st)),
      q_socket_signature_hash = 5, q_abi_encode = (\<lambda>_. [1, 2, 3]),
      q_keccak256 = (\<lambda>bs. of_nat (length bs)), q_scale_encode = (\<lambda>bs _ _. bs),
      q_max_message_bytes = Ok 100, q_best_block = Ok (),
      q_on_flight_transfers = (\<lambda>_. Ok None), q_finalized_transfers = (\<lambda>_. Ok False),
      q_pending_transfers = (\<lambda>_ _. Ok None), q_sign = (\<lambda>_ _. Ok ex_signature), q_xt_open = True,
      q_block_number = Ok 100, q_get_logs = (\<lambda>_. Ok [])\<rparr>"

lemmas ex_queue_simps = ex_queue_env_def q_process_confirmed_log_def process_requested_def
  process_finalized_def q_exceeds_max_socket_message_bytes_def encode_socket_message_def
  should_skip_on_flight_poll_def should_skip_finalize_poll_def submit_on_flight_poll_def
  submit_finalize_poll_def sign_message_def ex_log_def ex_client_def send_xt_def Let_def

lemma ex_queue_requested:
  "\<exists>meta. fst (q_process_confirmed_log ex_queue_env (ex_log 11 1)) =
     [SendXt (XtRequestMessage_new (OnFlightPoll 7 [1, 2, 3] 3 1 ex_signature) meta)]"
  by (auto simp: ex_queue_simps)

lemma ex_queue_committed:
  "\<exists>meta. fst (q_process_confirmed_log ex_queue_env (ex_log 11 7)) =
     [SendXt (XtRequestMessage_new (FinalizePoll 7 [1, 2, 3] ex_signature) meta)]"
  by (auto simp: ex_queue_simps)

text \<open>
  C28: A vote for a new transfer is sound and not repeated. The poller submits an on-flight vote
  only for a requested message within the size limit that the queue holds neither as on-flight
  nor as finalized and that this relayer has not voted for under the same source transaction;
  the submission carries the encoded message, its hash, the transaction of the event, and a
  signature over the prefixed encoding of exactly these.
\<close>

theorem on_flight_vote_sound:
  assumes "SendXt x \<in> set (fst (q_process_confirmed_log env log))"
    and "xt_call x = OnFlightPoll who enc hash tx sig"
  shows "\<exists>msg. q_decode_socket env log = Some msg \<and> msg_status msg = 1
    \<and> q_exceeds_max_socket_message_bytes env msg = Ok False
    \<and> tx = (case transaction_hash log of Some h \<Rightarrow> h | None \<Rightarrow> 0)
    \<and> enc = encode_socket_message (q_abi_encode env) msg \<and> hash = q_keccak256 env enc
    \<and> who = default_address (q_client env)
    \<and> q_sign env who (on_flight_payload env enc tx) = Ok sig
    \<and> q_on_flight_transfers env hash = Ok None \<and> q_finalized_transfers env hash = Ok False
    \<and> (\<forall>voters. q_pending_transfers env hash tx = Ok (Some voters) \<longrightarrow> who \<notin> set voters)"
  using assms(1)
proof (cases rule: q_process_confirmed_log_mem)
  case (1 msg status is_inbound)
  from 1(4) assms(2) have "status = Requested"
    "SendXt x \<in> set (fst (process_requested env msg is_inbound
       (case transaction_hash log of Some h \<Rightarrow> h | None \<Rightarrow> 0)))"
    by (auto simp: XtRequestMessage_new_def dest: process_finalized_mem)
  with process_requested_mem [OF this(2)] 1 assms(2) show ?thesis
    by (auto simp: XtRequestMessage_new_def should_skip_on_flight_poll_False socket_code.decodes_iff
        sign_message_def split: if_splits)
qed

theorem on_flight_vote_sound_witness:
  "\<exists>msg. q_decode_socket ex_queue_env (ex_log 11 1) = Some msg \<and> msg_status msg = 1
    \<and> [1, 2, 3] = encode_socket_message (q_abi_encode ex_queue_env) msg"
proof -
  obtain meta where m: "fst (q_process_confirmed_log ex_queue_env (ex_log 11 1)) =
     [SendXt (XtRequestMessage_new (OnFlightPoll 7 [1, 2, 3] 3 1 ex_signature) meta)]"
    using ex_queue_requested by blast
  show ?thesis
    using on_flight_vote_sound [of "XtRequestMessage_new (OnFlightPoll 7 [1, 2, 3] 3 1 ex_signature) meta"
        ex_queue_env "ex_log 11 1" 7 "[1, 2, 3]" 3 1 ex_signature] m
    by (auto simp: XtRequestMessage_new_def)
qed



text \<open>
  The two votes agree on the transfer's key. If an on-flight vote for a request was submitted
  under a hash and the queue later holds that hash as finalized, or this relayer among the
  finalization voters of that hash, then no event that carries the same request in a later
  status makes the poller vote to finalize it again.
\<close>

theorem finalize_keyed_by_request:
  assumes "SendXt x \<in> set (fst (q_process_confirmed_log env log))"
    and "xt_call x = OnFlightPoll who enc hash tx sig"
    and "q_decode_socket env log = Some msg" and "q_decode_socket env' log' = Some (set_status s msg)"
    and "s \<noteq> Requested"
    and "q_abi_encode env' = q_abi_encode env" and "q_keccak256 env' = q_keccak256 env"
    and "q_finalized_transfers env' hash = Ok True
      \<or> q_on_flight_transfers env' hash = Ok (Some voters) \<and> default_address (q_client env') \<in> set voters"
  shows "fst (q_process_confirmed_log env' log') = []"
proof (rule ccontr)
  assume "fst (q_process_confirmed_log env' log') \<noteq> []"
  then obtain f where "f \<in> set (fst (q_process_confirmed_log env' log'))"
    by (meson last_in_set)
  then show False
  proof (cases rule: q_process_confirmed_log_mem)
    case (1 msg' status is_inbound)
    have hash: "msg_status msg = 1" "hash = q_msg_hash env msg"
      using assms(1-3)
      by (auto simp: XtRequestMessage_new_def socket_code.decodes_iff elim!: q_process_confirmed_log_mem
          dest!: process_requested_mem process_finalized_mem)
    have "msg' = set_status s msg" "status = s"
      using 1(1,3) assms(4) by (auto simp: socket_code.from_to)
    with 1(4) assms(5) have "f \<in> set (fst (process_finalized env' (set_status s msg) is_inbound s))"
      by auto
    from process_finalized_mem [OF this]
    have "should_skip_finalize_poll env' (q_msg_hash env' (set_status Requested msg)) = Ok False"
      by simp
    moreover have "set_status Requested msg = msg"
      using hash(1) by (cases msg) (simp add: set_status_def)
    ultimately show False
      using assms(6-8) hash(2) by (auto simp: should_skip_finalize_poll_False)
  qed
qed

theorem finalize_keyed_by_request_witness:
  "fst (q_process_confirmed_log (ex_queue_env\<lparr>q_finalized_transfers := (\<lambda>_. Ok True)\<rparr>) (ex_log 11 7)) = []"
proof -
  obtain meta where m: "fst (q_process_confirmed_log ex_queue_env (ex_log 11 1)) =
     [SendXt (XtRequestMessage_new (OnFlightPoll 7 [1, 2, 3] 3 1 ex_signature) meta)]"
    using ex_queue_requested by blast
  show ?thesis
  proof (rule finalize_keyed_by_request)
    show "SendXt (XtRequestMessage_new (OnFlightPoll 7 [1, 2, 3] 3 1 ex_signature) meta)
        \<in> set (fst (q_process_confirmed_log ex_queue_env (ex_log 11 1)))"
      by (simp add: m)
    show "q_decode_socket ex_queue_env (ex_log 11 1) = Some (ex_message 1)"
      by (simp add: ex_queue_env_def ex_log_def)
    show "q_decode_socket (ex_queue_env\<lparr>q_finalized_transfers := (\<lambda>_. Ok True)\<rparr>) (ex_log 11 7)
        = Some (set_status Committed (ex_message 1))"
      by (simp add: ex_queue_env_def ex_log_def set_status_def ex_message_def)
  qed (auto simp: XtRequestMessage_new_def)
qed

end
