(* ===== verification/Bootstrap.thy ===== *)
theory Bootstrap
  imports Socket_Queue_Poller "HOL-Library.AList"
begin

text \<open>
  The start-up protocol. Every chain carries a bootstrap state in a table that all tasks share
  (\<open>primitives/src/bootstrap.rs\<close>); the event managers, the round-up emitter and relay handler,
  the queue pollers, the socket relay handlers and the Bitcoin block manager wait on that table
  and advance it (\<open>client/src/eth/traits.rs\<close>, \<open>BootstrapHandler\<close>). The model gives each task
  a program counter and lets the tasks interleave freely, failures and restarts included.
\<close>

section \<open>Shared data\<close>

text \<open>
  The \<open>BTreeMap\<close> of states is an association list with distinct keys: its order is never
  observed.
\<close>

record BootstrapSharedData =
  roundup_barrier :: nat
  bootstrap_states :: "(chain_id \<times> BootstrapState) list"
  bootstrap_config :: "BootstrapConfig option"
  bootstrap_socket_logs :: "(chain_id \<times> Log list) list"
  bootstrap_roundup_logs :: "Log list option"
  cccp_relay_queue_enabled :: bool

definition new_states_with :: "chain_id list \<Rightarrow> BootstrapState \<Rightarrow> (chain_id \<times> BootstrapState) list" where
  "new_states_with ids st = fold (\<lambda>c m. AList.update c st m) ids []"

definition external_providers :: "EVMProvider list \<Rightarrow> EVMProvider list" where
  "external_providers ps = filter (\<lambda>p. ep_is_native p \<noteq> Some True) ps"

definition BootstrapSharedData_new ::
    "EVMProvider list \<Rightarrow> chain_id \<Rightarrow> BootstrapConfig option \<Rightarrow> BootstrapSharedData" where
  "BootstrapSharedData_new evm_providers btc_id config =
     \<lparr>roundup_barrier = length (external_providers evm_providers) + 1,
      bootstrap_states =
        new_states_with (map ep_id evm_providers @ [btc_id])
          (case config of
             Some cfg \<Rightarrow> if is_enabled cfg then NodeSyncing else NormalStart
           | None \<Rightarrow> NormalStart),
      bootstrap_config = config,
      bootstrap_socket_logs = [],
      bootstrap_roundup_logs = None,
      cccp_relay_queue_enabled = True\<rparr>"

definition set_bootstrap_socket_logs ::
    "chain_id \<Rightarrow> Log list \<Rightarrow> BootstrapSharedData \<Rightarrow> BootstrapSharedData" where
  "set_bootstrap_socket_logs chain logs d =
     d\<lparr>bootstrap_socket_logs := AList.update chain logs (bootstrap_socket_logs d)\<rparr>"

definition take_bootstrap_socket_logs ::
    "chain_id \<Rightarrow> BootstrapSharedData \<Rightarrow> Log list option \<times> BootstrapSharedData" where
  "take_bootstrap_socket_logs chain d =
     (map_of (bootstrap_socket_logs d) chain,
      d\<lparr>bootstrap_socket_logs := AList.delete chain (bootstrap_socket_logs d)\<rparr>)"

definition set_bootstrap_roundup_logs :: "Log list \<Rightarrow> BootstrapSharedData \<Rightarrow> BootstrapSharedData" where
  "set_bootstrap_roundup_logs logs d = d\<lparr>bootstrap_roundup_logs := Some logs\<rparr>"

definition take_bootstrap_roundup_logs ::
    "BootstrapSharedData \<Rightarrow> Log list option \<times> BootstrapSharedData" where
  "take_bootstrap_roundup_logs d =
     (bootstrap_roundup_logs d, d\<lparr>bootstrap_roundup_logs := None\<rparr>)"

text \<open>
  Both caches hand a value over once: what was put last is taken, and a second take finds nothing.
\<close>

locale handover_cache =
  fixes put :: "'v \<Rightarrow> 's \<Rightarrow> 's"
    and tak :: "'s \<Rightarrow> 'v option \<times> 's"
  assumes take_put: "fst (tak (put v s)) = Some v"
    and take_take: "fst (tak (snd (tak s))) = None"
begin

lemma latest_wins: "fst (tak (put v (put w s))) = Some v"
  by (rule take_put)

lemma handed_over_once:
  "fst (tak (put v s)) = Some v \<and> fst (tak (snd (tak (put v s)))) = None"
  by (simp add: take_put take_take)

end

interpretation socket_log_cache: handover_cache "set_bootstrap_socket_logs c" "take_bootstrap_socket_logs c" for c
  by unfold_locales
    (simp_all add: set_bootstrap_socket_logs_def take_bootstrap_socket_logs_def update_conv' delete_conv')

interpretation roundup_log_cache: handover_cache set_bootstrap_roundup_logs take_bootstrap_roundup_logs
  by unfold_locales (simp_all add: set_bootstrap_roundup_logs_def take_bootstrap_roundup_logs_def)

section \<open>The bootstrap handler's operations\<close>

definition set_bootstrap_state ::
    "chain_id \<Rightarrow> BootstrapState \<Rightarrow> BootstrapSharedData \<Rightarrow> BootstrapSharedData res" where
  "set_bootstrap_state chain st d =
     (case map_of (bootstrap_states d) chain of
        None \<Rightarrow> Panic
      | Some _ \<Rightarrow> Ok (d\<lparr>bootstrap_states := AList.update chain st (bootstrap_states d)\<rparr>))"

definition is_before_bootstrap_state ::
    "chain_id \<Rightarrow> BootstrapState \<Rightarrow> BootstrapSharedData \<Rightarrow> bool res" where
  "is_before_bootstrap_state chain st d =
     bind_res (unwrap (map_of (bootstrap_states d) chain)) (\<lambda>cur. Ok (cur < st))"

text \<open>One round of the waiting loops: whether the loop ends with this reading of the table.\<close>

definition bootstrap_state_reached ::
    "chain_id \<Rightarrow> BootstrapState \<Rightarrow> BootstrapSharedData \<Rightarrow> bool res" where
  "bootstrap_state_reached chain st d =
     bind_res (unwrap (map_of (bootstrap_states d) chain)) (\<lambda>cur. Ok (cur = st))"

definition all_chains_bootstrapped :: "BootstrapSharedData \<Rightarrow> bool" where
  "all_chains_bootstrapped d = list_all (\<lambda>(c, s). s = NormalStart) (bootstrap_states d)"

definition all_external_in_phase1 :: "chain_id \<Rightarrow> BootstrapSharedData \<Rightarrow> bool" where
  "all_external_in_phase1 btc d =
     list_all (\<lambda>(c, s). if c \<noteq> btc then s = BootstrapRoundUpPhase1 else True) (bootstrap_states d)"

definition set_all_except ::
    "chain_id \<Rightarrow> BootstrapState \<Rightarrow> BootstrapSharedData \<Rightarrow> BootstrapSharedData" where
  "set_all_except btc st d =
     d\<lparr>bootstrap_states := map (\<lambda>(c, s). if c \<noteq> btc then (c, st) else (c, s)) (bootstrap_states d)\<rparr>"

section \<open>The tasks\<close>

text \<open>
  Where a task stands: at the head of its \<open>run\<close>, in its waiting loop, doing its bootstrap work,
  or past its bootstrap (in \<open>wait_for_all_chains_bootstrapped\<close> or in its main loop). The
  round-up relay handler also waits at the barrier, where it is joined by one spawned task per
  external chain; \<open>bootstrap_0\<close> of a manager has a counter of its own.
\<close>

datatype task = TStart | TWait | TWork | TBarrier | TRun

datatype manager_task = MInit | MSync | MFlush | MRun

record BootTopology =
  tp_providers :: "EVMProvider list"
  tp_watch_list :: "chain_id list"
  tp_bifrost :: chain_id
  tp_btc :: chain_id

definition tp_evm :: "BootTopology \<Rightarrow> chain_id list" where
  "tp_evm tp = map ep_id (tp_providers tp)"

definition tp_external :: "BootTopology \<Rightarrow> chain_id list" where
  "tp_external tp = map ep_id (external_providers (tp_providers tp))"

record BootSystem =
  shared :: BootstrapSharedData
  event_manager_at :: "chain_id \<Rightarrow> manager_task"
  emitter_at :: task
  roundup_at :: task
  barrier_arrivals :: "chain_id list"
  poller_at :: "chain_id \<Rightarrow> task"
  relay_at :: "chain_id \<Rightarrow> task"
  block_manager_at :: manager_task
  btc_at :: task
  onflight_at :: task

text \<open>\<open>run\<close>'s first test: only a chain that is before \<open>NormalStart\<close> is bootstrapped.\<close>

definition start_task :: "chain_id \<Rightarrow> BootstrapSharedData \<Rightarrow> task option" where
  "start_task chain d =
     (case is_before_bootstrap_state chain NormalStart d of
        Ok True \<Rightarrow> Some TWait | Ok False \<Rightarrow> Some TRun | _ \<Rightarrow> None)"

definition event_manager_bootstrap_0 :: "chain_id \<Rightarrow> BootSystem \<Rightarrow> BootSystem option" where
  "event_manager_bootstrap_0 c s =
     (case event_manager_at s c of
        MInit \<Rightarrow>
          (case is_before_bootstrap_state c NormalStart (shared s) of
             Ok b \<Rightarrow> Some (s\<lparr>event_manager_at := (event_manager_at s)(c := if b then MSync else MRun)\<rparr>)
           | _ \<Rightarrow> None)
      | MSync \<Rightarrow>
          (case set_bootstrap_state c FlushingStalledTransactions (shared s) of
             Ok d \<Rightarrow> Some (s\<lparr>shared := d, event_manager_at := (event_manager_at s)(c := MFlush)\<rparr>)
           | _ \<Rightarrow> None)
      | MFlush \<Rightarrow>
          (case set_bootstrap_state c BootstrapRoundUpPhase1 (shared s) of
             Ok d \<Rightarrow> Some (s\<lparr>shared := d, event_manager_at := (event_manager_at s)(c := MRun)\<rparr>)
           | _ \<Rightarrow> None)
      | MRun \<Rightarrow> None)"

text \<open>
  The emitter's bootstrap events are fetched, and cached, at least once before it moves the
  chains on; \<open>logs\<close> is the last fetch. Without a bootstrap configuration it panics.
\<close>

definition emitter_bootstrap :: "BootTopology \<Rightarrow> Log list \<Rightarrow> BootSystem \<Rightarrow> BootSystem option" where
  "emitter_bootstrap tp logs s =
     (case emitter_at s of
        TStart \<Rightarrow> map_option (\<lambda>t. s\<lparr>emitter_at := t\<rparr>) (start_task (tp_bifrost tp) (shared s))
      | TWait \<Rightarrow>
          if all_external_in_phase1 (tp_btc tp) (shared s) then Some (s\<lparr>emitter_at := TWork\<rparr>) else None
      | TWork \<Rightarrow>
          (case bootstrap_config (shared s) of
             None \<Rightarrow> None
           | Some _ \<Rightarrow>
               Some (s\<lparr>shared := set_all_except (tp_btc tp) BootstrapRoundUpPhase2
                                   (set_bootstrap_roundup_logs logs (shared s)),
                       emitter_at := TRun\<rparr>))
      | _ \<Rightarrow> None)"

definition roundup_bootstrap :: "BootTopology \<Rightarrow> BootSystem \<Rightarrow> BootSystem option" where
  "roundup_bootstrap tp s =
     (case roundup_at s of
        TStart \<Rightarrow> map_option (\<lambda>t. s\<lparr>roundup_at := t\<rparr>) (start_task (tp_bifrost tp) (shared s))
      | TWait \<Rightarrow>
          (case bootstrap_state_reached (tp_bifrost tp) BootstrapRoundUpPhase2 (shared s) of
             Ok True \<Rightarrow>
               Some (s\<lparr>shared := snd (take_bootstrap_roundup_logs (shared s)), roundup_at := TWork\<rparr>)
           | _ \<Rightarrow> None)
      | TWork \<Rightarrow> Some (s\<lparr>roundup_at := TBarrier\<rparr>)
      | TBarrier \<Rightarrow>
          if length (barrier_arrivals s) + 1 = roundup_barrier (shared s)
          then Some (s\<lparr>shared := set_all_except (tp_btc tp)
                                  (if cccp_relay_queue_enabled (shared s)
                                   then BootstrapSocketRelayQueue else BootstrapSocketRelay) (shared s),
                       roundup_at := TRun\<rparr>)
          else None
      | TRun \<Rightarrow> None)"

text \<open>The task spawned for an external chain, once its authority has caught up with Bifrost's.\<close>

definition wait_if_latest_round :: "BootTopology \<Rightarrow> chain_id \<Rightarrow> BootSystem \<Rightarrow> BootSystem option" where
  "wait_if_latest_round tp c s =
     (if roundup_at s = TBarrier \<and> c \<in> set (tp_external tp) \<and> c \<notin> set (barrier_arrivals s)
      then Some (s\<lparr>barrier_arrivals := c # barrier_arrivals s\<rparr>) else None)"

text \<open>The poller caches what it fetched, processes it, and hands the chain to the relay handler.\<close>

definition poller_bootstrap ::
    "BootTopology \<Rightarrow> chain_id \<Rightarrow> Log list \<Rightarrow> BootSystem \<Rightarrow> BootSystem option" where
  "poller_bootstrap tp c logs s =
     (if c \<notin> set (tp_watch_list tp) \<or> \<not> cccp_relay_queue_enabled (shared s) then None
      else case poller_at s c of
        TStart \<Rightarrow> map_option (\<lambda>t. s\<lparr>poller_at := (poller_at s)(c := t)\<rparr>) (start_task c (shared s))
      | TWait \<Rightarrow>
          (case bootstrap_state_reached c BootstrapSocketRelayQueue (shared s) of
             Ok True \<Rightarrow> Some (s\<lparr>poller_at := (poller_at s)(c := TWork)\<rparr>)
           | _ \<Rightarrow> None)
      | TWork \<Rightarrow>
          (case set_bootstrap_state c BootstrapSocketRelay
                  (if bootstrap_config (shared s) = None then shared s
                   else set_bootstrap_socket_logs c logs (shared s)) of
             Ok d \<Rightarrow> Some (s\<lparr>shared := d, poller_at := (poller_at s)(c := TRun)\<rparr>)
           | _ \<Rightarrow> None)
      | _ \<Rightarrow> None)"

definition relay_handler_bootstrap :: "BootTopology \<Rightarrow> chain_id \<Rightarrow> BootSystem \<Rightarrow> BootSystem option" where
  "relay_handler_bootstrap tp c s =
     (if c \<notin> set (tp_watch_list tp) then None
      else case relay_at s c of
        TStart \<Rightarrow> map_option (\<lambda>t. s\<lparr>relay_at := (relay_at s)(c := t)\<rparr>) (start_task c (shared s))
      | TWait \<Rightarrow>
          (case bootstrap_state_reached c BootstrapSocketRelay (shared s) of
             Ok True \<Rightarrow>
               Some (s\<lparr>shared := snd (take_bootstrap_socket_logs c (shared s)),
                       relay_at := (relay_at s)(c := TWork)\<rparr>)
           | _ \<Rightarrow> None)
      | TWork \<Rightarrow>
          (case set_bootstrap_state c NormalStart (shared s) of
             Ok d \<Rightarrow> Some (s\<lparr>shared := d, relay_at := (relay_at s)(c := TRun)\<rparr>)
           | _ \<Rightarrow> None)
      | _ \<Rightarrow> None)"

definition block_manager_bootstrap_0 :: "BootTopology \<Rightarrow> BootSystem \<Rightarrow> BootSystem option" where
  "block_manager_bootstrap_0 tp s =
     (case block_manager_at s of
        MInit \<Rightarrow>
          (case is_before_bootstrap_state (tp_btc tp) NormalStart (shared s) of
             Ok b \<Rightarrow> Some (s\<lparr>block_manager_at := if b then MSync else MRun\<rparr>)
           | _ \<Rightarrow> None)
      | MSync \<Rightarrow>
          (case set_bootstrap_state (tp_btc tp) BootstrapSocketRelay (shared s) of
             Ok d \<Rightarrow> Some (s\<lparr>shared := d, block_manager_at := MRun\<rparr>)
           | _ \<Rightarrow> None)
      | _ \<Rightarrow> None)"

definition block_manager_bootstrap :: "BootTopology \<Rightarrow> BootSystem \<Rightarrow> BootSystem option" where
  "block_manager_bootstrap tp s =
     (if block_manager_at s \<noteq> MRun then None
      else case btc_at s of
        TStart \<Rightarrow> map_option (\<lambda>t. s\<lparr>btc_at := t\<rparr>) (start_task (tp_btc tp) (shared s))
      | TWait \<Rightarrow>
          (case bootstrap_state_reached (tp_btc tp) BootstrapSocketRelay (shared s) of
             Ok True \<Rightarrow> Some (s\<lparr>btc_at := TWork\<rparr>)
           | _ \<Rightarrow> None)
      | TWork \<Rightarrow>
          (case set_bootstrap_state (tp_btc tp) NormalStart (shared s) of
             Ok d \<Rightarrow> Some (s\<lparr>shared := d, btc_at := TRun\<rparr>)
           | _ \<Rightarrow> None)
      | _ \<Rightarrow> None)"

text \<open>
  The on-flight handler tests the configuration instead of the table, and waits on the Bifrost
  chain without ever moving it.
\<close>

definition onflight_bootstrap_wait :: "BootTopology \<Rightarrow> BootSystem \<Rightarrow> BootSystem option" where
  "onflight_bootstrap_wait tp s =
     (case onflight_at s of
        TStart \<Rightarrow>
          Some (s\<lparr>onflight_at :=
                   if (case bootstrap_config (shared s) of Some c \<Rightarrow> is_enabled c | None \<Rightarrow> False)
                   then TWait else TRun\<rparr>)
      | TWait \<Rightarrow>
          (case bootstrap_state_reached (tp_bifrost tp) BootstrapSocketRelay (shared s) of
             Ok True \<Rightarrow> Some (s\<lparr>onflight_at := TRun\<rparr>)
           | _ \<Rightarrow> None)
      | _ \<Rightarrow> None)"

text \<open>
  A task whose \<open>run\<close> returns an error is started again from its head. Bootstrap work can fail,
  and so can a main loop; the two waiting loops never return an error.
\<close>

definition restart_task :: "bool \<Rightarrow> task \<Rightarrow> task option" where
  "restart_task in_main_loop t =
     (if t = TWork \<or> (t = TRun \<and> in_main_loop) then Some TStart else None)"

datatype boot_action =
    EventManagerStep chain_id
  | EmitterStep "Log list"
  | RoundupStep
  | CaughtUp chain_id
  | PollerStep chain_id "Log list"
  | RelayStep chain_id
  | BlockManagerStep0
  | BlockManagerStep
  | OnflightStep
  | EmitterFails
  | RoundupFails
  | PollerFails chain_id
  | RelayFails chain_id
  | BlockManagerFails
  | OnflightFails

fun boot_exec :: "BootTopology \<Rightarrow> boot_action \<Rightarrow> BootSystem \<Rightarrow> BootSystem option" where
  "boot_exec tp (EventManagerStep c) s =
     (if c \<in> set (tp_evm tp) then event_manager_bootstrap_0 c s else None)"
| "boot_exec tp (EmitterStep logs) s = emitter_bootstrap tp logs s"
| "boot_exec tp RoundupStep s = roundup_bootstrap tp s"
| "boot_exec tp (CaughtUp c) s = wait_if_latest_round tp c s"
| "boot_exec tp (PollerStep c logs) s = poller_bootstrap tp c logs s"
| "boot_exec tp (RelayStep c) s = relay_handler_bootstrap tp c s"
| "boot_exec tp BlockManagerStep0 s = block_manager_bootstrap_0 tp s"
| "boot_exec tp BlockManagerStep s = block_manager_bootstrap tp s"
| "boot_exec tp OnflightStep s = onflight_bootstrap_wait tp s"
| "boot_exec tp EmitterFails s =
     map_option (\<lambda>t. s\<lparr>emitter_at := t\<rparr>) (restart_task True (emitter_at s))"
| "boot_exec tp RoundupFails s =
     map_option (\<lambda>t. s\<lparr>roundup_at := t\<rparr>)
       (restart_task (all_chains_bootstrapped (shared s)) (roundup_at s))"
| "boot_exec tp (PollerFails c) s =
     map_option (\<lambda>t. s\<lparr>poller_at := (poller_at s)(c := t)\<rparr>)
       (restart_task (all_chains_bootstrapped (shared s)) (poller_at s c))"
| "boot_exec tp (RelayFails c) s =
     map_option (\<lambda>t. s\<lparr>relay_at := (relay_at s)(c := t)\<rparr>)
       (restart_task (all_chains_bootstrapped (shared s)) (relay_at s c))"
| "boot_exec tp BlockManagerFails s =
     map_option (\<lambda>t. s\<lparr>btc_at := t\<rparr>)
       (restart_task (all_chains_bootstrapped (shared s)) (btc_at s))"
| "boot_exec tp OnflightFails s =
     map_option (\<lambda>t. s\<lparr>onflight_at := t\<rparr>) (restart_task True (onflight_at s))"

definition boot_init :: "BootTopology \<Rightarrow> BootstrapConfig option \<Rightarrow> bool \<Rightarrow> BootSystem" where
  "boot_init tp config queue_enabled =
     \<lparr>shared = (BootstrapSharedData_new (tp_providers tp) (tp_btc tp) config)
                 \<lparr>cccp_relay_queue_enabled := queue_enabled\<rparr>,
      event_manager_at = (\<lambda>_. MInit), emitter_at = TStart, roundup_at = TStart,
      barrier_arrivals = [], poller_at = (\<lambda>_. TStart), relay_at = (\<lambda>_. TStart),
      block_manager_at = MInit, btc_at = TStart, onflight_at = TStart\<rparr>"

inductive boot_reachable :: "BootTopology \<Rightarrow> BootSystem \<Rightarrow> BootSystem \<Rightarrow> bool" for tp where
  boot_refl: "boot_reachable tp s s"
| boot_step: "boot_reachable tp s t \<Longrightarrow> boot_exec tp a t = Some u \<Longrightarrow> boot_reachable tp s u"

section \<open>Reading the table\<close>

abbreviation chain_state :: "BootSystem \<Rightarrow> chain_id \<Rightarrow> BootstrapState option" where
  "chain_state s \<equiv> map_of (bootstrap_states (shared s))"

lemma lt_NormalStart [simp]: "st < NormalStart \<longleftrightarrow> st \<noteq> NormalStart"
  by (cases st) (simp_all add: bootstrap_order)

lemma start_task_Some:
  "map_of (bootstrap_states d) c = Some b \<Longrightarrow>
     start_task c d = Some (if b = NormalStart then TRun else TWait)"
  by (simp add: start_task_def is_before_bootstrap_state_def)

lemma set_bootstrap_state_Some:
  "map_of (bootstrap_states d) c = Some b \<Longrightarrow>
     set_bootstrap_state c st d = Ok (d\<lparr>bootstrap_states := AList.update c st (bootstrap_states d)\<rparr>)"
  by (simp add: set_bootstrap_state_def)

lemma bootstrap_state_reached_Some:
  "map_of (bootstrap_states d) c = Some b \<Longrightarrow> bootstrap_state_reached c st d = Ok (b = st)"
  by (simp add: bootstrap_state_reached_def)

lemma map_of_set_all_except:
  "map_of (bootstrap_states (set_all_except btc st d)) c =
     (if c = btc then map_of (bootstrap_states d) c
      else map_option (\<lambda>_. st) (map_of (bootstrap_states d) c))"
proof -
  have "map_of (map (\<lambda>(c, s). if c \<noteq> btc then (c, st) else (c, s)) al) c =
      (if c = btc then map_of al c else map_option (\<lambda>_. st) (map_of al c))" for al
    by (induction al) auto
  then show ?thesis by (simp add: set_all_except_def)
qed

lemma keys_set_all_except [simp]:
  "map fst (bootstrap_states (set_all_except btc st d)) = map fst (bootstrap_states d)"
  by (auto simp: set_all_except_def)

lemma shared_frame [simp]:
  "roundup_barrier (set_all_except btc st d) = roundup_barrier d"
  "bootstrap_config (set_all_except btc st d) = bootstrap_config d"
  "cccp_relay_queue_enabled (set_all_except btc st d) = cccp_relay_queue_enabled d"
  "bootstrap_states (set_bootstrap_roundup_logs logs d) = bootstrap_states d"
  "bootstrap_states (snd (take_bootstrap_roundup_logs d)) = bootstrap_states d"
  "bootstrap_states (set_bootstrap_socket_logs c logs d) = bootstrap_states d"
  "bootstrap_states (snd (take_bootstrap_socket_logs c d)) = bootstrap_states d"
  "roundup_barrier (set_bootstrap_roundup_logs logs d) = roundup_barrier d"
  "roundup_barrier (snd (take_bootstrap_roundup_logs d)) = roundup_barrier d"
  "roundup_barrier (set_bootstrap_socket_logs c logs d) = roundup_barrier d"
  "roundup_barrier (snd (take_bootstrap_socket_logs c d)) = roundup_barrier d"
  "bootstrap_config (set_bootstrap_roundup_logs logs d) = bootstrap_config d"
  "bootstrap_config (snd (take_bootstrap_roundup_logs d)) = bootstrap_config d"
  "bootstrap_config (set_bootstrap_socket_logs c logs d) = bootstrap_config d"
  "bootstrap_config (snd (take_bootstrap_socket_logs c d)) = bootstrap_config d"
  "cccp_relay_queue_enabled (set_bootstrap_roundup_logs logs d) = cccp_relay_queue_enabled d"
  "cccp_relay_queue_enabled (snd (take_bootstrap_roundup_logs d)) = cccp_relay_queue_enabled d"
  "cccp_relay_queue_enabled (set_bootstrap_socket_logs c logs d) = cccp_relay_queue_enabled d"
  "cccp_relay_queue_enabled (snd (take_bootstrap_socket_logs c d)) = cccp_relay_queue_enabled d"
  by (simp_all add: set_all_except_def set_bootstrap_roundup_logs_def take_bootstrap_roundup_logs_def
      set_bootstrap_socket_logs_def take_bootstrap_socket_logs_def)

lemma map_of_new_states: "map_of (new_states_with ids st) = (\<lambda>c. if c \<in> set ids then Some st else None)"
proof -
  have "map_of (fold (\<lambda>c m. AList.update c st m) ids al) =
      (\<lambda>c. if c \<in> set ids then Some st else map_of al c)" for al
    by (induction ids arbitrary: al) (auto simp: update_conv')
  then show ?thesis by (auto simp: new_states_with_def fun_eq_iff)
qed

lemma distinct_new_states: "distinct (map fst (new_states_with ids st))"
proof -
  have "distinct (map fst al) \<Longrightarrow> distinct (map fst (fold (\<lambda>c m. AList.update c st m) ids al))" for al
    by (induction ids arbitrary: al) (auto simp: distinct_update)
  then show ?thesis by (simp add: new_states_with_def)
qed

lemma list_all_map_of:
  "distinct (map fst al) \<Longrightarrow> list_all P al \<longleftrightarrow> (\<forall>c s. map_of al c = Some s \<longrightarrow> P (c, s))"
  by (auto simp: list_all_iff)

section \<open>The invariant\<close>

text \<open>
  What the state of one chain says of the tasks that work on it: each state names the only task
  that may be at work, and every task whose turn has passed is done.
\<close>

fun chain_ok :: "bool \<Rightarrow> BootstrapState \<Rightarrow> manager_task \<Rightarrow> task \<Rightarrow> task \<Rightarrow> bool" where
  "chain_ok q NodeSyncing em po re \<longleftrightarrow> em \<in> {MInit, MSync} \<and> po \<in> {TStart, TWait} \<and> re \<in> {TStart, TWait}"
| "chain_ok q FlushingStalledTransactions em po re \<longleftrightarrow>
     em = MFlush \<and> po \<in> {TStart, TWait} \<and> re \<in> {TStart, TWait}"
| "chain_ok q BootstrapRoundUpPhase1 em po re \<longleftrightarrow>
     em = MRun \<and> po \<in> {TStart, TWait} \<and> re \<in> {TStart, TWait}"
| "chain_ok q BootstrapRoundUpPhase2 em po re \<longleftrightarrow>
     em = MRun \<and> po \<in> {TStart, TWait} \<and> re \<in> {TStart, TWait}"
| "chain_ok q BootstrapSocketRelayQueue em po re \<longleftrightarrow>
     em = MRun \<and> q \<and> po \<in> {TStart, TWait, TWork} \<and> re \<in> {TStart, TWait}"
| "chain_ok q BootstrapSocketRelay em po re \<longleftrightarrow>
     em = MRun \<and> (if q then po = TRun else po \<in> {TStart, TWait}) \<and> re \<in> {TStart, TWait, TWork}"
| "chain_ok q NormalStart em po re \<longleftrightarrow>
     em = MRun \<and> (if q then po \<in> {TStart, TRun} else po \<in> {TStart, TWait}) \<and> re \<in> {TStart, TRun}"

fun btc_ok :: "BootstrapState \<Rightarrow> manager_task \<Rightarrow> task \<Rightarrow> bool" where
  "btc_ok NodeSyncing bm t \<longleftrightarrow> bm \<in> {MInit, MSync} \<and> t = TStart"
| "btc_ok BootstrapSocketRelay bm t \<longleftrightarrow> bm = MRun \<and> t \<in> {TStart, TWait, TWork}"
| "btc_ok NormalStart bm t \<longleftrightarrow> bm = MRun \<and> t \<in> {TStart, TRun}"
| "btc_ok _ bm t \<longleftrightarrow> False"

definition evm_all :: "BootTopology \<Rightarrow> BootSystem \<Rightarrow> (BootstrapState \<Rightarrow> bool) \<Rightarrow> bool" where
  "evm_all tp s P \<longleftrightarrow> (\<forall>c \<in> set (tp_evm tp). \<exists>b. chain_state s c = Some b \<and> P b)"

text \<open>The three stages of the whole system: before, during and after the round-up relay.\<close>

definition stage_syncing :: "BootTopology \<Rightarrow> BootSystem \<Rightarrow> bool" where
  "stage_syncing tp s \<longleftrightarrow>
     emitter_at s \<in> {TStart, TWait, TWork} \<and> roundup_at s \<in> {TStart, TWait} \<and> barrier_arrivals s = []
     \<and> evm_all tp s (\<lambda>b. b \<le> BootstrapRoundUpPhase1)
     \<and> (emitter_at s = TWork \<longrightarrow> evm_all tp s (\<lambda>b. b = BootstrapRoundUpPhase1))"

definition stage_roundup :: "BootTopology \<Rightarrow> BootSystem \<Rightarrow> bool" where
  "stage_roundup tp s \<longleftrightarrow>
     emitter_at s \<in> {TStart, TWait, TRun} \<and> roundup_at s \<in> {TStart, TWait, TWork, TBarrier}
     \<and> (barrier_arrivals s \<noteq> [] \<longrightarrow> roundup_at s = TBarrier)
     \<and> evm_all tp s (\<lambda>b. b = BootstrapRoundUpPhase2)"

definition stage_relay :: "BootTopology \<Rightarrow> BootSystem \<Rightarrow> bool" where
  "stage_relay tp s \<longleftrightarrow>
     emitter_at s \<in> {TStart, TWait, TRun}
     \<and> (roundup_at s = TRun \<or> roundup_at s = TStart \<and> chain_state s (tp_bifrost tp) = Some NormalStart)
     \<and> length (barrier_arrivals s) = length (tp_external tp)
     \<and> evm_all tp s (\<lambda>b. BootstrapSocketRelayQueue \<le> b)"

definition wf_topology :: "BootTopology \<Rightarrow> bool" where
  "wf_topology tp \<longleftrightarrow>
     distinct (tp_evm tp) \<and> tp_btc tp \<notin> set (tp_evm tp) \<and> tp_bifrost tp \<in> set (tp_evm tp)
     \<and> set (tp_watch_list tp) \<subseteq> set (tp_evm tp)"

definition boot_inv :: "BootTopology \<Rightarrow> BootSystem \<Rightarrow> bool" where
  "boot_inv tp s \<longleftrightarrow>
     distinct (map fst (bootstrap_states (shared s)))
     \<and> dom (chain_state s) = insert (tp_btc tp) (set (tp_evm tp))
     \<and> roundup_barrier (shared s) = length (tp_external tp) + 1
     \<and> (\<exists>cfg. bootstrap_config (shared s) = Some cfg \<and> is_enabled cfg)
     \<and> (\<forall>c \<in> set (tp_evm tp). \<exists>b. chain_state s c = Some b \<and>
          chain_ok (cccp_relay_queue_enabled (shared s)) b (event_manager_at s c) (poller_at s c) (relay_at s c))
     \<and> (\<exists>b. chain_state s (tp_btc tp) = Some b \<and> btc_ok b (block_manager_at s) (btc_at s))
     \<and> distinct (barrier_arrivals s) \<and> set (barrier_arrivals s) \<subseteq> set (tp_external tp)
     \<and> (stage_syncing tp s \<or> stage_roundup tp s \<or> stage_relay tp s)"

lemmas stage_defs = stage_syncing_def stage_roundup_def stage_relay_def evm_all_def

lemma boot_invD:
  assumes "boot_inv tp s"
  shows "distinct (map fst (bootstrap_states (shared s)))"
    and "dom (chain_state s) = insert (tp_btc tp) (set (tp_evm tp))"
    and "c \<in> set (tp_evm tp) \<Longrightarrow> \<exists>b. chain_state s c = Some b \<and>
          chain_ok (cccp_relay_queue_enabled (shared s)) b (event_manager_at s c) (poller_at s c) (relay_at s c)"
    and "\<exists>b. chain_state s (tp_btc tp) = Some b \<and> btc_ok b (block_manager_at s) (btc_at s)"
    and "stage_syncing tp s \<or> stage_roundup tp s \<or> stage_relay tp s"
  using assms by (auto simp: boot_inv_def)

lemma evm_allD: "evm_all tp s P \<Longrightarrow> c \<in> set (tp_evm tp) \<Longrightarrow> chain_state s c = Some b \<Longrightarrow> P b"
  unfolding evm_all_def by fastforce

lemma evm_all_frame [simp]:
  "evm_all tp (s\<lparr>emitter_at := x\<rparr>) P = evm_all tp s P"
  "evm_all tp (s\<lparr>roundup_at := x\<rparr>) P = evm_all tp s P"
  "evm_all tp (s\<lparr>barrier_arrivals := cs\<rparr>) P = evm_all tp s P"
  "evm_all tp (s\<lparr>shared := snd (take_bootstrap_roundup_logs (shared s))\<rparr>) P = evm_all tp s P"
  by (simp_all add: evm_all_def)

lemma evm_all_iff:
  assumes "boot_inv tp s" and "wf_topology tp"
  shows "evm_all tp s P \<longleftrightarrow> (\<forall>c b. chain_state s c = Some b \<longrightarrow> c \<noteq> tp_btc tp \<longrightarrow> P b)"
proof -
  have key: "c \<in> set (tp_evm tp) \<longleftrightarrow> c \<noteq> tp_btc tp \<and> (\<exists>b. chain_state s c = Some b)" for c
    using boot_invD(2) [OF assms(1)] assms(2) unfolding wf_topology_def by blast
  show ?thesis
    unfolding evm_all_def Ball_def key by auto
qed

lemma phase1_iff:
  assumes "boot_inv tp s" and "wf_topology tp"
  shows "all_external_in_phase1 (tp_btc tp) (shared s) \<longleftrightarrow> evm_all tp s (\<lambda>b. b = BootstrapRoundUpPhase1)"
  unfolding evm_all_iff [OF assms] all_external_in_phase1_def list_all_map_of [OF boot_invD(1) [OF assms(1)]]
  by auto

lemma bootstrapped_iff:
  assumes "boot_inv tp s" and "wf_topology tp"
  shows "all_chains_bootstrapped (shared s) \<longleftrightarrow>
    evm_all tp s (\<lambda>b. b = NormalStart) \<and> chain_state s (tp_btc tp) = Some NormalStart"
  using boot_invD(4) [OF assms(1)]
  unfolding evm_all_iff [OF assms] all_chains_bootstrapped_def list_all_map_of [OF boot_invD(1) [OF assms(1)]]
  by fastforce

lemma init_inv:
  assumes "wf_topology tp" and "is_enabled cfg"
  shows "boot_inv tp (boot_init tp (Some cfg) q)"
  using assms
  by (auto simp: boot_inv_def boot_init_def BootstrapSharedData_new_def map_of_new_states
      distinct_new_states stage_defs bootstrap_order dom_def tp_external_def
      simp flip: tp_evm_def)

text \<open>
  One step moves one chain and its tasks, or Bitcoin and its tasks, or one of the two round-up
  tasks; the first two keep the invariant under a local condition.
\<close>

lemma chain_move:
  assumes inv: "boot_inv tp s" and wf: "wf_topology tp" and c: "c \<in> set (tp_evm tp)"
    and b: "chain_state s c = Some b"
    and upd: "chain_state t = (chain_state s)(c \<mapsto> b')"
    and dist: "distinct (map fst (bootstrap_states (shared t)))"
    and frame: "roundup_barrier (shared t) = roundup_barrier (shared s)"
      "bootstrap_config (shared t) = bootstrap_config (shared s)"
      "cccp_relay_queue_enabled (shared t) = cccp_relay_queue_enabled (shared s)"
      "emitter_at t = emitter_at s" "roundup_at t = roundup_at s" "btc_at t = btc_at s"
      "barrier_arrivals t = barrier_arrivals s" "block_manager_at t = block_manager_at s"
    and other: "\<And>x. x \<noteq> c \<Longrightarrow> event_manager_at t x = event_manager_at s x
      \<and> poller_at t x = poller_at s x \<and> relay_at t x = relay_at s x"
    and ok: "chain_ok (cccp_relay_queue_enabled (shared s)) b'
      (event_manager_at t c) (poller_at t c) (relay_at t c)"
    and stage: "b' = b \<or> (b < BootstrapRoundUpPhase1 \<and> b' \<le> BootstrapRoundUpPhase1)
      \<or> (BootstrapSocketRelayQueue \<le> b \<and> b \<noteq> NormalStart \<and> BootstrapSocketRelayQueue \<le> b')"
  shows "boot_inv tp t"
proof -
  have btc: "c \<noteq> tp_btc tp" using wf c by (auto simp: wf_topology_def)
  have d: "dom (chain_state t) = insert (tp_btc tp) (set (tp_evm tp))"
    using inv c unfolding boot_inv_def upd by auto
  have chains: "\<exists>b. chain_state t x = Some b \<and> chain_ok (cccp_relay_queue_enabled (shared t)) b
      (event_manager_at t x) (poller_at t x) (relay_at t x)" if "x \<in> set (tp_evm tp)" for x
    using inv that ok other [of x] unfolding boot_inv_def upd frame by (cases "x = c") auto
  have upd_all: "evm_all tp t P \<longleftrightarrow> (\<forall>x \<in> set (tp_evm tp) - {c}. \<exists>b. chain_state s x = Some b \<and> P b) \<and> P b'"
    and old_all: "evm_all tp s P \<longleftrightarrow> (\<forall>x \<in> set (tp_evm tp) - {c}. \<exists>b. chain_state s x = Some b \<and> P b) \<and> P b" for P
    using c b by (auto simp: evm_all_def upd)
  have "stage_syncing tp t \<or> stage_roundup tp t \<or> stage_relay tp t"
    using stage
  proof (elim disjE)
    assume "b' = b"
    then have "chain_state t = chain_state s" using upd b by (simp add: fun_upd_idem)
    then show ?thesis
      using boot_invD(5) [OF inv] unfolding stage_defs frame by simp
  next
    assume early: "b < BootstrapRoundUpPhase1 \<and> b' \<le> BootstrapRoundUpPhase1"
    then have "\<not> evm_all tp s (\<lambda>b. b = BootstrapRoundUpPhase2)"
      and "\<not> evm_all tp s (\<lambda>b. BootstrapSocketRelayQueue \<le> b)"
      and "\<not> evm_all tp s (\<lambda>b. b = BootstrapRoundUpPhase1)"
      by (auto simp: old_all bootstrap_order)
    then have "stage_syncing tp s" and "emitter_at s \<noteq> TWork"
      using boot_invD(5) [OF inv] by (auto simp: stage_syncing_def stage_roundup_def stage_relay_def)
    then have "stage_syncing tp t"
      using early unfolding stage_syncing_def upd_all old_all frame by simp
    then show ?thesis ..
  next
    assume late: "BootstrapSocketRelayQueue \<le> b \<and> b \<noteq> NormalStart \<and> BootstrapSocketRelayQueue \<le> b'"
    then have "\<not> evm_all tp s (\<lambda>b. b = BootstrapRoundUpPhase2)"
      and "\<not> evm_all tp s (\<lambda>b. b \<le> BootstrapRoundUpPhase1)"
      by (auto simp: old_all bootstrap_order)
    then have "stage_relay tp s"
      using boot_invD(5) [OF inv] by (auto simp: stage_syncing_def stage_roundup_def)
    then have "stage_relay tp t"
      using late b unfolding stage_relay_def upd_all old_all frame upd by auto
    then show ?thesis by simp
  qed
  then show ?thesis
    using inv d chains dist btc unfolding boot_inv_def frame upd by auto
qed

lemma btc_move:
  assumes inv: "boot_inv tp s" and wf: "wf_topology tp"
    and upd: "chain_state t = (chain_state s)(tp_btc tp \<mapsto> b')"
    and dist: "distinct (map fst (bootstrap_states (shared t)))"
    and frame: "roundup_barrier (shared t) = roundup_barrier (shared s)"
      "bootstrap_config (shared t) = bootstrap_config (shared s)"
      "cccp_relay_queue_enabled (shared t) = cccp_relay_queue_enabled (shared s)"
      "emitter_at t = emitter_at s" "roundup_at t = roundup_at s"
      "barrier_arrivals t = barrier_arrivals s" "event_manager_at t = event_manager_at s"
      "poller_at t = poller_at s" "relay_at t = relay_at s"
    and ok: "btc_ok b' (block_manager_at t) (btc_at t)"
  shows "boot_inv tp t"
proof -
  have btc: "tp_btc tp \<notin> set (tp_evm tp)" "tp_btc tp \<noteq> tp_bifrost tp"
    using wf by (auto simp: wf_topology_def)
  have same: "evm_all tp t P \<longleftrightarrow> evm_all tp s P" for P
    using btc(1) unfolding evm_all_def upd by (intro ball_cong) auto
  have "stage_syncing tp t \<or> stage_roundup tp t \<or> stage_relay tp t"
    using boot_invD(5) [OF inv] btc(2)
    unfolding stage_syncing_def stage_roundup_def stage_relay_def same frame upd by simp
  moreover have "\<exists>b. chain_state t x = Some b \<and> chain_ok (cccp_relay_queue_enabled (shared t)) b
      (event_manager_at t x) (poller_at t x) (relay_at t x)" if "x \<in> set (tp_evm tp)" for x
    using boot_invD(3) [OF inv that] that btc(1) unfolding frame upd by auto
  ultimately show ?thesis
    using inv ok dist unfolding boot_inv_def frame upd by auto
qed

lemmas boot_move_simps = start_task_Some set_bootstrap_state_Some bootstrap_state_reached_Some
  update_conv' distinct_update

lemma task_frame:
  assumes "boot_inv tp s" and "shared t = shared s" and "event_manager_at t = event_manager_at s"
    and "poller_at t = poller_at s" and "relay_at t = relay_at s"
    and "block_manager_at t = block_manager_at s" and "btc_at t = btc_at s"
    and "distinct (barrier_arrivals t)" and "set (barrier_arrivals t) \<subseteq> set (tp_external tp)"
    and "stage_syncing tp t \<or> stage_roundup tp t \<or> stage_relay tp t"
  shows "boot_inv tp t"
  using assms(1,8-) unfolding boot_inv_def assms(2-7) by blast

lemma event_manager_inv:
  assumes inv: "boot_inv tp s" and wf: "wf_topology tp" and c: "c \<in> set (tp_evm tp)"
    and step: "event_manager_bootstrap_0 c s = Some t"
  shows "boot_inv tp t"
proof -
  obtain b where b: "chain_state s c = Some b" and ok: "chain_ok (cccp_relay_queue_enabled (shared s)) b
      (event_manager_at s c) (poller_at s c) (relay_at s c)"
    using boot_invD(3) [OF inv c] by blast
  note defs = event_manager_bootstrap_0_def is_before_bootstrap_state_def
  show ?thesis
  proof (cases "event_manager_at s c")
    case MInit
    with ok have "b = NodeSyncing" by (cases b) auto
    with MInit step b ok show ?thesis
      by (intro chain_move [OF inv wf c b, of t b]) (auto simp: defs fun_upd_idem boot_invD(1) [OF inv])
  next
    case MSync
    with ok have "b = NodeSyncing" by (cases b) auto
    with MSync step b ok show ?thesis
      by (intro chain_move [OF inv wf c b, of t FlushingStalledTransactions])
        (auto simp: defs boot_move_simps boot_invD(1) [OF inv] bootstrap_order)
  next
    case MFlush
    with ok have "b = FlushingStalledTransactions" by (cases b) auto
    with MFlush step b ok show ?thesis
      by (intro chain_move [OF inv wf c b, of t BootstrapRoundUpPhase1])
        (auto simp: defs boot_move_simps boot_invD(1) [OF inv] bootstrap_order)
  next
    case MRun
    with step show ?thesis by (simp add: defs)
  qed
qed

lemma poller_inv:
  assumes inv: "boot_inv tp s" and wf: "wf_topology tp"
    and step: "poller_bootstrap tp c logs s = Some t"
  shows "boot_inv tp t"
proof -
  have w: "c \<in> set (tp_watch_list tp)" and q: "cccp_relay_queue_enabled (shared s)"
    using step by (auto simp: poller_bootstrap_def split: if_splits)
  then have c: "c \<in> set (tp_evm tp)" using wf by (auto simp: wf_topology_def)
  obtain b where b: "chain_state s c = Some b" and ok: "chain_ok True b
      (event_manager_at s c) (poller_at s c) (relay_at s c)"
    using boot_invD(3) [OF inv c] q by auto
  note simps = poller_bootstrap_def boot_move_simps boot_invD(1) [OF inv] bootstrap_order fun_upd_idem
  show ?thesis
  proof (cases "poller_at s c")
    case TStart
    with step b ok w q show ?thesis
      by (intro chain_move [OF inv wf c b, of t b]) (cases b; auto simp: simps)+
  next
    case TWait
    with step b ok w q show ?thesis
      by (intro chain_move [OF inv wf c b, of t b]) (cases b; auto simp: simps split: if_splits)+
  next
    case TWork
    with ok have "b = BootstrapSocketRelayQueue" by (cases b) auto
    with TWork step b ok w q show ?thesis
      by (intro chain_move [OF inv wf c b, of t BootstrapSocketRelay]) (auto simp: simps split: if_splits)
  qed (use step in \<open>auto simp: poller_bootstrap_def split: if_splits\<close>)
qed

lemma relay_handler_inv:
  assumes inv: "boot_inv tp s" and wf: "wf_topology tp"
    and step: "relay_handler_bootstrap tp c s = Some t"
  shows "boot_inv tp t"
proof -
  have w: "c \<in> set (tp_watch_list tp)"
    using step by (auto simp: relay_handler_bootstrap_def split: if_splits)
  then have c: "c \<in> set (tp_evm tp)" using wf by (auto simp: wf_topology_def)
  obtain b where b: "chain_state s c = Some b" and ok: "chain_ok (cccp_relay_queue_enabled (shared s)) b
      (event_manager_at s c) (poller_at s c) (relay_at s c)"
    using boot_invD(3) [OF inv c] by auto
  note simps = relay_handler_bootstrap_def boot_move_simps boot_invD(1) [OF inv] bootstrap_order fun_upd_idem
  show ?thesis
  proof (cases "relay_at s c")
    case TStart
    with step b ok w show ?thesis
      by (intro chain_move [OF inv wf c b, of t b]) (cases b; auto simp: simps)+
  next
    case TWait
    with step b ok w show ?thesis
      by (intro chain_move [OF inv wf c b, of t b]) (cases b; auto simp: simps split: if_splits)+
  next
    case TWork
    with ok have "b = BootstrapSocketRelay" by (cases b) auto
    with TWork step b ok w show ?thesis
      by (intro chain_move [OF inv wf c b, of t NormalStart]) (auto simp: simps split: if_splits)
  qed (use step in \<open>auto simp: relay_handler_bootstrap_def split: if_splits\<close>)
qed

lemma global_move:
  assumes inv: "boot_inv tp s" and wf: "wf_topology tp"
    and shared: "shared t = set_all_except (tp_btc tp) b' d" "bootstrap_states d = bootstrap_states (shared s)"
      "roundup_barrier d = roundup_barrier (shared s)" "bootstrap_config d = bootstrap_config (shared s)"
      "cccp_relay_queue_enabled d = cccp_relay_queue_enabled (shared s)"
    and frame: "event_manager_at t = event_manager_at s" "poller_at t = poller_at s"
      "relay_at t = relay_at s" "block_manager_at t = block_manager_at s" "btc_at t = btc_at s"
      "barrier_arrivals t = barrier_arrivals s"
    and ok: "\<And>b em po re. evm_all tp s (\<lambda>x. x = b) \<Longrightarrow> chain_ok (cccp_relay_queue_enabled (shared s)) b em po re
      \<Longrightarrow> chain_ok (cccp_relay_queue_enabled (shared s)) b' em po re"
    and one: "evm_all tp s (\<lambda>x. x = b)"
    and stage: "evm_all tp t (\<lambda>x. x = b') \<Longrightarrow> stage_syncing tp t \<or> stage_roundup tp t \<or> stage_relay tp t"
  shows "boot_inv tp t"
proof -
  have btc: "tp_btc tp \<notin> set (tp_evm tp)" using wf by (simp add: wf_topology_def)
  have st: "chain_state t = (\<lambda>c. if c = tp_btc tp then chain_state s c else map_option (\<lambda>_. b') (chain_state s c))"
    by (rule ext) (simp add: shared map_of_set_all_except)
  have evm: "chain_state t c = Some b'" if "c \<in> set (tp_evm tp)" for c
    using boot_invD(3) [OF inv that] that btc by (auto simp: st)
  then have "stage_syncing tp t \<or> stage_roundup tp t \<or> stage_relay tp t"
    by (intro stage) (simp add: evm_all_def)
  moreover have "chain_ok (cccp_relay_queue_enabled (shared s)) b' (event_manager_at s c) (poller_at s c) (relay_at s c)"
    if "c \<in> set (tp_evm tp)" for c
    using ok [OF one] boot_invD(3) [OF inv that] one that by (auto simp: evm_all_def)
  moreover have "dom (chain_state t) = dom (chain_state s)"
    by (auto simp: st split: if_splits)
  moreover have "chain_state t (tp_btc tp) = chain_state s (tp_btc tp)" by (simp add: st)
  ultimately show ?thesis
    using inv evm unfolding boot_inv_def frame
    by (simp add: shared) (auto simp: shared)
qed

lemma emitter_inv:
  assumes inv: "boot_inv tp s" and wf: "wf_topology tp"
    and step: "emitter_bootstrap tp logs s = Some t"
  shows "boot_inv tp t"
proof -
  have f: "tp_bifrost tp \<in> set (tp_evm tp)" using wf by (simp add: wf_topology_def)
  then obtain b where b: "chain_state s (tp_bifrost tp) = Some b" using boot_invD(3) [OF inv] by blast
  have arr: "distinct (barrier_arrivals s)" "set (barrier_arrivals s) \<subseteq> set (tp_external tp)"
    using inv by (auto simp: boot_inv_def)
  note stages = stage_syncing_def stage_roundup_def stage_relay_def
  show ?thesis
  proof (cases "emitter_at s")
    case TStart
    then have t: "t = s\<lparr>emitter_at := if b = NormalStart then TRun else TWait\<rparr>"
      using step b by (simp add: emitter_bootstrap_def start_task_Some)
    have "\<not> stage_syncing tp s" if "b = NormalStart"
      using that evm_allD [OF _ f b, of "\<lambda>b. b \<le> BootstrapRoundUpPhase1"]
      by (auto simp: stage_syncing_def bootstrap_order)
    then show ?thesis
      using TStart boot_invD(5) [OF inv] arr
      by (intro task_frame [OF inv]) (auto simp: t stages)
  next
    case TWait
    then have t: "t = s\<lparr>emitter_at := TWork\<rparr>" and one: "evm_all tp s (\<lambda>b. b = BootstrapRoundUpPhase1)"
      using step phase1_iff [OF inv wf] by (auto simp: emitter_bootstrap_def split: if_splits)
    have "stage_syncing tp s"
      using boot_invD(5) [OF inv] one f by (fastforce simp: stages evm_all_def bootstrap_order)
    then show ?thesis
      using one arr by (intro task_frame [OF inv]) (auto simp: t stages)
  next
    case TWork
    then have stage: "stage_syncing tp s" using boot_invD(5) [OF inv] by (auto simp: stages)
    with TWork have one: "evm_all tp s (\<lambda>b. b = BootstrapRoundUpPhase1)" by (simp add: stages)
    have t: "t = s\<lparr>shared := set_all_except (tp_btc tp) BootstrapRoundUpPhase2
        (set_bootstrap_roundup_logs logs (shared s)), emitter_at := TRun\<rparr>"
      using step TWork by (auto simp: emitter_bootstrap_def split: option.splits)
    show ?thesis
    proof (rule global_move [OF inv wf, where b = BootstrapRoundUpPhase1 and b' = BootstrapRoundUpPhase2
          and d = "set_bootstrap_roundup_logs logs (shared s)"])
      show "chain_ok (cccp_relay_queue_enabled (shared s)) BootstrapRoundUpPhase2 em po re"
        if "evm_all tp s (\<lambda>x. x = b)" "chain_ok (cccp_relay_queue_enabled (shared s)) b em po re" for b em po re
      proof -
        have "b = BootstrapRoundUpPhase1" using that(1) one f by (auto simp: evm_all_def)
        with that(2) show ?thesis by simp
      qed
      show "stage_syncing tp t \<or> stage_roundup tp t \<or> stage_relay tp t"
        if "evm_all tp t (\<lambda>x. x = BootstrapRoundUpPhase2)"
        using that stage by (auto simp: t stages)
    qed (use one in \<open>simp_all add: t\<close>)
  qed (use step in \<open>auto simp: emitter_bootstrap_def\<close>)
qed

lemma roundup_inv:
  assumes inv: "boot_inv tp s" and wf: "wf_topology tp"
    and step: "roundup_bootstrap tp s = Some t"
  shows "boot_inv tp t"
proof -
  have f: "tp_bifrost tp \<in> set (tp_evm tp)" using wf by (simp add: wf_topology_def)
  then obtain b where b: "chain_state s (tp_bifrost tp) = Some b" using boot_invD(3) [OF inv] by blast
  have arr: "distinct (barrier_arrivals s)" "set (barrier_arrivals s) \<subseteq> set (tp_external tp)"
    and bar: "roundup_barrier (shared s) = length (tp_external tp) + 1"
    using inv by (auto simp: boot_inv_def)
  note stages = stage_syncing_def stage_roundup_def stage_relay_def
  note at_bifrost = evm_allD [OF _ f b]
  show ?thesis
  proof (cases "roundup_at s")
    case TStart
    then have t: "t = s\<lparr>roundup_at := if b = NormalStart then TRun else TWait\<rparr>"
      using step b by (simp add: roundup_bootstrap_def start_task_Some)
    have "\<not> stage_syncing tp s" "\<not> stage_roundup tp s" if "b = NormalStart"
      using that at_bifrost [of "\<lambda>b. b \<le> BootstrapRoundUpPhase1"] at_bifrost [of "\<lambda>b. b = BootstrapRoundUpPhase2"]
      by (auto simp: stages bootstrap_order)
    then show ?thesis
      using TStart boot_invD(5) [OF inv] arr b
      by (intro task_frame [OF inv]) (auto simp: t stages)
  next
    case TWait
    then have p: "b = BootstrapRoundUpPhase2" and
      t: "t = s\<lparr>shared := snd (take_bootstrap_roundup_logs (shared s)), roundup_at := TWork\<rparr>"
      using step b by (auto simp: roundup_bootstrap_def bootstrap_state_reached_Some split: bool.splits)
    then have "stage_roundup tp s"
      using boot_invD(5) [OF inv] at_bifrost [of "\<lambda>b. b \<le> BootstrapRoundUpPhase1"]
        at_bifrost [of "\<lambda>b. BootstrapSocketRelayQueue \<le> b"]
      by (auto simp: stages bootstrap_order)
    with TWait have "stage_roundup tp t" by (auto simp: t stages)
    then show ?thesis
      using inv unfolding boot_inv_def by (simp add: t del: map_of_eq_Some_iff)
  next
    case TWork
    then have t: "t = s\<lparr>roundup_at := TBarrier\<rparr>" using step by (simp add: roundup_bootstrap_def)
    show ?thesis
      using TWork boot_invD(5) [OF inv] arr
      by (intro task_frame [OF inv]) (auto simp: t stages)
  next
    case TBarrier
    let ?b = "if cccp_relay_queue_enabled (shared s) then BootstrapSocketRelayQueue else BootstrapSocketRelay"
    from TBarrier have stage: "stage_roundup tp s" using boot_invD(5) [OF inv] by (auto simp: stages)
    then have one: "evm_all tp s (\<lambda>b. b = BootstrapRoundUpPhase2)" by (simp add: stages)
    have full: "length (barrier_arrivals s) = length (tp_external tp)"
      and t: "t = s\<lparr>shared := set_all_except (tp_btc tp) ?b (shared s), roundup_at := TRun\<rparr>"
      using step TBarrier bar by (auto simp: roundup_bootstrap_def split: if_splits)
    show ?thesis
    proof (rule global_move [OF inv wf, where b = BootstrapRoundUpPhase2 and b' = ?b and d = "shared s"])
      show "chain_ok (cccp_relay_queue_enabled (shared s)) ?b em po re"
        if "evm_all tp s (\<lambda>x. x = b)" "chain_ok (cccp_relay_queue_enabled (shared s)) b em po re" for b em po re
      proof -
        have "b = BootstrapRoundUpPhase2" using that(1) one f by (auto simp: evm_all_def)
        with that(2) show ?thesis by auto
      qed
      show "stage_syncing tp t \<or> stage_roundup tp t \<or> stage_relay tp t"
        if "evm_all tp t (\<lambda>x. x = ?b)"
      proof -
        have "evm_all tp t (\<lambda>x. BootstrapSocketRelayQueue \<le> x)"
          using that by (fastforce simp: evm_all_def bootstrap_order)
        then show ?thesis using stage full by (auto simp: t stages)
      qed
    qed (use one in \<open>simp_all add: t\<close>)
  qed (use step in \<open>auto simp: roundup_bootstrap_def\<close>)
qed

lemma btc_inv:
  assumes inv: "boot_inv tp s" and wf: "wf_topology tp"
    and step: "block_manager_bootstrap_0 tp s = Some t \<or> block_manager_bootstrap tp s = Some t
      \<or> (btc_at s = TWork \<or> btc_at s = TRun \<and> all_chains_bootstrapped (shared s)) \<and> t = s\<lparr>btc_at := TStart\<rparr>"
  shows "boot_inv tp t"
proof -
  obtain b where b: "chain_state s (tp_btc tp) = Some b" and ok: "btc_ok b (block_manager_at s) (btc_at s)"
    using boot_invD(4) [OF inv] by blast
  note simps = block_manager_bootstrap_0_def block_manager_bootstrap_def boot_move_simps
    is_before_bootstrap_state_def boot_invD(1) [OF inv] fun_upd_idem
  from step b ok consider
      (sync) "chain_state t = (chain_state s)(tp_btc tp \<mapsto> BootstrapSocketRelay)"
        "t = s\<lparr>shared := (shared s)\<lparr>bootstrap_states := AList.update (tp_btc tp) BootstrapSocketRelay
           (bootstrap_states (shared s))\<rparr>, block_manager_at := MRun\<rparr>" "b = NodeSyncing"
    | (finish) "chain_state t = (chain_state s)(tp_btc tp \<mapsto> NormalStart)"
        "t = s\<lparr>shared := (shared s)\<lparr>bootstrap_states := AList.update (tp_btc tp) NormalStart
           (bootstrap_states (shared s))\<rparr>, btc_at := TRun\<rparr>" "b = BootstrapSocketRelay"
    | (stay) bm bt where "t = s\<lparr>block_manager_at := bm, btc_at := bt\<rparr>" "btc_ok b bm bt"
  proof (elim disjE)
    assume step: "block_manager_bootstrap_0 tp s = Some t"
    show thesis
    proof (cases "block_manager_at s")
      case MInit
      with step b have "t = s\<lparr>block_manager_at := if b \<noteq> NormalStart then MSync else MRun\<rparr>"
        by (simp add: block_manager_bootstrap_0_def is_before_bootstrap_state_def)
      with ok MInit show thesis
        by (intro stay [where bm = MSync and bt = "btc_at s"]) (cases b; simp)+
    next
      case MSync
      with ok have "b = NodeSyncing" by (cases b) auto
      with step b MSync show thesis
        by (intro sync) (auto simp: block_manager_bootstrap_0_def set_bootstrap_state_Some update_conv')
    qed (use step in \<open>simp_all add: block_manager_bootstrap_0_def\<close>)
  next
    assume step: "block_manager_bootstrap tp s = Some t"
    then have run: "block_manager_at s = MRun"
      by (simp add: block_manager_bootstrap_def split: if_splits)
    show thesis
    proof (cases "btc_at s")
      case TStart
      with step run b have "t = s\<lparr>btc_at := if b = NormalStart then TRun else TWait\<rparr>"
        by (simp add: block_manager_bootstrap_def start_task_Some)
      with ok run TStart show thesis
        by (intro stay [where bm = MRun and bt = "if b = NormalStart then TRun else TWait"]) (cases b; simp)+
    next
      case TWait
      with step run b have "t = s\<lparr>btc_at := TWork\<rparr>"
        by (auto simp: block_manager_bootstrap_def bootstrap_state_reached_Some split: bool.splits)
      with ok run TWait show thesis by (intro stay [where bm = MRun and bt = TWork]) (cases b; simp)+
    next
      case TWork
      with ok have "b = BootstrapSocketRelay" by (cases b) auto
      with step run b TWork show thesis
        by (intro finish) (auto simp: block_manager_bootstrap_def set_bootstrap_state_Some update_conv')
    qed (use step run in \<open>simp_all add: block_manager_bootstrap_def\<close>)
  next
    assume "(btc_at s = TWork \<or> btc_at s = TRun \<and> all_chains_bootstrapped (shared s)) \<and> t = s\<lparr>btc_at := TStart\<rparr>"
    then show thesis
      using b ok stay [where bm = "block_manager_at s" and bt = TStart] by (cases b) auto
  qed
  then show ?thesis
  proof cases
    case sync
    with ok show ?thesis by (intro btc_move [OF inv wf sync(1)]) (auto simp: simps)
  next
    case finish
    with ok show ?thesis by (intro btc_move [OF inv wf finish(1)]) (auto simp: simps)
  next
    case stay
    with b show ?thesis by (intro btc_move [OF inv wf, of t b]) (auto simp: simps)
  qed
qed

lemma restart_task_Some: "restart_task m t = Some u \<longleftrightarrow> u = TStart \<and> (t = TWork \<or> t = TRun \<and> m)"
  by (auto simp: restart_task_def)

lemma bootstrapped_normal:
  assumes "boot_inv tp s" and "wf_topology tp" and "all_chains_bootstrapped (shared s)"
    and "c \<in> set (tp_evm tp)" and "chain_state s c = Some b"
  shows "b = NormalStart"
  using bootstrapped_iff [OF assms(1,2)] assms(3) evm_allD [OF _ assms(4,5)] by blast

lemma chain_restart_inv:
  assumes inv: "boot_inv tp s" and wf: "wf_topology tp"
    and t: "t = s\<lparr>poller_at := (poller_at s)(c := TStart)\<rparr> \<and>
          (poller_at s c = TWork \<or> poller_at s c = TRun \<and> all_chains_bootstrapped (shared s))
        \<or> t = s\<lparr>relay_at := (relay_at s)(c := TStart)\<rparr> \<and>
          (relay_at s c = TWork \<or> relay_at s c = TRun \<and> all_chains_bootstrapped (shared s))"
  shows "boot_inv tp t"
proof (cases "c \<in> set (tp_evm tp)")
  case True
  obtain bc where bc: "chain_state s c = Some bc" and ok: "chain_ok (cccp_relay_queue_enabled (shared s)) bc
      (event_manager_at s c) (poller_at s c) (relay_at s c)"
    using boot_invD(3) [OF inv True] by auto
  have "chain_ok (cccp_relay_queue_enabled (shared s)) bc (event_manager_at t c) (poller_at t c) (relay_at t c)"
    using t ok bootstrapped_normal [OF inv wf _ True bc] by (cases bc) auto
  then show ?thesis
    using t by (intro chain_move [OF inv wf True bc, of t bc])
      (auto simp: fun_upd_idem bc boot_invD(1) [OF inv])
next
  case False
  then have tasks: "poller_at t x = poller_at s x" "relay_at t x = relay_at s x" if "x \<in> set (tp_evm tp)" for x
    using t that by auto
  have same: "shared t = shared s" "event_manager_at t = event_manager_at s" "btc_at t = btc_at s"
    "block_manager_at t = block_manager_at s" "barrier_arrivals t = barrier_arrivals s"
    "emitter_at t = emitter_at s" "roundup_at t = roundup_at s"
    using t by auto
  have "stage_syncing tp t \<or> stage_roundup tp t \<or> stage_relay tp t"
    using boot_invD(5) [OF inv] unfolding stage_defs same .
  with tasks show ?thesis
    using inv unfolding boot_inv_def same by (simp only: tasks cong: ball_cong) blast
qed

lemma roundup_restart_inv:
  assumes inv: "boot_inv tp s" and wf: "wf_topology tp"
    and t: "t = s\<lparr>emitter_at := TStart\<rparr> \<and> (emitter_at s = TWork \<or> emitter_at s = TRun)
      \<or> t = s\<lparr>roundup_at := TStart\<rparr> \<and> (roundup_at s = TWork \<or> roundup_at s = TRun \<and> all_chains_bootstrapped (shared s))
      \<or> t = s\<lparr>barrier_arrivals := c # barrier_arrivals s\<rparr> \<and> roundup_at s = TBarrier
          \<and> c \<in> set (tp_external tp) \<and> c \<notin> set (barrier_arrivals s)"
  shows "boot_inv tp t"
proof -
  have f: "tp_bifrost tp \<in> set (tp_evm tp)" using wf by (simp add: wf_topology_def)
  then obtain b where b: "chain_state s (tp_bifrost tp) = Some b" using boot_invD(3) [OF inv] by blast
  have arr: "distinct (barrier_arrivals s)" "set (barrier_arrivals s) \<subseteq> set (tp_external tp)"
    using inv by (auto simp: boot_inv_def)
  note stages = stage_syncing_def stage_roundup_def stage_relay_def
  note normal = bootstrapped_normal [OF inv wf _ f b]
  from t show ?thesis
  proof (elim disjE)
    assume "t = s\<lparr>emitter_at := TStart\<rparr> \<and> (emitter_at s = TWork \<or> emitter_at s = TRun)"
    then show ?thesis
      using boot_invD(5) [OF inv] arr by (intro task_frame [OF inv]) (auto simp: stages)
  next
    assume "t = s\<lparr>roundup_at := TStart\<rparr> \<and> (roundup_at s = TWork \<or> roundup_at s = TRun \<and> all_chains_bootstrapped (shared s))"
    then show ?thesis
      using boot_invD(5) [OF inv] arr b normal by (intro task_frame [OF inv]) (auto simp: stages)
  next
    assume "t = s\<lparr>barrier_arrivals := c # barrier_arrivals s\<rparr> \<and> roundup_at s = TBarrier
          \<and> c \<in> set (tp_external tp) \<and> c \<notin> set (barrier_arrivals s)"
    then show ?thesis
      using boot_invD(5) [OF inv] arr by (intro task_frame [OF inv]) (auto simp: stages)
  qed
qed

lemma onflight_inv_frame [simp]: "boot_inv tp (s\<lparr>onflight_at := x\<rparr>) = boot_inv tp s"
  by (simp add: boot_inv_def stage_defs)

lemma boot_exec_inv:
  assumes inv: "boot_inv tp s" and wf: "wf_topology tp" and step: "boot_exec tp a s = Some t"
  shows "boot_inv tp t"
proof (cases a)
  case (EventManagerStep c)
  with assms show ?thesis by (auto intro: event_manager_inv split: if_splits)
next
  case (CaughtUp c)
  with step show ?thesis
    by (intro roundup_restart_inv [OF inv wf, of t c]) (auto simp: wait_if_latest_round_def split: if_splits)
next
  case EmitterFails
  with step show ?thesis by (intro roundup_restart_inv [OF inv wf]) (auto simp: restart_task_Some)
next
  case RoundupFails
  with step show ?thesis by (intro roundup_restart_inv [OF inv wf]) (auto simp: restart_task_Some)
next
  case (PollerFails c)
  with step show ?thesis by (intro chain_restart_inv [OF inv wf, of t c]) (auto simp: restart_task_Some)
next
  case (RelayFails c)
  with step show ?thesis by (intro chain_restart_inv [OF inv wf, of t c]) (auto simp: restart_task_Some)
next
  case BlockManagerFails
  with step show ?thesis by (intro btc_inv [OF inv wf]) (auto simp: restart_task_Some)
next
  case OnflightStep
  with inv step show ?thesis
    by (auto simp: onflight_bootstrap_wait_def split: task.splits res.splits bool.splits)
next
  case OnflightFails
  with inv step show ?thesis by auto
qed (use assms in \<open>auto intro: emitter_inv roundup_inv poller_inv relay_handler_inv btc_inv\<close>)

lemma boot_reachable_inv:
  "boot_reachable tp s t \<Longrightarrow> boot_inv tp s \<Longrightarrow> wf_topology tp \<Longrightarrow> boot_inv tp t"
  by (induction rule: boot_reachable.induct) (auto intro: boot_exec_inv)

section \<open>States only advance\<close>

lemma chain_state_after:
  assumes inv: "boot_inv tp s" and wf: "wf_topology tp" and step: "boot_exec tp a s = Some t"
  shows "chain_state t = chain_state s
    \<or> (\<exists>c b b'. chain_state s c = Some b \<and> b < b' \<and> chain_state t = (chain_state s)(c \<mapsto> b'))
    \<or> (\<exists>b b'. evm_all tp s (\<lambda>x. x = b) \<and> b < b' \<and>
         chain_state t = (\<lambda>c. if c = tp_btc tp then chain_state s c else map_option (\<lambda>_. b') (chain_state s c)))"
    (is "?same \<or> ?one \<or> ?all")
proof -
  have one: ?one if "chain_state s c = Some b" "b < b'"
    "shared t = d\<lparr>bootstrap_states := AList.update c b' (bootstrap_states (shared s))\<rparr>" for c b b' d
    using that by (intro exI [of _ c] exI [of _ b] exI [of _ b']) (simp add: update_conv')
  have all: ?all if "evm_all tp s (\<lambda>x. x = b)" "b < b'" "shared t = set_all_except (tp_btc tp) b' d"
    "bootstrap_states d = bootstrap_states (shared s)" for b b' d
    using that by (intro exI [of _ b] exI [of _ b']) (auto simp: map_of_set_all_except fun_eq_iff)
  note splits = if_splits option.splits res.splits bool.splits
  show ?thesis
  proof (cases a)
    case (EventManagerStep c)
    then have c: "c \<in> set (tp_evm tp)" and st: "event_manager_bootstrap_0 c s = Some t"
      using step by (auto split: if_splits)
    obtain b where b: "chain_state s c = Some b" and ok: "chain_ok (cccp_relay_queue_enabled (shared s)) b
        (event_manager_at s c) (poller_at s c) (relay_at s c)"
      using boot_invD(3) [OF inv c] by blast
    show ?thesis
    proof (cases "event_manager_at s c")
      case MInit
      with st b show ?thesis by (auto simp: event_manager_bootstrap_0_def is_before_bootstrap_state_def)
    next
      case MSync
      with ok have "b = NodeSyncing" by (cases b) auto
      with MSync st b one [OF b, of FlushingStalledTransactions "shared s"] show ?thesis
        by (auto simp: event_manager_bootstrap_0_def set_bootstrap_state_Some bootstrap_order)
    next
      case MFlush
      with ok have "b = FlushingStalledTransactions" by (cases b) auto
      with MFlush st b one [OF b, of BootstrapRoundUpPhase1 "shared s"] show ?thesis
        by (auto simp: event_manager_bootstrap_0_def set_bootstrap_state_Some bootstrap_order)
    qed (use st in \<open>simp add: event_manager_bootstrap_0_def\<close>)
  next
    case (EmitterStep logs)
    show ?thesis
    proof (cases "emitter_at s = TWork")
      case True
      then have "stage_syncing tp s" using boot_invD(5) [OF inv]
        by (auto simp: stage_syncing_def stage_roundup_def stage_relay_def)
      with True have p: "evm_all tp s (\<lambda>x. x = BootstrapRoundUpPhase1)" by (simp add: stage_syncing_def)
      have "shared t = set_all_except (tp_btc tp) BootstrapRoundUpPhase2 (set_bootstrap_roundup_logs logs (shared s))"
        using step EmitterStep True by (auto simp: emitter_bootstrap_def split: option.splits)
      with all [OF p] show ?thesis by (simp add: bootstrap_order)
    qed (use step EmitterStep in \<open>auto simp: emitter_bootstrap_def split: task.splits splits\<close>)
  next
    case RoundupStep
    show ?thesis
    proof (cases "roundup_at s = TBarrier")
      case True
      then have "stage_roundup tp s" using boot_invD(5) [OF inv]
        by (auto simp: stage_syncing_def stage_roundup_def stage_relay_def)
      then have p: "evm_all tp s (\<lambda>x. x = BootstrapRoundUpPhase2)" by (simp add: stage_roundup_def)
      have "shared t = set_all_except (tp_btc tp) (if cccp_relay_queue_enabled (shared s)
          then BootstrapSocketRelayQueue else BootstrapSocketRelay) (shared s)"
        using step RoundupStep True by (auto simp: roundup_bootstrap_def split: if_splits)
      with all [OF p] show ?thesis by (simp add: bootstrap_order)
    qed (use step RoundupStep in \<open>auto simp: roundup_bootstrap_def split: task.splits splits\<close>)
  next
    case (PollerStep c logs)
    then have w: "c \<in> set (tp_watch_list tp)" and st: "poller_bootstrap tp c logs s = Some t"
      using step by (auto simp: poller_bootstrap_def split: if_splits)
    then have c: "c \<in> set (tp_evm tp)" using wf by (auto simp: wf_topology_def)
    obtain b where b: "chain_state s c = Some b" and ok: "chain_ok (cccp_relay_queue_enabled (shared s)) b
        (event_manager_at s c) (poller_at s c) (relay_at s c)"
      using boot_invD(3) [OF inv c] by blast
    show ?thesis
    proof (cases "poller_at s c = TWork")
      case True
      with ok st have "b = BootstrapSocketRelayQueue" by (cases b) (auto simp: poller_bootstrap_def split: if_splits)
      with True st b one [OF b, of BootstrapSocketRelay "shared s"]
        one [OF b, of BootstrapSocketRelay "set_bootstrap_socket_logs c logs (shared s)"] show ?thesis
        by (auto simp: poller_bootstrap_def set_bootstrap_state_Some bootstrap_order split: if_splits)
    qed (use st in \<open>auto simp: poller_bootstrap_def split: task.splits splits\<close>)
  next
    case (RelayStep c)
    then have w: "c \<in> set (tp_watch_list tp)" and st: "relay_handler_bootstrap tp c s = Some t"
      using step by (auto simp: relay_handler_bootstrap_def split: if_splits)
    then have c: "c \<in> set (tp_evm tp)" using wf by (auto simp: wf_topology_def)
    obtain b where b: "chain_state s c = Some b" and ok: "chain_ok (cccp_relay_queue_enabled (shared s)) b
        (event_manager_at s c) (poller_at s c) (relay_at s c)"
      using boot_invD(3) [OF inv c] by blast
    show ?thesis
    proof (cases "relay_at s c = TWork")
      case True
      with ok have "b = BootstrapSocketRelay" by (cases b) auto
      with True st b one [OF b, of NormalStart "shared s"] show ?thesis
        by (auto simp: relay_handler_bootstrap_def set_bootstrap_state_Some bootstrap_order split: if_splits)
    qed (use st in \<open>auto simp: relay_handler_bootstrap_def split: task.splits splits\<close>)
  next
    case BlockManagerStep0
    obtain b where b: "chain_state s (tp_btc tp) = Some b" and ok: "btc_ok b (block_manager_at s) (btc_at s)"
      using boot_invD(4) [OF inv] by blast
    show ?thesis
    proof (cases "block_manager_at s = MSync")
      case True
      with ok have "b = NodeSyncing" by (cases b) auto
      with True step BlockManagerStep0 b one [OF b, of BootstrapSocketRelay "shared s"] show ?thesis
        by (auto simp: block_manager_bootstrap_0_def set_bootstrap_state_Some bootstrap_order)
    qed (use step BlockManagerStep0 in \<open>auto simp: block_manager_bootstrap_0_def split: manager_task.splits splits\<close>)
  next
    case BlockManagerStep
    obtain b where b: "chain_state s (tp_btc tp) = Some b" and ok: "btc_ok b (block_manager_at s) (btc_at s)"
      using boot_invD(4) [OF inv] by blast
    show ?thesis
    proof (cases "btc_at s = TWork")
      case True
      with ok have "b = BootstrapSocketRelay" by (cases b) auto
      with True step BlockManagerStep b one [OF b, of NormalStart "shared s"] show ?thesis
        by (auto simp: block_manager_bootstrap_def set_bootstrap_state_Some bootstrap_order split: if_splits)
    qed (use step BlockManagerStep in \<open>auto simp: block_manager_bootstrap_def split: task.splits splits\<close>)
  qed (use step in \<open>auto simp: wait_if_latest_round_def onflight_bootstrap_wait_def split: task.splits splits\<close>)
qed

lemma chain_state_mono:
  assumes "boot_inv tp s" and "wf_topology tp" and "boot_exec tp a s = Some t" and "chain_state s c = Some b"
  shows "\<exists>b'. chain_state t c = Some b' \<and> b \<le> b'"
  using chain_state_after [OF assms(1-3)]
proof (elim disjE exE conjE)
  fix x y
  assume all: "evm_all tp s (\<lambda>z. z = x)" "x < y"
    "chain_state t = (\<lambda>c. if c = tp_btc tp then chain_state s c else map_option (\<lambda>_. y) (chain_state s c))"
  show ?thesis
  proof (cases "c = tp_btc tp")
    case False
    with all(1) assms(4) have "b = x" unfolding evm_all_iff [OF assms(1,2)] by simp
    moreover have "chain_state t c = Some y" unfolding all(3) using False assms(4) by simp
    ultimately show ?thesis using all(2) by (blast intro: less_imp_le)
  next
    case True
    then have "chain_state t c = Some b" unfolding all(3) using assms(4) by simp
    then show ?thesis by blast
  qed
qed (use assms(4) in \<open>auto simp: less_imp_le\<close>)

lemma chain_state_mono_reachable:
  assumes "boot_reachable tp s t" and "boot_inv tp s" and "wf_topology tp" and "chain_state s c = Some b"
  shows "\<exists>b'. chain_state t c = Some b' \<and> b \<le> b'"
  using assms
proof (induction rule: boot_reachable.induct)
  case (boot_step s t a u)
  then obtain b1 where b1: "chain_state t c = Some b1" "b \<le> b1" by blast
  from boot_reachable_inv [OF boot_step.hyps(1)] boot_step.prems have "boot_inv tp t" by blast
  from chain_state_mono [OF this boot_step.prems(2) boot_step.hyps(2) b1(1)] b1(2)
  show ?case by (auto intro: order_trans)
qed auto

end
