(* ===== verification/Bootstrap_Progress.thy ===== *)
theory Bootstrap_Progress
  imports Bootstrap
begin

text \<open>
  What the start-up protocol guarantees: no socket event is replayed before the round-up is done
  everywhere, the chains only advance, normal operation can always be reached, and which waits
  never end.
\<close>

section \<open>Progress\<close>

fun task_weight :: "task \<Rightarrow> nat" where
  "task_weight TStart = 4"
| "task_weight TWait = 3"
| "task_weight TWork = 2"
| "task_weight TBarrier = 1"
| "task_weight TRun = 0"

fun manager_weight :: "manager_task \<Rightarrow> nat" where
  "manager_weight MInit = 3"
| "manager_weight MSync = 2"
| "manager_weight MFlush = 1"
| "manager_weight MRun = 0"

definition chain_weight :: "BootSystem \<Rightarrow> chain_id \<Rightarrow> nat" where
  "chain_weight s c =
     manager_weight (event_manager_at s c) + task_weight (poller_at s c) + task_weight (relay_at s c)"

definition boot_weight :: "BootTopology \<Rightarrow> BootSystem \<Rightarrow> nat" where
  "boot_weight tp s =
     sum (chain_weight s) (set (tp_evm tp)) + task_weight (emitter_at s) + task_weight (roundup_at s)
     + (length (tp_external tp) - length (barrier_arrivals s))
     + manager_weight (block_manager_at s) + task_weight (btc_at s)"

lemma chain_weight_dec:
  assumes "c \<in> set (tp_evm tp)" and "chain_weight t c < chain_weight s c"
    and "\<And>x. x \<noteq> c \<Longrightarrow> chain_weight t x = chain_weight s x"
    and "emitter_at t = emitter_at s" "roundup_at t = roundup_at s" "barrier_arrivals t = barrier_arrivals s"
      "block_manager_at t = block_manager_at s" "btc_at t = btc_at s"
  shows "boot_weight tp t < boot_weight tp s"
proof -
  have "sum (chain_weight t) (set (tp_evm tp)) < sum (chain_weight s) (set (tp_evm tp))"
  proof (rule sum_strict_mono_ex1)
    show "\<forall>x \<in> set (tp_evm tp). chain_weight t x \<le> chain_weight s x"
      using assms(2,3) by (metis less_imp_le order_refl)
    show "\<exists>x \<in> set (tp_evm tp). chain_weight t x < chain_weight s x"
      using assms(1,2) by blast
  qed simp
  then show ?thesis using assms(4-) by (simp add: boot_weight_def)
qed

lemma global_weight_dec:
  assumes "chain_weight t = chain_weight s"
    and "task_weight (emitter_at t) + task_weight (roundup_at t) + (length (tp_external tp) - length (barrier_arrivals t))
      + manager_weight (block_manager_at t) + task_weight (btc_at t)
    < task_weight (emitter_at s) + task_weight (roundup_at s) + (length (tp_external tp) - length (barrier_arrivals s))
      + manager_weight (block_manager_at s) + task_weight (btc_at s)"
  shows "boot_weight tp t < boot_weight tp s"
  using assms by (simp add: boot_weight_def)

definition moves_on :: "BootTopology \<Rightarrow> BootSystem \<Rightarrow> bool" where
  "moves_on tp s \<longleftrightarrow> (\<exists>a t. boot_exec tp a s = Some t \<and> boot_weight tp t < boot_weight tp s)"

lemma moves_onI: "boot_exec tp a s = Some t \<Longrightarrow> boot_weight tp t < boot_weight tp s \<Longrightarrow> moves_on tp s"
  unfolding moves_on_def by blast

lemma event_manager_moves:
  assumes "chain_state s c = Some b" and "c \<in> set (tp_evm tp)" and "event_manager_at s c \<noteq> MRun"
  shows "moves_on tp s"
proof (rule moves_onI [of _ "EventManagerStep c"])
  let ?t = "the (event_manager_bootstrap_0 c s)"
  show "boot_exec tp (EventManagerStep c) s = Some ?t"
    using assms by (cases "event_manager_at s c")
      (auto simp: event_manager_bootstrap_0_def is_before_bootstrap_state_def set_bootstrap_state_Some)
  show "boot_weight tp ?t < boot_weight tp s"
    using assms by (intro chain_weight_dec [OF assms(2)]) (cases "event_manager_at s c";
      auto simp: event_manager_bootstrap_0_def is_before_bootstrap_state_def set_bootstrap_state_Some chain_weight_def)+
qed

lemma poller_moves:
  assumes "chain_state s c = Some b" and "c \<in> set (tp_watch_list tp)" and "c \<in> set (tp_evm tp)"
    and "cccp_relay_queue_enabled (shared s)" and "b = BootstrapSocketRelayQueue"
    and "poller_at s c \<in> {TStart, TWait, TWork}"
  shows "moves_on tp s"
proof (rule moves_onI [of _ "PollerStep c []"])
  let ?t = "the (poller_bootstrap tp c [] s)"
  show "boot_exec tp (PollerStep c []) s = Some ?t"
    using assms by (auto simp: poller_bootstrap_def start_task_Some bootstrap_state_reached_Some set_bootstrap_state_Some)
  show "boot_weight tp ?t < boot_weight tp s"
    using assms by (intro chain_weight_dec [OF assms(3)])
      (auto simp: poller_bootstrap_def start_task_Some bootstrap_state_reached_Some set_bootstrap_state_Some chain_weight_def)
qed

lemma relay_handler_moves:
  assumes "chain_state s c = Some b" and "c \<in> set (tp_watch_list tp)" and "c \<in> set (tp_evm tp)"
    and "b = BootstrapSocketRelay" and "relay_at s c \<in> {TStart, TWait, TWork}"
  shows "moves_on tp s"
proof (rule moves_onI [of _ "RelayStep c"])
  let ?t = "the (relay_handler_bootstrap tp c s)"
  show "boot_exec tp (RelayStep c) s = Some ?t"
    using assms by (auto simp: relay_handler_bootstrap_def start_task_Some bootstrap_state_reached_Some set_bootstrap_state_Some)
  show "boot_weight tp ?t < boot_weight tp s"
    using assms by (intro chain_weight_dec [OF assms(3)])
      (auto simp: relay_handler_bootstrap_def start_task_Some bootstrap_state_reached_Some
        set_bootstrap_state_Some chain_weight_def)
qed

lemma emitter_moves:
  assumes "chain_state s (tp_bifrost tp) = Some BootstrapRoundUpPhase1" and "all_external_in_phase1 (tp_btc tp) (shared s)"
    and "bootstrap_config (shared s) = Some cfg" and "emitter_at s \<in> {TStart, TWait, TWork}"
  shows "moves_on tp s"
proof (rule moves_onI [of _ "EmitterStep []"])
  let ?t = "the (emitter_bootstrap tp [] s)"
  show "boot_exec tp (EmitterStep []) s = Some ?t"
    using assms by (auto simp: emitter_bootstrap_def start_task_Some)
  show "boot_weight tp ?t < boot_weight tp s"
    using assms by (intro global_weight_dec) (auto simp: emitter_bootstrap_def start_task_Some chain_weight_def)
qed

lemma roundup_moves:
  assumes "chain_state s (tp_bifrost tp) = Some BootstrapRoundUpPhase2"
    and "roundup_barrier (shared s) = length (tp_external tp) + 1"
    and "distinct (barrier_arrivals s)" and "set (barrier_arrivals s) \<subseteq> set (tp_external tp)"
    and "distinct (tp_external tp)" and "roundup_at s \<in> {TStart, TWait, TWork, TBarrier}"
  shows "moves_on tp s"
proof (cases "roundup_at s = TBarrier \<and> set (barrier_arrivals s) \<noteq> set (tp_external tp)")
  case True
  then obtain c where c: "c \<in> set (tp_external tp)" "c \<notin> set (barrier_arrivals s)"
    using assms(4) by blast
  have "length (barrier_arrivals s) < length (tp_external tp)"
  proof -
    have "card (set (barrier_arrivals s)) < card (set (tp_external tp))"
      using c assms(4) by (intro psubset_card_mono) auto
    then show ?thesis using assms(3,5) by (simp add: distinct_card)
  qed
  with True c show ?thesis
    by (intro moves_onI [of _ "CaughtUp c"]) (auto simp: wait_if_latest_round_def chain_weight_def
        intro!: global_weight_dec)
next
  case False
  then have full: "length (barrier_arrivals s) = length (tp_external tp)" if "roundup_at s = TBarrier"
    using that assms(3,5) by (metis distinct_card)
  show ?thesis
  proof (rule moves_onI [of _ RoundupStep])
    let ?t = "the (roundup_bootstrap tp s)"
    show "boot_exec tp RoundupStep s = Some ?t"
      using assms full by (auto simp: roundup_bootstrap_def start_task_Some bootstrap_state_reached_Some)
    show "boot_weight tp ?t < boot_weight tp s"
      using assms full by (intro global_weight_dec)
        (auto simp: roundup_bootstrap_def start_task_Some bootstrap_state_reached_Some chain_weight_def)
  qed
qed

lemma btc_moves:
  assumes "chain_state s (tp_btc tp) = Some b" and "btc_ok b (block_manager_at s) (btc_at s)" and "b \<noteq> NormalStart"
  shows "moves_on tp s"
proof (cases "block_manager_at s = MRun")
  case True
  with assms(2,3) have b: "b = BootstrapSocketRelay" "btc_at s \<in> {TStart, TWait, TWork}" by (cases b; auto)+
  show ?thesis
  proof (rule moves_onI [of _ BlockManagerStep])
    let ?t = "the (block_manager_bootstrap tp s)"
    show "boot_exec tp BlockManagerStep s = Some ?t"
      using assms b True by (auto simp: block_manager_bootstrap_def start_task_Some bootstrap_state_reached_Some
          set_bootstrap_state_Some)
    show "boot_weight tp ?t < boot_weight tp s"
      using assms b True by (intro global_weight_dec) (auto simp: block_manager_bootstrap_def start_task_Some
          bootstrap_state_reached_Some set_bootstrap_state_Some chain_weight_def)
  qed
next
  case False
  with assms(2,3) have b: "b = NodeSyncing" "block_manager_at s \<in> {MInit, MSync}" by (cases b; auto)+
  show ?thesis
  proof (rule moves_onI [of _ BlockManagerStep0])
    let ?t = "the (block_manager_bootstrap_0 tp s)"
    show "boot_exec tp BlockManagerStep0 s = Some ?t"
      using assms b by (auto simp: block_manager_bootstrap_0_def is_before_bootstrap_state_def set_bootstrap_state_Some)
    show "boot_weight tp ?t < boot_weight tp s"
      using assms b by (intro global_weight_dec) (auto simp: block_manager_bootstrap_0_def
          is_before_bootstrap_state_def set_bootstrap_state_Some chain_weight_def)
  qed
qed

text \<open>The topology has every chain watched and its external chains are distinct.\<close>

lemma not_bootstrapped_moves:
  assumes inv: "boot_inv tp s" and wf: "wf_topology tp" and watch: "set (tp_watch_list tp) = set (tp_evm tp)"
    and open_chain: "\<not> all_chains_bootstrapped (shared s)"
  shows "moves_on tp s"
proof -
  let ?f = "tp_bifrost tp"
  have f: "?f \<in> set (tp_evm tp)" and ext: "distinct (tp_external tp)"
    using wf by (auto simp: wf_topology_def tp_evm_def tp_external_def external_providers_def distinct_map_filter)
  have bar: "roundup_barrier (shared s) = length (tp_external tp) + 1"
    and arr: "distinct (barrier_arrivals s)" "set (barrier_arrivals s) \<subseteq> set (tp_external tp)"
    and cfg: "\<exists>cfg. bootstrap_config (shared s) = Some cfg"
    using inv unfolding boot_inv_def by blast+
  obtain bb where btc: "chain_state s (tp_btc tp) = Some bb" "btc_ok bb (block_manager_at s) (btc_at s)"
    using boot_invD(4) [OF inv] by blast
  consider "stage_syncing tp s" | "stage_roundup tp s" | "stage_relay tp s"
    using boot_invD(5) [OF inv] by blast
  then show ?thesis
  proof cases
    case 1
    show ?thesis
    proof (cases "\<exists>c \<in> set (tp_evm tp). event_manager_at s c \<noteq> MRun")
      case True
      then show ?thesis using event_manager_moves boot_invD(3) [OF inv] by blast
    next
      case False
      have "b = BootstrapRoundUpPhase1" if "c \<in> set (tp_evm tp)" "chain_state s c = Some b" for c b
      proof -
        have "chain_ok (cccp_relay_queue_enabled (shared s)) b MRun (poller_at s c) (relay_at s c)"
          using False that boot_invD(3) [OF inv that(1)] by auto
        moreover have "b \<le> BootstrapRoundUpPhase1"
          using 1 evm_allD [OF _ that, of "\<lambda>b. b \<le> BootstrapRoundUpPhase1"] by (simp add: stage_syncing_def)
        ultimately show ?thesis by (cases b) (auto simp: bootstrap_order)
      qed
      then have all: "evm_all tp s (\<lambda>b. b = BootstrapRoundUpPhase1)"
        using boot_invD(3) [OF inv] unfolding evm_all_def by fastforce
      then have "chain_state s ?f = Some BootstrapRoundUpPhase1"
        using f by (auto simp: evm_all_def)
      then show ?thesis
        using emitter_moves cfg 1 all phase1_iff [OF inv wf] by (auto simp: stage_syncing_def)
    qed
  next
    case 2
    then have "chain_state s ?f = Some BootstrapRoundUpPhase2"
      using f by (auto simp: stage_roundup_def evm_all_def)
    then show ?thesis
      using roundup_moves [OF _ bar arr ext] 2 by (simp add: stage_roundup_def)
  next
    case 3
    show ?thesis
    proof (cases "evm_all tp s (\<lambda>b. b = NormalStart)")
      case True
      then have "bb \<noteq> NormalStart"
        using open_chain btc(1) bootstrapped_iff [OF inv wf] by auto
      then show ?thesis using btc_moves [OF btc] by blast
    next
      case False
      then obtain c where c: "c \<in> set (tp_evm tp)" and n: "chain_state s c \<noteq> Some NormalStart"
        by (auto simp: evm_all_def)
      then obtain b where b: "chain_state s c = Some b" "b \<noteq> NormalStart"
        and ok: "chain_ok (cccp_relay_queue_enabled (shared s)) b MRun (poller_at s c) (relay_at s c)
          \<or> chain_ok (cccp_relay_queue_enabled (shared s)) b (event_manager_at s c) (poller_at s c) (relay_at s c)"
        using boot_invD(3) [OF inv c] by auto
      have "BootstrapSocketRelayQueue \<le> b"
        using 3 evm_allD [OF _ c b(1), of "\<lambda>b. BootstrapSocketRelayQueue \<le> b"] by (simp add: stage_relay_def)
      with b(2) have "b = BootstrapSocketRelayQueue \<or> b = BootstrapSocketRelay"
        by (cases b) (auto simp: bootstrap_order)
      then show ?thesis
        using ok poller_moves [OF b(1) _ c] relay_handler_moves [OF b(1) _ c] watch c by auto
    qed
  qed
qed

lemma boot_reachable_trans:
  "boot_reachable tp t u \<Longrightarrow> boot_reachable tp s t \<Longrightarrow> boot_reachable tp s u"
  by (induction rule: boot_reachable.induct) (auto intro: boot_step)

lemma reaches_normal_start:
  assumes "boot_inv tp s" and "wf_topology tp" and "set (tp_watch_list tp) = set (tp_evm tp)"
  shows "\<exists>t. boot_reachable tp s t \<and> all_chains_bootstrapped (shared t)"
  using assms(1)
proof (induction "boot_weight tp s" arbitrary: s rule: less_induct)
  case less
  show ?case
  proof (cases "all_chains_bootstrapped (shared s)")
    case False
    then obtain a t where t: "boot_exec tp a s = Some t" "boot_weight tp t < boot_weight tp s"
      using not_bootstrapped_moves [OF less.prems assms(2,3)] unfolding moves_on_def by blast
    from less.hyps [OF t(2) boot_exec_inv [OF less.prems assms(2) t(1)]] obtain u where
      "boot_reachable tp t u" "all_chains_bootstrapped (shared u)" by blast
    moreover have "boot_reachable tp s t" using t(1) by (rule boot_step [OF boot_refl])
    ultimately show ?thesis using boot_reachable_trans by blast
  qed (blast intro: boot_refl)
qed

section \<open>A small deployment\<close>

definition ex_provider :: "chain_id \<Rightarrow> bool \<Rightarrow> EVMProvider" where
  "ex_provider chain native =
     \<lparr>ep_name = ''chain'', ep_id = chain, ep_provider = ''http'', ep_call_interval = 3000,
      ep_block_confirmations = 5, ep_is_native = Some native, ep_is_relay_target = True,
      ep_eip1559 = None, ep_get_logs_batch_size = None, ep_max_hook_fee = None,
      socket_address = '''', authority_address = '''', vault_address = '''', hooks_address = None,
      relayer_manager_address = None, bitcoin_socket_address = None, socket_queue_address = None,
      registration_pool_address = None, relay_executive_address = None, blaze_address = None,
      chainlink_usdc_usd_address = None, chainlink_usdt_usd_address = None,
      chainlink_dai_usd_address = None, chainlink_btc_usd_address = None,
      chainlink_wbtc_usd_address = None, chainlink_cbbtc_usd_address = None,
      chainlink_jpy_usd_address = None\<rparr>"

definition ex_topology :: BootTopology where
  "ex_topology =
     \<lparr>tp_providers = [ex_provider 3068 True, ex_provider 1 False], tp_watch_list = [3068, 1],
      tp_bifrost = 3068, tp_btc = 10000\<rparr>"

definition ex_boot_config :: BootstrapConfig where
  "ex_boot_config = \<lparr>is_enabled = True, round_offset = None, btc_block_offset = None\<rparr>"

lemma ex_topology_wf: "wf_topology ex_topology"
  by (simp add: wf_topology_def ex_topology_def tp_evm_def ex_provider_def)

fun boot_run :: "BootTopology \<Rightarrow> boot_action list \<Rightarrow> BootSystem \<Rightarrow> BootSystem option" where
  "boot_run tp [] s = Some s"
| "boot_run tp (a # as) s = (case boot_exec tp a s of None \<Rightarrow> None | Some t \<Rightarrow> boot_run tp as t)"

lemma boot_run_reachable: "boot_run tp as s = Some t \<Longrightarrow> boot_reachable tp s t"
  by (induction "as" arbitrary: s)
    (auto intro: boot_refl boot_reachable_trans [OF _ boot_step [OF boot_refl]] split: option.splits)

text \<open>A run to the replay of the external chain, and one to the end, with a restart of the emitter.\<close>

definition ex_run_replay :: "boot_action list" where
  "ex_run_replay =
     concat (replicate 3 [EventManagerStep 3068, EventManagerStep 1]) @ replicate 3 (EmitterStep [])
     @ [OnflightStep] @ replicate 3 RoundupStep @ [CaughtUp 1, RoundupStep]
     @ replicate 3 (PollerStep 1 []) @ replicate 2 (RelayStep 1)"

definition ex_run_stuck :: "boot_action list" where
  "ex_run_stuck =
     ex_run_replay @ [EmitterFails, EmitterStep []] @ replicate 3 (PollerStep 3068 []) @ replicate 3 (RelayStep 3068)"

lemma ex_run_replay_state:
  "\<exists>s. boot_reachable ex_topology (boot_init ex_topology (Some ex_boot_config) True) s
     \<and> relay_at s 1 = TWork \<and> map_of (bootstrap_states (shared s)) 3068 = Some BootstrapSocketRelayQueue"
proof -
  have "map_option (\<lambda>s. (relay_at s 1, map_of (bootstrap_states (shared s)) 3068))
      (boot_run ex_topology ex_run_replay (boot_init ex_topology (Some ex_boot_config) True))
    = Some (TWork, Some BootstrapSocketRelayQueue)"
    by code_simp
  then show ?thesis by (auto intro: boot_run_reachable)
qed

lemma ex_run_stuck_state:
  "\<exists>s. boot_reachable ex_topology (boot_init ex_topology (Some ex_boot_config) True) s
     \<and> emitter_at s = TWait \<and> onflight_at s = TWait
     \<and> map_of (bootstrap_states (shared s)) 3068 = Some NormalStart"
proof -
  have "map_option (\<lambda>s. (emitter_at s, onflight_at s, map_of (bootstrap_states (shared s)) 3068))
      (boot_run ex_topology ex_run_stuck (boot_init ex_topology (Some ex_boot_config) True))
    = Some (TWait, TWait, Some NormalStart)"
    by code_simp
  then show ?thesis by (auto intro: boot_run_reachable)
qed

lemma waiting_step:
  assumes inv: "boot_inv tp s" and wf: "wf_topology tp" and step: "boot_exec tp a s = Some t"
    and b: "chain_state s (tp_bifrost tp) = Some b"
  shows "(emitter_at s = TWait \<and> BootstrapRoundUpPhase1 < b \<longrightarrow> emitter_at t = TWait)
    \<and> (onflight_at s = TWait \<and> b = NormalStart \<longrightarrow> onflight_at t = TWait)"
proof -
  have f: "tp_bifrost tp \<in> set (tp_evm tp)" using wf by (simp add: wf_topology_def)
  have past: "\<not> all_external_in_phase1 (tp_btc tp) (shared s)" if "BootstrapRoundUpPhase1 < b"
    using that phase1_iff [OF inv wf] evm_allD [OF _ f b, of "\<lambda>b. b = BootstrapRoundUpPhase1"] by auto
  note splits = if_splits option.splits res.splits bool.splits task.splits manager_task.splits
  show ?thesis
  proof (cases a)
    case (EmitterStep logs)
    with step past show ?thesis by (auto simp: emitter_bootstrap_def split: splits)
  next
    case OnflightStep
    with step b show ?thesis
      by (auto simp: onflight_bootstrap_wait_def bootstrap_state_reached_Some split: splits)
  next
    case (EventManagerStep c)
    with step show ?thesis by (auto simp: event_manager_bootstrap_0_def split: splits)
  next
    case RoundupStep
    with step show ?thesis by (auto simp: roundup_bootstrap_def split: splits)
  next
    case (PollerStep c logs)
    with step show ?thesis by (auto simp: poller_bootstrap_def split: splits)
  next
    case (RelayStep c)
    with step show ?thesis by (auto simp: relay_handler_bootstrap_def split: splits)
  next
    case BlockManagerStep0
    with step show ?thesis by (auto simp: block_manager_bootstrap_0_def split: splits)
  next
    case BlockManagerStep
    with step show ?thesis by (auto simp: block_manager_bootstrap_def split: splits)
  qed (use step in \<open>auto simp: wait_if_latest_round_def restart_task_Some split: if_splits\<close>)
qed

lemma waiting_reachable:
  assumes "boot_reachable tp s t" and "boot_inv tp s" and "wf_topology tp"
    and "chain_state s (tp_bifrost tp) = Some b"
  shows "(emitter_at s = TWait \<and> BootstrapRoundUpPhase1 < b \<longrightarrow> emitter_at t = TWait)
    \<and> (onflight_at s = TWait \<and> b = NormalStart \<longrightarrow> onflight_at t = TWait)"
  using assms
proof (induction rule: boot_reachable.induct)
  case (boot_step s t a u)
  have inv: "boot_inv tp t"
    using boot_reachable_inv [OF boot_step.hyps(1) boot_step.prems(1,2)] .
  obtain b' where b': "chain_state t (tp_bifrost tp) = Some b'" "b \<le> b'"
    using chain_state_mono_reachable [OF boot_step.hyps(1) boot_step.prems] by blast
  have "b' = NormalStart" if "b = NormalStart"
    using that b'(2) by (cases b') (auto simp: bootstrap_order)
  moreover have "BootstrapRoundUpPhase1 < b'" if "BootstrapRoundUpPhase1 < b"
    using that b'(2) by (rule less_le_trans)
  ultimately show ?case
    using waiting_step [OF inv boot_step.prems(2) boot_step.hyps(2) b'(1)] boot_step.IH [OF boot_step.prems]
    by blast
qed simp

section \<open>Properties\<close>

lemma started_inv:
  assumes "wf_topology tp" and "is_enabled cfg" and "boot_reachable tp (boot_init tp (Some cfg) q) s"
  shows "boot_inv tp s"
  using boot_reachable_inv [OF assms(3) init_inv [OF assms(1,2)] assms(1)] .



text \<open>
  The start-up state of a chain only advances, and normal operation is final. From any state
  the relayer can get into, whatever happens afterwards, restarts included, no chain goes back
  to an earlier state, and once all chains are in normal operation they stay there.
\<close>

theorem bootstrap_advances:
  assumes "wf_topology tp" and "is_enabled cfg" and "boot_reachable tp (boot_init tp (Some cfg) q) s"
    and "boot_reachable tp s t"
  shows "(\<forall>c b. map_of (bootstrap_states (shared s)) c = Some b \<longrightarrow>
      (\<exists>b'. map_of (bootstrap_states (shared t)) c = Some b' \<and> b \<le> b'))
    \<and> (all_chains_bootstrapped (shared s) \<longrightarrow> all_chains_bootstrapped (shared t))"
proof -
  have inv: "boot_inv tp s" using assms(1-3) by (rule started_inv)
  then have inv': "boot_inv tp t" using boot_reachable_inv assms(1,4) by blast
  have mono: "\<exists>b'. chain_state t c = Some b' \<and> b \<le> b'" if "chain_state s c = Some b" for c b
    using chain_state_mono_reachable [OF assms(4) inv assms(1) that] .
  have top: "b = NormalStart" if "NormalStart \<le> b" for b
    using that by (cases b) (auto simp: bootstrap_order)
  have "evm_all tp t (\<lambda>b. b = NormalStart)" if "evm_all tp s (\<lambda>b. b = NormalStart)"
    using that mono top unfolding evm_all_def by blast
  then have "all_chains_bootstrapped (shared t)" if "all_chains_bootstrapped (shared s)"
    using that mono [of "tp_btc tp" NormalStart] top
    unfolding bootstrapped_iff [OF inv assms(1)] bootstrapped_iff [OF inv' assms(1)] by blast
  with mono show ?thesis by blast
qed

theorem bootstrap_advances_witness:
  "\<exists>s. map_of (bootstrap_states (shared s)) 3068 = Some BootstrapSocketRelayQueue
     \<and> \<not> (\<exists>t. boot_reachable ex_topology s t \<and> map_of (bootstrap_states (shared t)) 3068 = Some NodeSyncing)"
proof -
  obtain s where s: "boot_reachable ex_topology (boot_init ex_topology (Some ex_boot_config) True) s"
    "map_of (bootstrap_states (shared s)) 3068 = Some BootstrapSocketRelayQueue"
    using ex_run_replay_state by blast
  have "map_of (bootstrap_states (shared t)) 3068 \<noteq> Some NodeSyncing" if "boot_reachable ex_topology s t" for t
  proof -
    have "is_enabled ex_boot_config" by (simp add: ex_boot_config_def)
    from bootstrap_advances [OF ex_topology_wf this s(1) that] s(2) obtain b' where
      "map_of (bootstrap_states (shared t)) 3068 = Some b'" "BootstrapSocketRelayQueue \<le> b'" by blast
    then show ?thesis by (auto simp: bootstrap_order)
  qed
  with s(2) show ?thesis by blast
qed



text \<open>
  C32: Two waits that never end. The round-up emitter waits for the first round-up phase and the
  on-flight handler for the relay phase by exact comparison. Once Bifrost has passed the phase, an
  emitter that is waiting (it failed after its bootstrap, while others still had theirs to do)
  and an on-flight handler that is waiting (it failed later, or missed the phase between two
  readings) wait for ever, whatever the other tasks do.
\<close>

theorem waits_forever:
  assumes "wf_topology tp" and "is_enabled cfg" and "boot_reachable tp (boot_init tp (Some cfg) q) s"
    and "boot_reachable tp s t" and "map_of (bootstrap_states (shared s)) (tp_bifrost tp) = Some b"
  shows "(emitter_at s = TWait \<and> BootstrapRoundUpPhase1 < b \<longrightarrow> emitter_at t = TWait)
    \<and> (onflight_at s = TWait \<and> b = NormalStart \<longrightarrow> onflight_at t = TWait)"
  using waiting_reachable [OF assms(4) started_inv [OF assms(1-3)] assms(1,5)] .

theorem waits_forever_witness:
  "\<exists>s. boot_reachable ex_topology (boot_init ex_topology (Some ex_boot_config) True) s
     \<and> \<not> (\<exists>t. boot_reachable ex_topology s t \<and> (emitter_at t \<noteq> TWait \<or> onflight_at t \<noteq> TWait))"
proof -
  obtain s where s: "boot_reachable ex_topology (boot_init ex_topology (Some ex_boot_config) True) s"
    "emitter_at s = TWait" "onflight_at s = TWait" "map_of (bootstrap_states (shared s)) 3068 = Some NormalStart"
    using ex_run_stuck_state by blast
  have "is_enabled ex_boot_config" "tp_bifrost ex_topology = 3068"
    by (simp_all add: ex_boot_config_def ex_topology_def)
  then have "emitter_at t = TWait \<and> onflight_at t = TWait" if "boot_reachable ex_topology s t" for t
    using waits_forever [OF ex_topology_wf _ s(1) that, of NormalStart] s(2-) by (simp add: bootstrap_order)
  with s(1) show ?thesis by blast
qed

text \<open>
  The poller's history is what the relay handler replays. When the queue poller of a chain
  fetches its bootstrap events successfully, the relay handler that takes the shared cache next
  replays exactly these events, in their order, without asking the node again; a second take (a
  restart in the middle of the replay) finds the cache empty and falls back to the node.
\<close>

theorem bootstrap_logs_handed_over:
  assumes "q_bootstrap_events qenv config offset_height = Some (Ok logs, Some cached)"
  shows "relay_bootstrap renv
      (fst (take_bootstrap_socket_logs c (set_bootstrap_socket_logs c cached d))) config' offset_height' =
        Some (for_each (\<lambda>log. process_confirmed_log renv log True) logs)
    \<and> fst (take_bootstrap_socket_logs c (snd (take_bootstrap_socket_logs c
        (set_bootstrap_socket_logs c cached d)))) = None"
proof -
  have "cached = logs"
    using assms by (auto simp: q_bootstrap_events_def split: option.splits res.splits)
  then show ?thesis
    using socket_log_cache.handed_over_once [of c cached d]
    by (simp add: relay_bootstrap_def relay_bootstrap_events_def)
qed

theorem bootstrap_logs_handed_over_witness:
  "relay_bootstrap ex_boot_env (fst (take_bootstrap_socket_logs 1 (set_bootstrap_socket_logs 1 [ex_log 11 7]
      (BootstrapSharedData_new [] 10000 None)))) None (\<lambda>_. Ok 0) =
    Some (for_each (\<lambda>log. process_confirmed_log ex_boot_env log True) [ex_log 11 7])"
proof -
  let ?env = "ex_queue_env\<lparr>q_block_number := Ok 100, q_get_logs := (\<lambda>_. Ok [ex_log 11 7])\<rparr>"
  have "fetch_chunks (\<lambda>a b. Ok [ex_log 11 7]) 80 100 BOOTSTRAP_BLOCK_CHUNK_SIZE [] = Some (Ok [ex_log 11 7])"
    by (subst fetch_chunks.simps, subst fetch_chunks.simps)
      (simp add: BOOTSTRAP_BLOCK_CHUNK_SIZE_def min_def Let_def)
  then have "q_bootstrap_events ?env (Some ex_boot_config) (\<lambda>_. Ok 20) = Some (Ok [ex_log 11 7], Some [ex_log 11 7])"
    by (simp add: q_bootstrap_events_def ex_boot_config_def saturating_sub_def)
  from bootstrap_logs_handed_over [OF this, of ex_boot_env 1 "BootstrapSharedData_new [] 10000 None" None "\<lambda>_. Ok 0"]
  show ?thesis by (rule conjunct1)
qed

end
