(* ===== verification/Unsigned_Manager.thy ===== *)
theory Unsigned_Manager
  imports Tx_Requests "HOL-Library.Sublist"
begin

text \<open>
  Submission of unsigned extrinsics to the Bifrost runtime
  (\<open>client/src/substrate/tx/unsigned_manager.rs\<close>, \<open>client/src/substrate/traits.rs\<close>): the
  manager that takes requests off the channel, and the task spawned for each of them, which
  submits, waits for finality and retries. The runtime's answers are a sequence that the task
  consumes, one per attempt.
\<close>

section \<open>The task\<close>

text \<open>What an attempt meets: no client, no extrinsic, a failed submission, no success, success.\<close>

datatype submit_answer =
    ClientFails
  | CreateFails
  | SubmitFails string
  | FinalizeFails string
  | Finalized

datatype xt_step = SubmittedXt XtRequest | SleptMs u64

datatype xt_outcome = XtIncluded | XtNotNeeded | XtExhausted

text \<open>The pallet errors that say another relayer's vote was enough.\<close>

definition not_retryable :: "XtRequestMetadata \<Rightarrow> string \<Rightarrow> bool" where
  "not_retryable meta error_str =
     (case meta of
        XtSubmitSignedPsbt _ \<Rightarrow> sublist ''BtcSocketQueue::RequestDNE'' error_str
      | XtSubmitExecutedRequest _ \<Rightarrow>
          sublist ''BtcSocketQueue::RequestDNE'' error_str
          \<or> sublist ''BtcSocketQueue::BroadcastAlreadyConfirmed'' error_str
      | XtBroadcastPoll _ \<Rightarrow> sublist ''Blaze::AlreadySpent'' error_str
      | XtOnFlightPoll _ \<Rightarrow> sublist ''CCCPRelayQueue::TransferAlreadyOnFlight'' error_str
      | XtFinalizePoll _ \<Rightarrow> sublist ''CCCPRelayQueue::TransferAlreadyFinalized'' error_str
      | _ \<Rightarrow> False)"

text \<open>The message of the next attempt and what is done before it.\<close>

definition retry_transaction :: "XtRequestMessage \<Rightarrow> XtRequestMessage \<times> xt_step list" where
  "retry_transaction msg = (build_retry_event msg, [SleptMs (retry_interval (build_retry_event msg))])"

definition handle_failed_tx_request ::
    "XtRequestMessage \<Rightarrow> string \<Rightarrow> (XtRequestMessage \<times> xt_step list) option" where
  "handle_failed_tx_request msg error_str =
     (if not_retryable (xt_metadata msg) error_str then None else Some (retry_transaction msg))"

definition handle_failed_tx_creation :: "XtRequestMessage \<Rightarrow> XtRequestMessage \<times> xt_step list" where
  "handle_failed_tx_creation msg = retry_transaction msg"

lemma unat_pred_less: "(r :: 'a::len word) \<noteq> 0 \<Longrightarrow> unat (saturating_sub r 1) < unat r"
  by (simp add: unat_gt_0)

lemma retry_simps [simp]:
  "fst (retry_transaction msg) = build_retry_event msg"
  "snd (retry_transaction msg) = [SleptMs (retry_interval msg)]"
  "xt_call (build_retry_event msg) = xt_call msg"
  "xt_metadata (build_retry_event msg) = xt_metadata msg"
  "retry_interval (build_retry_event msg) = retry_interval msg"
  by (simp_all add: retry_transaction_def build_retry_event_def)

text \<open>One attempt: what it does, and either how the task ends or the message it goes on with.\<close>

definition xt_attempt ::
    "submit_answer \<Rightarrow> XtRequestMessage \<Rightarrow> xt_step list \<times> (xt_outcome + XtRequestMessage)" where
  "xt_attempt answer msg =
     (case answer of
        ClientFails \<Rightarrow> (snd (handle_failed_tx_creation msg), Inr (fst (handle_failed_tx_creation msg)))
      | CreateFails \<Rightarrow> (snd (handle_failed_tx_creation msg), Inr (fst (handle_failed_tx_creation msg)))
      | SubmitFails e \<Rightarrow>
          (case handle_failed_tx_request msg e of
             None \<Rightarrow> ([SubmittedXt (xt_call msg)], Inl XtNotNeeded)
           | Some (m, steps) \<Rightarrow> (SubmittedXt (xt_call msg) # steps, Inr m))
      | FinalizeFails e \<Rightarrow>
          (case handle_failed_tx_request msg e of
             None \<Rightarrow> ([SubmittedXt (xt_call msg)], Inl XtNotNeeded)
           | Some (m, steps) \<Rightarrow> (SubmittedXt (xt_call msg) # steps, Inr m))
      | Finalized \<Rightarrow> ([SubmittedXt (xt_call msg)], Inl XtIncluded))"

lemma xt_attempt_retry:
  "xt_attempt answer msg = (steps, Inr m) \<Longrightarrow> m = build_retry_event msg"
  by (auto simp: xt_attempt_def handle_failed_tx_creation_def handle_failed_tx_request_def
      retry_transaction_def split: submit_answer.splits if_splits)

function try_send_unsigned_transaction ::
    "(nat \<Rightarrow> submit_answer) \<Rightarrow> nat \<Rightarrow> XtRequestMessage \<Rightarrow> xt_step list \<times> xt_outcome" where
  "try_send_unsigned_transaction answers n msg =
     (if retries_remaining msg = 0 then ([], XtExhausted)
      else case xt_attempt (answers n) msg of
             (steps, Inl outcome) \<Rightarrow> (steps, outcome)
           | (steps, Inr m) \<Rightarrow>
               (case try_send_unsigned_transaction answers (Suc n) m of
                  (later, outcome) \<Rightarrow> (steps @ later, outcome)))"
  by pat_completeness auto
termination
  by (relation "measure (\<lambda>(_, _, msg). unat (retries_remaining msg))")
    (auto dest!: xt_attempt_retry [OF sym] simp: build_retry_event_def unat_gt_0)

declare try_send_unsigned_transaction.simps [simp del]

section \<open>The manager\<close>

text \<open>
  The WebSocket scheme of the substrate client: \<open>wss\<close> for \<open>https\<close>, \<open>ws\<close> for everything else.
\<close>

definition sub_rpc_scheme :: "string \<Rightarrow> string" where
  "sub_rpc_scheme scheme = (if scheme = ''https'' then ''wss'' else ''ws'')"

record UnsignedTransactionManager =
  sub_client :: "string option"
  bfc_url_scheme :: string

definition UnsignedTransactionManager_new :: "string \<Rightarrow> UnsignedTransactionManager" where
  "UnsignedTransactionManager_new scheme = \<lparr>sub_client = None, bfc_url_scheme = scheme\<rparr>"

text \<open>Connecting may panic; \<open>connects\<close> says which endpoints answer.\<close>

definition um_initialize ::
    "(string \<Rightarrow> bool) \<Rightarrow> UnsignedTransactionManager \<Rightarrow> UnsignedTransactionManager res" where
  "um_initialize connects m =
     (let url = sub_rpc_scheme (bfc_url_scheme m)
      in if connects url then Ok (m\<lparr>sub_client := Some url\<rparr>) else Panic)"

text \<open>The task of a message runs only when there is a client; tasks do not share anything else.\<close>

definition spawn_send_transaction ::
    "(nat \<Rightarrow> submit_answer) \<Rightarrow> UnsignedTransactionManager \<Rightarrow> XtRequestMessage
      \<Rightarrow> (xt_step list \<times> xt_outcome) option" where
  "spawn_send_transaction answers m msg =
     (case sub_client m of
        None \<Rightarrow> None
      | Some _ \<Rightarrow> Some (try_send_unsigned_transaction answers 0 msg))"

text \<open>\<open>run\<close> on the messages of the channel, each with the answers its own task will get.\<close>

definition um_run ::
    "(string \<Rightarrow> bool) \<Rightarrow> UnsignedTransactionManager
      \<Rightarrow> ((nat \<Rightarrow> submit_answer) \<times> XtRequestMessage) list
      \<Rightarrow> (xt_step list \<times> xt_outcome) list res" where
  "um_run connects m messages =
     bind_res (um_initialize connects m) (\<lambda>m'.
       Ok (List.map_filter (\<lambda>(answers, msg). spawn_send_transaction answers m' msg) messages))"

section \<open>Counting attempts\<close>

text \<open>An answer after which the task goes on, for a message with the given metadata.\<close>

definition retried :: "XtRequestMetadata \<Rightarrow> submit_answer \<Rightarrow> bool" where
  "retried meta answer =
     (case answer of
        ClientFails \<Rightarrow> True
      | CreateFails \<Rightarrow> True
      | SubmitFails e \<Rightarrow> \<not> not_retryable meta e
      | FinalizeFails e \<Rightarrow> \<not> not_retryable meta e
      | Finalized \<Rightarrow> False)"

fun reaches_pool :: "submit_answer \<Rightarrow> bool" where
  "reaches_pool ClientFails = False"
| "reaches_pool CreateFails = False"
| "reaches_pool _ = True"

definition final_outcome :: "submit_answer \<Rightarrow> xt_outcome" where
  "final_outcome answer = (if answer = Finalized then XtIncluded else XtNotNeeded)"

definition attempt_steps :: "XtRequestMessage \<Rightarrow> submit_answer \<Rightarrow> xt_step list" where
  "attempt_steps msg answer =
     (if reaches_pool answer then [SubmittedXt (xt_call msg)] else [])
       @ (if retried (xt_metadata msg) answer then [SleptMs (retry_interval msg)] else [])"

lemma xt_attempt_eq:
  "xt_attempt answer msg =
     (attempt_steps msg answer,
      if retried (xt_metadata msg) answer then Inr (build_retry_event msg)
      else Inl (final_outcome answer))"
  by (auto simp: xt_attempt_def attempt_steps_def retried_def final_outcome_def
      handle_failed_tx_creation_def handle_failed_tx_request_def
      retry_transaction_def split: submit_answer.splits)

lemma attempt_steps_retry [simp]:
  "attempt_steps (build_retry_event msg) = attempt_steps msg"
  by (simp add: attempt_steps_def fun_eq_iff)

lemma retries_build_retry [simp]:
  "unat (retries_remaining (build_retry_event msg)) = unat (retries_remaining msg) - 1"
  by (simp add: build_retry_event_def)

lemma try_send_eq:
  "try_send_unsigned_transaction answers n msg =
     (let r = unat (retries_remaining msg);
          tried = takeWhile (retried (xt_metadata msg)) (map answers [n..<n + r])
      in if length tried = r
         then (concat (map (attempt_steps msg) tried), XtExhausted)
         else (concat (map (attempt_steps msg) (tried @ [answers (n + length tried)])),
               final_outcome (answers (n + length tried))))"
proof (induction answers n msg rule: try_send_unsigned_transaction.induct)
  case (1 answers n msg)
  show ?case
  proof (cases "retries_remaining msg = 0")
    case True
    then show ?thesis
      by (simp add: try_send_unsigned_transaction.simps)
  next
    case False
    then obtain k where k: "unat (retries_remaining msg) = Suc k"
      using unat_gt_0 gr0_conv_Suc by blast
    have upt: "[n..<Suc (n + k)] = n # [Suc n..<Suc (n + k)]"
      by (simp add: upt_conv_Cons del: upt_Suc)
    show ?thesis
    proof (cases "retried (xt_metadata msg) (answers n)")
      case True
      have step: "try_send_unsigned_transaction answers n msg =
          (case try_send_unsigned_transaction answers (Suc n) (build_retry_event msg) of
             (later, outcome) \<Rightarrow> (attempt_steps msg (answers n) @ later, outcome))"
        using False True by (subst try_send_unsigned_transaction.simps) (simp add: xt_attempt_eq)
      show ?thesis
        using True k 1 [OF False xt_attempt_eq [symmetric, of msg "answers n"], of "build_retry_event msg"]
        unfolding step by (simp add: Let_def upt del: upt_Suc)
    next
      case last: False
      then show ?thesis
        using False k
        by (subst try_send_unsigned_transaction.simps) (simp add: xt_attempt_eq upt del: upt_Suc)
    qed
  qed
qed

section \<open>Properties\<close>

lemma ex_less_3: "(\<exists>k<3. P (k::nat)) \<longleftrightarrow> P 0 \<or> P 1 \<or> P 2"
  by (auto simp: numeral_3_eq_3 numeral_2_eq_2 less_Suc_eq)

lemma all_less_3: "(\<forall>k<3. P (k::nat)) \<longleftrightarrow> P 0 \<and> P 1 \<and> P 2"
  by (auto simp: numeral_3_eq_3 numeral_2_eq_2 less_Suc_eq)

lemma all_less_2: "(\<forall>k<2. P (k::nat)) \<longleftrightarrow> P 0 \<and> P 1"
  by (auto simp: numeral_2_eq_2 less_Suc_eq)

lemma try_send_new_eq:
  "try_send_unsigned_transaction answers 0 (XtRequestMessage_new call meta) =
     (let steps = attempt_steps (XtRequestMessage_new call meta) \<circ> answers
      in if \<not> retried meta (answers 0) then (steps 0, final_outcome (answers 0))
         else if \<not> retried meta (answers 1) then (steps 0 @ steps 1, final_outcome (answers 1))
         else if \<not> retried meta (answers 2)
              then (steps 0 @ steps 1 @ steps 2, final_outcome (answers 2))
         else (steps 0 @ steps 1 @ steps 2, XtExhausted))"
proof -
  have "unat (retries_remaining (XtRequestMessage_new call meta)) = 3"
    by (simp add: XtRequestMessage_new_def DEFAULT_TX_RETRIES_def)
  moreover have "[0..<0 + 3] = [0, 1, 2 :: nat]"
    by (simp add: numeral_3_eq_3 numeral_2_eq_2)
  moreover have "xt_metadata (XtRequestMessage_new call meta) = meta"
    by (simp add: XtRequestMessage_new_def)
  ultimately show ?thesis
    by (simp add: try_send_eq Let_def numeral_2_eq_2)
qed

lemma attempt_steps_new:
  "attempt_steps (XtRequestMessage_new call meta) answer =
     (if reaches_pool answer then [SubmittedXt call] else [])
       @ (if retried meta answer then [SleptMs 3000] else [])"
  by (simp add: attempt_steps_def XtRequestMessage_new_def DEFAULT_TX_RETRY_INTERVAL_MS_def)

lemma retried_Finalized [simp]: "\<not> retried meta Finalized"
  by (simp add: retried_def)

lemma final_outcome_simps [simp]:
  "final_outcome a \<noteq> XtExhausted" "final_outcome a = XtIncluded \<longleftrightarrow> a = Finalized"
  "final_outcome a = XtNotNeeded \<longleftrightarrow> a \<noteq> Finalized"
  by (simp_all add: final_outcome_def)



text \<open>
  A vote that came too late is dropped at once: the pallet's answer that the transfer is already
  on flight or already finalised ends the task after one submission, whatever would come next.
\<close>

lemma late_vote_dropped:
  assumes "answers 0 = SubmitFails e \<or> answers 0 = FinalizeFails e"
    and "meta = XtOnFlightPoll m1 \<and> sublist ''CCCPRelayQueue::TransferAlreadyOnFlight'' e
       \<or> meta = XtFinalizePoll m2 \<and> sublist ''CCCPRelayQueue::TransferAlreadyFinalized'' e"
  shows "try_send_unsigned_transaction answers 0 (XtRequestMessage_new call meta) =
    ([SubmittedXt call], XtNotNeeded)"
  using assms
  by (auto simp: try_send_new_eq attempt_steps_new retried_def not_retryable_def final_outcome_def)

text \<open>The manager drops nothing: every message of the channel gets its task.\<close>

lemma um_run_all:
  assumes "connects (sub_rpc_scheme scheme)"
  shows "um_run connects (UnsignedTransactionManager_new scheme) messages =
    Ok (map (\<lambda>(answers, msg). try_send_unsigned_transaction answers 0 msg) messages)"
  using assms
  by (induction messages)
    (auto simp: um_run_def um_initialize_def UnsignedTransactionManager_new_def Let_def
      spawn_send_transaction_def List.map_filter_def)

end
