(* ===== verification/Btc_Block_Manager.thy ===== *)
theory Btc_Block_Manager
  imports Example_Setup
begin

text \<open>
  The Bitcoin block manager (\<open>client/src/btc/block.rs\<close>, \<open>primitives/src/btc.rs\<close>): it follows
  the Bitcoin chain at a distance of \<open>block_confirmations\<close> blocks, picks the outputs that pay a
  vault (inbound) or a refund address (outbound), and broadcasts them to the handlers, three
  messages per block. Answers of the Bitcoin node and of the Bifrost contracts are arguments.
\<close>

section \<open>Events\<close>

datatype EventType = EventInbound | EventOutbound | EventNewBlock

record BtcEvent =
  be_txid :: txid
  be_index :: u32
  be_address :: btc_address
  be_amount :: u64

record BtcEventMessage =
  bem_block_number :: u64
  bem_event_type :: EventType
  bem_events :: "BtcEvent list"

definition msg_inbound :: "u64 \<Rightarrow> BtcEventMessage" where
  "msg_inbound n = \<lparr>bem_block_number = n, bem_event_type = EventInbound, bem_events = []\<rparr>"

definition msg_outbound :: "u64 \<Rightarrow> BtcEventMessage" where
  "msg_outbound n = \<lparr>bem_block_number = n, bem_event_type = EventOutbound, bem_events = []\<rparr>"

definition msg_new_block :: "u64 \<Rightarrow> BtcEventMessage" where
  "msg_new_block n = \<lparr>bem_block_number = n, bem_event_type = EventNewBlock, bem_events = []\<rparr>"

section \<open>The node\<close>

record Vout =
  vout_n :: u32
  vout_address :: "btc_address option"
  vout_value :: u64

record BtcTx =
  btx_txid :: txid
  btx_vout :: "Vout list"

definition DEFAULT_CALL_RETRIES :: nat where "DEFAULT_CALL_RETRIES = 3"

text \<open>
  The first answer within the allowed attempts, \<open>answers k\<close> being the node's answer to
  attempt \<open>k\<close> (\<open>None\<close> an error). The block manager's calls panic without one.
\<close>

definition rpc_retry :: "(nat \<Rightarrow> 'a option) \<Rightarrow> 'a option" where
  "rpc_retry answers =
     (case List.find (\<lambda>k. answers k \<noteq> None) [0..<DEFAULT_CALL_RETRIES] of
        Some k \<Rightarrow> answers k
      | None \<Rightarrow> None)"

definition bm_call :: "(nat \<Rightarrow> 'a option) \<Rightarrow> 'a res" where
  "bm_call answers = unwrap (rpc_retry answers)"

record BtcEnv =
  b_bfc_client :: EthClient
  b_block_count :: "nat \<Rightarrow> u64 option"
  b_block_hash :: "u64 \<Rightarrow> nat \<Rightarrow> b256 option"
  b_block_txs :: "b256 \<Rightarrow> nat \<Rightarrow> BtcTx list option"
  b_vault_addresses :: "u32 \<Rightarrow> string list res"
  b_vault_address :: "address \<Rightarrow> u32 \<Rightarrow> string res"
  b_current_round :: "u32 res"
  b_refund_addresses :: "u32 \<Rightarrow> string list res"
  b_parse_address :: "string \<Rightarrow> btc_address option"
  b_has_receivers :: bool

section \<open>The manager\<close>

record BlockManager =
  bm_block_confirmations :: u64
  bm_waiting_block :: u64
  bm_bootstrap_offset :: u32

definition DEFAULT_BITCOIN_BOOTSTRAP_BLOCK_OFFSET :: u32 where
  "DEFAULT_BITCOIN_BOOTSTRAP_BLOCK_OFFSET = 3"

definition BlockManager_new :: "BootstrapConfig option \<Rightarrow> u64 \<Rightarrow> BlockManager" where
  "BlockManager_new config confirmations =
     \<lparr>bm_block_confirmations = confirmations, bm_waiting_block = 0,
      bm_bootstrap_offset =
        (case config of
           Some cfg \<Rightarrow>
             if is_enabled cfg
             then (case btc_block_offset cfg of
                     Some k \<Rightarrow> k | None \<Rightarrow> DEFAULT_BITCOIN_BOOTSTRAP_BLOCK_OFFSET)
             else 0
         | None \<Rightarrow> 0)\<rparr>"

definition bm_initialize :: "BtcEnv \<Rightarrow> BlockManager \<Rightarrow> BlockManager res" where
  "bm_initialize env bm =
     bind_res (bm_call (b_block_count env)) (\<lambda>latest.
       Ok (bm\<lparr>bm_waiting_block := saturating_add latest 1\<rparr>))"

definition registration_pool_of :: "BtcEnv \<Rightarrow> address res" where
  "registration_pool_of env = unwrap (registration_pool (protocol_contracts (b_bfc_client env)))"

definition get_vault_addresses :: "BtcEnv \<Rightarrow> string list res" where
  "get_vault_addresses env =
     bind_res (registration_pool_of env) (\<lambda>pool.
     bind_res (b_vault_addresses env 0) (\<lambda>vaults.
     bind_res (b_vault_address env pool 0) (\<lambda>system_vault.
       Ok (vaults @ [system_vault]))))"

definition get_refund_addresses :: "BtcEnv \<Rightarrow> string list res" where
  "get_refund_addresses env =
     bind_res (registration_pool_of env) (\<lambda>_.
     bind_res (b_current_round env) (b_refund_addresses env))"

definition fetch_registration_sets :: "BtcEnv \<Rightarrow> (btc_address set \<times> btc_address set) res" where
  "fetch_registration_sets env =
     bind_res (get_vault_addresses env) (\<lambda>vaults.
     bind_res (traverse_res (\<lambda>s. unwrap (b_parse_address env s)) vaults) (\<lambda>vault_list.
     bind_res (get_refund_addresses env) (\<lambda>refunds.
     bind_res (traverse_res (\<lambda>s. unwrap (b_parse_address env s)) refunds) (\<lambda>refund_list.
       Ok (set vault_list, set refund_list)))))"

definition is_block_confirmed :: "BlockManager \<Rightarrow> u64 \<Rightarrow> bool" where
  "is_block_confirmed bm latest =
     (if bm_waiting_block bm > latest then False
      else bm_block_confirmations bm \<le> saturating_sub latest (bm_waiting_block bm))"

definition vout_event :: "txid \<Rightarrow> Vout \<Rightarrow> btc_address \<Rightarrow> BtcEvent" where
  "vout_event t v a = \<lparr>be_txid = t, be_index = vout_n v, be_address = a, be_amount = vout_value v\<rparr>"

fun filter_vouts ::
    "btc_address set \<Rightarrow> btc_address set \<Rightarrow> txid \<Rightarrow> Vout list \<Rightarrow> BtcEvent list \<times> BtcEvent list
      \<Rightarrow> BtcEvent list \<times> BtcEvent list" where
  "filter_vouts vaults refunds t [] evs = evs"
| "filter_vouts vaults refunds t (v # vs) (inb, outb) =
     filter_vouts vaults refunds t vs
       (case vout_address v of
          None \<Rightarrow> (inb, outb)
        | Some a \<Rightarrow>
            if a \<in> vaults then (inb @ [vout_event t v a], outb)
            else if a \<in> refunds then (inb, outb @ [vout_event t v a])
            else (inb, outb))"

definition filter_block ::
    "btc_address set \<Rightarrow> btc_address set \<Rightarrow> BtcTx list \<Rightarrow> BtcEvent list \<times> BtcEvent list
      \<Rightarrow> BtcEvent list \<times> BtcEvent list" where
  "filter_block vaults refunds txs evs =
     fold (\<lambda>tx. filter_vouts vaults refunds (btx_txid tx) (btx_vout tx)) txs evs"

definition get_block_txs :: "BtcEnv \<Rightarrow> u64 \<Rightarrow> BtcTx list res" where
  "get_block_txs env num =
     bind_res (bm_call (b_block_hash env num)) (\<lambda>h. bm_call (b_block_txs env h))"

definition bm_send :: "BtcEnv \<Rightarrow> BtcEventMessage \<Rightarrow> (BtcEventMessage, unit) eff" where
  "bm_send env m = (if b_has_receivers env then emit m else lift Panic)"

definition process_block ::
    "BtcEnv \<Rightarrow> btc_address set \<Rightarrow> btc_address set \<Rightarrow> u64 \<Rightarrow> (BtcEventMessage, unit) eff" where
  "process_block env vaults refunds num =
     bind_eff (lift (get_block_txs env num)) (\<lambda>txs.
       case filter_block vaults refunds txs ([], []) of
         (inb, outb) \<Rightarrow>
           bind_eff (bm_send env (msg_new_block num)) (\<lambda>_.
           bind_eff (bm_send env ((msg_inbound num)\<lparr>bem_events := inb\<rparr>)) (\<lambda>_.
             bm_send env ((msg_outbound num)\<lparr>bem_events := outb\<rparr>))))"

text \<open>The inclusive range of a \<open>for\<close> loop.\<close>

definition word_range :: "u64 \<Rightarrow> u64 \<Rightarrow> u64 list" where
  "word_range a b = map word_of_nat [unat a..<Suc (unat b)]"

definition bm_increment_waiting_block :: "u64 \<Rightarrow> BlockManager \<Rightarrow> BlockManager" where
  "bm_increment_waiting_block til bm = bm\<lparr>bm_waiting_block := saturating_add til 1\<rparr>"

definition process_confirmed_block ::
    "BtcEnv \<Rightarrow> u64 \<Rightarrow> btc_address set \<Rightarrow> btc_address set \<Rightarrow> BlockManager
      \<Rightarrow> BlockManager \<times> (BtcEventMessage, unit) eff" where
  "process_confirmed_block env til_block vaults refunds bm =
     (case for_each (process_block env vaults refunds) (word_range (bm_waiting_block bm) til_block) of
        (fs, Ok u) \<Rightarrow> (bm_increment_waiting_block til_block bm, fs, Ok u)
      | (fs, r) \<Rightarrow> (bm, fs, r))"

text \<open>One turn of \<open>run\<close>.\<close>

definition bm_tick :: "BtcEnv \<Rightarrow> BlockManager \<Rightarrow> BlockManager \<times> (BtcEventMessage, unit) eff" where
  "bm_tick env bm =
     (case bm_call (b_block_count env) of
        Ok latest \<Rightarrow>
          if is_block_confirmed bm latest
          then (case fetch_registration_sets env of
                  Ok (vaults, refunds) \<Rightarrow>
                    process_confirmed_block env (saturating_sub latest (bm_block_confirmations bm))
                      vaults refunds bm
                | Err e \<Rightarrow> (bm, lift (Err e))
                | Panic \<Rightarrow> (bm, lift Panic))
          else (bm, ret ())
      | Err e \<Rightarrow> (bm, lift (Err e))
      | Panic \<Rightarrow> (bm, lift Panic))"

text \<open>
  The turns of a run, restarts included: a turn that ends in an error is followed by the next
  one with the same waiting block, a panic ends the process.
\<close>

fun bm_run :: "BtcEnv list \<Rightarrow> BlockManager \<Rightarrow> BlockManager \<times> BtcEventMessage list" where
  "bm_run [] bm = (bm, [])"
| "bm_run (env # envs) bm =
     (case bm_tick env bm of
        (bm', fs, Panic) \<Rightarrow> (bm', fs)
      | (bm', fs, r) \<Rightarrow> (case bm_run envs bm' of (bm'', gs) \<Rightarrow> (bm'', fs @ gs)))"

definition bm_bootstrap_range :: "BlockManager \<Rightarrow> u64 list" where
  "bm_bootstrap_range bm =
     (let til_block = saturating_sub (bm_waiting_block bm) 1
      in word_range (saturating_sub til_block (ucast (bm_bootstrap_offset bm))) til_block)"

definition bm_get_bootstrap_events ::
    "BtcEnv \<Rightarrow> BlockManager \<Rightarrow> (BtcEventMessage \<times> BtcEventMessage) res" where
  "bm_get_bootstrap_events env bm =
     bind_res (fetch_registration_sets env) (\<lambda>(vaults, refunds).
     bind_res (traverse_res (get_block_txs env) (bm_bootstrap_range bm)) (\<lambda>blocks.
       case fold (filter_block vaults refunds) blocks ([], []) of
         (inb, outb) \<Rightarrow>
           (let til_block = saturating_sub (bm_waiting_block bm) 1
            in Ok ((msg_inbound til_block)\<lparr>bem_events := inb\<rparr>,
                   (msg_outbound til_block)\<lparr>bem_events := outb\<rparr>))))"

section \<open>Which outputs become events\<close>

text \<open>The outputs of a block with their transactions, and the events of those that pay \<open>P\<close>.\<close>

definition block_outputs :: "BtcTx list \<Rightarrow> (txid \<times> Vout) list" where
  "block_outputs txs = concat (map (\<lambda>tx. map (Pair (btx_txid tx)) (btx_vout tx)) txs)"

definition output_event :: "(btc_address \<Rightarrow> bool) \<Rightarrow> txid \<times> Vout \<Rightarrow> BtcEvent option" where
  "output_event P out = (case vout_address (snd out) of
      Some a \<Rightarrow> if P a then Some (vout_event (fst out) (snd out) a) else None | None \<Rightarrow> None)"

definition events_paying :: "(btc_address \<Rightarrow> bool) \<Rightarrow> BtcTx list \<Rightarrow> BtcEvent list" where
  "events_paying P txs = List.map_filter (output_event P) (block_outputs txs)"

lemma filter_vouts_eq:
  "filter_vouts vaults refunds t vs (inb, outb) =
     (inb @ List.map_filter (output_event (\<lambda>a. a \<in> vaults)) (map (Pair t) vs),
      outb @ List.map_filter (output_event (\<lambda>a. a \<notin> vaults \<and> a \<in> refunds)) (map (Pair t) vs))"
  by (induction vs arbitrary: inb outb)
    (auto simp: List.map_filter_def output_event_def split: option.splits)

lemma filter_block_eq:
  "filter_block vaults refunds txs (inb, outb) =
     (inb @ events_paying (\<lambda>a. a \<in> vaults) txs,
      outb @ events_paying (\<lambda>a. a \<notin> vaults \<and> a \<in> refunds) txs)"
  unfolding filter_block_def events_paying_def
  by (induction txs arbitrary: inb outb)
    (simp_all add: filter_vouts_eq block_outputs_def map_filter_append List.map_filter_def)

section \<open>What a turn sends\<close>

definition block_messages ::
    "btc_address set \<Rightarrow> btc_address set \<Rightarrow> u64 \<Rightarrow> BtcTx list \<Rightarrow> BtcEventMessage list" where
  "block_messages vaults refunds num txs =
     [msg_new_block num,
      (msg_inbound num)\<lparr>bem_events := events_paying (\<lambda>a. a \<in> vaults) txs\<rparr>,
      (msg_outbound num)\<lparr>bem_events := events_paying (\<lambda>a. a \<notin> vaults \<and> a \<in> refunds) txs\<rparr>]"

definition announced :: "BtcEventMessage list \<Rightarrow> u64 list" where
  "announced msgs = map bem_block_number (filter (\<lambda>m. bem_event_type m = EventNewBlock) msgs)"

lemma announced_append [simp]: "announced (a @ b) = announced a @ announced b"
  by (simp add: announced_def)

lemma announced_Nil [simp]: "announced [] = []"
  by (simp add: announced_def)

lemma announced_block [simp]: "announced (block_messages vaults refunds num txs) = [num]"
  by (simp add: announced_def block_messages_def msg_new_block_def msg_inbound_def msg_outbound_def)

lemma bm_call_not_Err [simp]: "bm_call answers \<noteq> Err e"
  by (simp add: bm_call_def unwrap_def split: option.splits)

lemma bm_call_Ok_iff: "bm_call answers = Ok x \<longleftrightarrow> rpc_retry answers = Some x"
  by (simp add: bm_call_def)

lemma get_block_txs_not_Err [simp]: "get_block_txs env num \<noteq> Err e"
  by (simp add: get_block_txs_def bind_res_eq_Err_iff)

lemma process_block_cases:
  obtains (sent) txs where "get_block_txs env num = Ok txs" and "b_has_receivers env"
      and "process_block env vaults refunds num = (block_messages vaults refunds num txs, Ok ())"
  | (panics) "process_block env vaults refunds num = ([], Panic)"
proof (cases "get_block_txs env num")
  case (Ok txs)
  then show thesis
    using sent panics
    by (cases "b_has_receivers env")
      (auto simp: process_block_def filter_block_eq bm_send_def block_messages_def emit_def lift_def)
next
  case (Err e)
  then show thesis by simp
next
  case Panic
  then show thesis
    using panics by (simp add: process_block_def)
qed

lemma for_each_process_block:
  "\<exists>k. announced (fst (for_each (process_block env vaults refunds) nums)) = take k nums
     \<and> (snd (for_each (process_block env vaults refunds) nums) = Ok () \<and> length nums \<le> k
       \<or> snd (for_each (process_block env vaults refunds) nums) = Panic)"
proof (induction nums)
  case (Cons num nums)
  then obtain k where k: "announced (fst (for_each (process_block env vaults refunds) nums)) = take k nums"
    "snd (for_each (process_block env vaults refunds) nums) = Ok () \<and> length nums \<le> k
       \<or> snd (for_each (process_block env vaults refunds) nums) = Panic"
    by blast
  show ?case
  proof (cases rule: process_block_cases [of env num vaults refunds])
    case (sent txs)
    then show ?thesis
      using k by (intro exI [of _ "Suc k"]) simp
  next
    case panics
    then show ?thesis
      by (intro exI [of _ 0]) simp
  qed
qed simp

lemma for_each_process_block_mem:
  assumes "m \<in> set (fst (for_each (process_block env vaults refunds) nums))"
  shows "\<exists>num txs. num \<in> set nums \<and> get_block_txs env num = Ok txs \<and>
    m \<in> set (block_messages vaults refunds num txs)"
proof -
  obtain num where "num \<in> set nums" and "m \<in> set (fst (process_block env vaults refunds num))"
    using for_each_mem [OF assms] by blast
  then show ?thesis
    by (cases rule: process_block_cases [of env num vaults refunds]) auto
qed

lemma length_word_range [simp]: "length (word_range a b) = Suc (unat b) - unat a"
  by (simp add: word_range_def del: upt_Suc)

lemma word_range_mem: "n \<in> set (word_range a b) \<longleftrightarrow> a \<le> n \<and> n \<le> b"
proof
  assume "n \<in> set (word_range a b)"
  then obtain k where k: "n = word_of_nat k" "unat a \<le> k" "k \<le> unat b"
    by (auto simp: word_range_def)
  then have "unat n = k"
    using unsigned_less [of b, where 'a = nat] by (simp add: unsigned_of_nat take_bit_nat_eq_self)
  with k show "a \<le> n \<and> n \<le> b"
    by (simp add: word_le_nat_alt)
next
  assume "a \<le> n \<and> n \<le> b"
  then have "unat n \<in> set [unat a..<Suc (unat b)]"
    by (simp add: word_le_nat_alt del: upt_Suc)
  then have "word_of_nat (unat n) \<in> (word_of_nat ` set [unat a..<Suc (unat b)] :: u64 set)"
    by (rule imageI)
  then show "n \<in> set (word_range a b)"
    by (simp add: word_range_def del: upt_Suc)
qed

lemma take_word_range:
  "take k (word_range a b) = map word_of_nat [unat a..<unat a + min k (Suc (unat b) - unat a)]"
proof -
  have "take k [unat a..<Suc (unat b)] = [unat a..<unat a + min k (Suc (unat b) - unat a)]"
    by (cases "k \<le> Suc (unat b) - unat a"; cases "unat a \<le> Suc (unat b)")
      (simp_all add: take_upt min_def del: upt_Suc)
  then show ?thesis
    by (simp add: word_range_def take_map del: upt_Suc)
qed

text \<open>The confirmation test, read as numbers: the range of a turn ends where it should.\<close>

lemma is_block_confirmed_iff:
  "is_block_confirmed bm latest \<longleftrightarrow>
     unat (bm_waiting_block bm) + unat (bm_block_confirmations bm) \<le> unat latest"
  by (auto simp: is_block_confirmed_def word_le_nat_alt word_less_nat_alt)

definition bm_advance :: "u64 \<Rightarrow> BlockManager \<Rightarrow> (nat \<times> nat \<times> BlockManager) option" where
  "bm_advance latest bm =
     (if is_block_confirmed bm latest
      then Some (unat (bm_waiting_block bm), unat (saturating_sub latest (bm_block_confirmations bm)),
                 bm_increment_waiting_block (saturating_sub latest (bm_block_confirmations bm)) bm)
      else None)"

interpretation bm_cursor: block_cursor "bm_advance latest" "\<lambda>bm. unat (bm_waiting_block bm)" "2 ^ 64 - 1"
  for latest
  by unfold_locales
    (auto simp: bm_advance_def bm_increment_waiting_block_def is_block_confirmed_iff split: if_splits)

lemma bm_advance_confirmed:
  assumes "is_block_confirmed bm latest" and "latest \<noteq> - 1"
  shows "unat (bm_waiting_block (bm_increment_waiting_block
            (saturating_sub latest (bm_block_confirmations bm)) bm)) =
          Suc (unat latest - unat (bm_block_confirmations bm))"
    and "unat (bm_waiting_block bm) \<le> unat latest - unat (bm_block_confirmations bm)"
proof -
  have "unat latest \<noteq> unat (- 1 :: u64)"
    using assms(2) by (metis unsigned_word_eqI)
  then have "unat latest < 2 ^ 64 - 1"
    using unsigned_less [of latest, where 'a = nat] by simp
  then show "unat (bm_waiting_block (bm_increment_waiting_block
            (saturating_sub latest (bm_block_confirmations bm)) bm)) =
          Suc (unat latest - unat (bm_block_confirmations bm))"
    and "unat (bm_waiting_block bm) \<le> unat latest - unat (bm_block_confirmations bm)"
    using bm_cursor.advance_contiguous [of latest bm] assms(1)
    by (auto simp: bm_advance_def)
qed

text \<open>A turn by cases: it does nothing, fails before it sends, panics on the way, or completes.\<close>

lemma bm_tick_cases:
  obtains (idle) r where "bm_tick env bm = (bm, [], r)"
  | (works) latest vaults refunds where
      "rpc_retry (b_block_count env) = Some latest"
      and "is_block_confirmed bm latest"
      and "fetch_registration_sets env = Ok (vaults, refunds)"
      and "bm_tick env bm = process_confirmed_block env
        (saturating_sub latest (bm_block_confirmations bm)) vaults refunds bm"
proof (cases "bm_call (b_block_count env)")
  case (Ok latest)
  then have eq: "rpc_retry (b_block_count env) = Some latest"
    by (simp add: bm_call_Ok_iff)
  show thesis
  proof (cases "is_block_confirmed bm latest")
    case True
    show thesis
    proof (cases "fetch_registration_sets env")
      case sets: (Ok p)
      then show thesis
        using Ok True works [OF eq True, of "fst p" "snd p"] by (cases p) (simp add: bm_tick_def)
    qed (use Ok True idle in \<open>simp_all add: bm_tick_def lift_def\<close>)
  next
    case False
    then show thesis
      using Ok idle by (simp add: bm_tick_def ret_def)
  qed
qed (auto simp: bm_tick_def lift_def intro: idle)

lemma process_confirmed_block_cases:
  assumes "is_block_confirmed bm latest" and "latest \<noteq> - 1"
    and "process_confirmed_block env (saturating_sub latest (bm_block_confirmations bm)) vaults refunds bm
      = (bm', fs, r)"
  shows "bm_block_confirmations bm' = bm_block_confirmations bm \<and>
    (\<exists>k. announced fs = map word_of_nat [unat (bm_waiting_block bm)..<unat (bm_waiting_block bm) + k]
       \<and> (r = Ok () \<and> unat (bm_waiting_block bm') = unat (bm_waiting_block bm) + k
          \<or> r = Panic \<and> bm' = bm))"
proof -
  let ?til = "saturating_sub latest (bm_block_confirmations bm)"
  let ?F = "for_each (process_block env vaults refunds) (word_range (bm_waiting_block bm) ?til)"
  obtain k where k: "announced (fst ?F) = take k (word_range (bm_waiting_block bm) ?til)"
    "snd ?F = Ok () \<and> length (word_range (bm_waiting_block bm) ?til) \<le> k \<or> snd ?F = Panic"
    using for_each_process_block by blast
  show ?thesis
  proof (cases "snd ?F = Panic")
    case True
    then have "bm' = bm" "fs = fst ?F" "r = Panic"
      using assms(3) by (cases ?F; auto simp: process_confirmed_block_def)+
    then show ?thesis
      using k(1) take_word_range [of k "bm_waiting_block bm" ?til] by auto
  next
    case False
    with k(2) have ok: "snd ?F = Ok ()" "length (word_range (bm_waiting_block bm) ?til) \<le> k" by auto
    then have res: "bm' = bm_increment_waiting_block ?til bm" "fs = fst ?F" "r = Ok ()"
      using assms(3) by (cases ?F; auto simp: process_confirmed_block_def)+
    let ?n = "Suc (unat ?til) - unat (bm_waiting_block bm)"
    have "announced fs = map word_of_nat [unat (bm_waiting_block bm)..<unat (bm_waiting_block bm) + ?n]"
      using res(2) k(1) ok(2) take_word_range [of k "bm_waiting_block bm" ?til] by (simp add: min_def)
    moreover have "unat (bm_waiting_block bm') = unat (bm_waiting_block bm) + ?n"
      using bm_advance_confirmed [OF assms(1,2)] res(1) by simp
    moreover have "bm_block_confirmations bm' = bm_block_confirmations bm"
      using res(1) by (simp add: bm_increment_waiting_block_def)
    ultimately show ?thesis
      using res(3) by blast
  qed
qed

lemma bm_tick_announces:
  assumes "bm_tick env bm = (bm', fs, r)" and "rpc_retry (b_block_count env) \<noteq> Some (- 1)"
  shows "bm_block_confirmations bm' = bm_block_confirmations bm \<and>
    (\<exists>k. announced fs = map word_of_nat [unat (bm_waiting_block bm)..<unat (bm_waiting_block bm) + k]
       \<and> (unat (bm_waiting_block bm') = unat (bm_waiting_block bm) + k \<or> r = Panic \<and> bm' = bm))"
proof (cases rule: bm_tick_cases [of env bm])
  case (idle r')
  then show ?thesis
    using assms(1) by (auto intro!: exI [of _ 0])
next
  case (works latest vaults refunds)
  then have "latest \<noteq> - 1" using assms(2) by auto
  from process_confirmed_block_cases [OF works(2) this] works(4) assms(1) show ?thesis
    by (metis (no_types, lifting))
qed

lemma bm_run_announces:
  assumes "bm_run envs bm = (bm', msgs)"
    and "\<And>env. env \<in> set envs \<Longrightarrow> rpc_retry (b_block_count env) \<noteq> Some (- 1)"
  shows "\<exists>k. announced msgs = map word_of_nat [unat (bm_waiting_block bm)..<unat (bm_waiting_block bm) + k]
    \<and> unat (bm_waiting_block bm) \<le> unat (bm_waiting_block bm')
    \<and> unat (bm_waiting_block bm') \<le> unat (bm_waiting_block bm) + k"
  using assms
proof (induction envs arbitrary: bm msgs)
  case Nil
  then show ?case by (auto intro!: exI [of _ 0])
next
  case (Cons env envs)
  obtain bm1 fs r where tick: "bm_tick env bm = (bm1, fs, r)"
    by (metis prod.collapse)
  obtain k where k: "announced fs = map word_of_nat [unat (bm_waiting_block bm)..<unat (bm_waiting_block bm) + k]"
    "unat (bm_waiting_block bm1) = unat (bm_waiting_block bm) + k \<or> r = Panic \<and> bm1 = bm"
    using bm_tick_announces [OF tick] Cons.prems(2) by auto
  show ?case
  proof (cases "r = Panic")
    case True
    then have "bm' = bm1" "msgs = fs" using Cons.prems(1) tick by auto
    then show ?thesis using k by (auto intro!: exI [of _ k])
  next
    case False
    then have w: "unat (bm_waiting_block bm1) = unat (bm_waiting_block bm) + k" using k(2) by simp
    obtain gs where run: "bm_run envs bm1 = (bm', gs)" and msgs: "msgs = fs @ gs"
      using Cons.prems(1) tick False by (cases r; cases "bm_run envs bm1") auto
    obtain j where j: "announced gs = map word_of_nat [unat (bm_waiting_block bm1)..<unat (bm_waiting_block bm1) + j]"
      "unat (bm_waiting_block bm1) \<le> unat (bm_waiting_block bm')"
      "unat (bm_waiting_block bm') \<le> unat (bm_waiting_block bm1) + j"
      using Cons.IH [OF run] Cons.prems(2) by auto
    have "announced msgs = map word_of_nat [unat (bm_waiting_block bm)..<unat (bm_waiting_block bm) + (k + j)]"
      using k(1) j(1) w msgs upt_add_eq_append [of "unat (bm_waiting_block bm)" "unat (bm_waiting_block bm) + k" j]
      by (simp add: add.assoc)
    then show ?thesis
      using j w by (intro exI [of _ "k + j"]) simp
  qed
qed

lemma bm_run_confirmations_const:
  "bm_block_confirmations (fst (bm_tick env bm)) = bm_block_confirmations bm"
  by (cases rule: bm_tick_cases [of env bm])
    (auto simp: process_confirmed_block_def bm_increment_waiting_block_def split: prod.splits res.splits)

definition message_justified :: "u64 \<Rightarrow> BtcEnv \<Rightarrow> BtcEventMessage \<Rightarrow> bool" where
  "message_justified confirmations env m \<longleftrightarrow>
     (\<exists>latest vaults refunds txs.
        rpc_retry (b_block_count env) = Some latest
        \<and> unat (bem_block_number m) + unat confirmations \<le> unat latest
        \<and> fetch_registration_sets env = Ok (vaults, refunds)
        \<and> get_block_txs env (bem_block_number m) = Ok txs
        \<and> m \<in> set (block_messages vaults refunds (bem_block_number m) txs))"

lemma block_messages_number:
  "m \<in> set (block_messages vaults refunds num txs) \<Longrightarrow> bem_block_number m = num"
  by (auto simp: block_messages_def msg_new_block_def msg_inbound_def msg_outbound_def)

lemma bm_tick_justified:
  assumes "m \<in> set (fst (snd (bm_tick env bm)))"
  shows "message_justified (bm_block_confirmations bm) env m"
proof (cases rule: bm_tick_cases [of env bm])
  case (works latest vaults refunds)
  let ?til = "saturating_sub latest (bm_block_confirmations bm)"
  have "m \<in> set (fst (for_each (process_block env vaults refunds) (word_range (bm_waiting_block bm) ?til)))"
    using assms works(4)
    by (auto simp: process_confirmed_block_def split: prod.splits res.splits)
  from for_each_process_block_mem [OF this] obtain num txs where
    "num \<in> set (word_range (bm_waiting_block bm) ?til)" "get_block_txs env num = Ok txs"
    and m: "m \<in> set (block_messages vaults refunds num txs)"
    by blast
  moreover have "bem_block_number m = num"
    using block_messages_number [OF m] .
  moreover have "unat (bm_waiting_block bm) + unat (bm_block_confirmations bm) \<le> unat latest"
    using works(2) by (simp add: is_block_confirmed_iff)
  ultimately show ?thesis
    using works(1,3) by (auto simp: message_justified_def word_range_mem word_le_nat_alt)
qed (use assms in simp)

lemma bm_run_justified:
  "m \<in> set (snd (bm_run envs bm)) \<Longrightarrow>
     \<exists>env \<in> set envs. message_justified (bm_block_confirmations bm) env m"
proof (induction envs arbitrary: bm)
  case (Cons env envs)
  obtain bm1 fs r where tick: "bm_tick env bm = (bm1, fs, r)"
    by (metis prod.collapse)
  have same: "bm_block_confirmations bm1 = bm_block_confirmations bm"
    using bm_run_confirmations_const [of env bm] tick by simp
  have "m \<in> set fs \<or> m \<in> set (snd (bm_run envs bm1))"
    using Cons.prems tick by (cases r) (auto split: prod.splits)
  then show ?case
  proof
    assume "m \<in> set fs"
    then show ?thesis using bm_tick_justified [of m env bm] tick by auto
  next
    assume "m \<in> set (snd (bm_run envs bm1))"
    then show ?thesis using Cons.IH [of bm1] same by auto
  qed
qed simp

lemma fold_filter_block:
  "fold (filter_block vaults refunds) blocks (inb, outb) =
     (inb @ concat (map (events_paying (\<lambda>a. a \<in> vaults)) blocks),
      outb @ concat (map (events_paying (\<lambda>a. a \<notin> vaults \<and> a \<in> refunds)) blocks))"
  by (induction blocks arbitrary: inb outb) (simp_all add: filter_block_eq)

lemma for_each_process_block_ok:
  assumes "\<And>num. num \<in> set nums \<Longrightarrow> get_block_txs env num = Ok (txs_of num)" and "b_has_receivers env"
  shows "for_each (process_block env vaults refunds) nums =
    (concat (map (\<lambda>num. block_messages vaults refunds num (txs_of num)) nums), Ok ())"
proof -
  have one: "process_block env vaults refunds num = (block_messages vaults refunds num (txs_of num), Ok ())"
    if "num \<in> set nums" for num
    using assms(1) [OF that] assms(2)
    by (simp add: process_block_def filter_block_eq bm_send_def block_messages_def emit_def)
  have "for_each (process_block env vaults refunds) nums =
      (concat (map (\<lambda>num. fst (process_block env vaults refunds num)) nums), Ok ())"
    by (rule for_each_all_ok) (simp add: one)
  also have "map (\<lambda>num. fst (process_block env vaults refunds num)) nums =
      map (\<lambda>num. block_messages vaults refunds num (txs_of num)) nums"
    by (simp add: one)
  finally show ?thesis .
qed

section \<open>A concrete chain\<close>

definition ex_btc_tx :: BtcTx where
  "ex_btc_tx = \<lparr>btx_txid = replicate 32 9,
     btx_vout = [\<lparr>vout_n = 0, vout_address = Some (BtcAddress [1]), vout_value = 50000\<rparr>,
                 \<lparr>vout_n = 1, vout_address = None, vout_value = 0\<rparr>,
                 \<lparr>vout_n = 2, vout_address = Some (BtcAddress [3]), vout_value = 7000\<rparr>]\<rparr>"

text \<open>Every call is answered at the second attempt; every block holds the same transaction.\<close>

definition ex_btc_env :: "u64 \<Rightarrow> BtcEnv" where
  "ex_btc_env latest =
     \<lparr>b_bfc_client = ex_client 3068 True,
      b_block_count = (\<lambda>k. if k = 0 then None else Some latest),
      b_block_hash = (\<lambda>n k. if k = 0 then None else Some (ucast n)),
      b_block_txs = (\<lambda>h k. if k = 0 then None else Some [ex_btc_tx]),
      b_vault_addresses = (\<lambda>_. Ok [''v'']), b_vault_address = (\<lambda>_ _. Ok ''s''),
      b_current_round = Ok 1, b_refund_addresses = (\<lambda>_. Ok [''r'']),
      b_parse_address = (\<lambda>s. Some (BtcAddress [if s = ''v'' then 1 else if s = ''s'' then 2 else 3])),
      b_has_receivers = True\<rparr>"

definition ex_block_manager :: BlockManager where
  "ex_block_manager =
     \<lparr>bm_block_confirmations = 3, bm_waiting_block = 101, bm_bootstrap_offset = 2\<rparr>"

lemma ex_rpc_retry [simp]: "rpc_retry (\<lambda>k. if k = 0 then None else Some x) = Some x"
  by (simp add: rpc_retry_def DEFAULT_CALL_RETRIES_def numeral_3_eq_3)

lemma ex_btc_simps [simp]:
  "rpc_retry (b_block_count (ex_btc_env latest)) = Some latest"
  "get_block_txs (ex_btc_env latest) n = Ok [ex_btc_tx]"
  "b_has_receivers (ex_btc_env latest)"
  "fetch_registration_sets (ex_btc_env latest) = Ok ({BtcAddress [1], BtcAddress [2]}, {BtcAddress [3]})"
  by (simp_all add: ex_btc_env_def get_block_txs_def bm_call_def fetch_registration_sets_def
      get_vault_addresses_def get_refund_addresses_def registration_pool_of_def ex_defs)

lemma ex_is_block_confirmed: "is_block_confirmed ex_block_manager 105"
  by (simp add: is_block_confirmed_def ex_block_manager_def saturating_sub_def)

section \<open>Properties\<close>

text \<open>
  Exactly the payments to known addresses become events. Filtering the transactions of a
  block yields, in the order of the outputs, one inbound event per output that pays a vault
  address and one outbound event per output that pays a refund address that is not a vault, each
  with the transaction, the output index, the address and the amount; outputs without an address
  and payments to anyone else yield none.
\<close>

theorem btc_events_exact:
  "filter_block vaults refunds txs ([], []) =
     (events_paying (\<lambda>a. a \<in> vaults) txs, events_paying (\<lambda>a. a \<notin> vaults \<and> a \<in> refunds) txs)"
  by (simp add: filter_block_eq)

text \<open>
  C20: Every Bitcoin block is announced once and in order. Over any sequence of turns, errors and
  restarts included, the blocks announced are the consecutive blocks from the one the manager
  waits for, without gap or repetition, and the manager never goes back; when it ends it waits
  for a block that is at most the next one.
\<close>

theorem btc_blocks_in_order:
  assumes "bm_run envs bm = (bm', msgs)"
    and "\<forall>env \<in> set envs. rpc_retry (b_block_count env) \<noteq> Some (- 1)"
  shows "\<exists>k. map bem_block_number (filter (\<lambda>m. bem_event_type m = EventNewBlock) msgs) =
      map word_of_nat [unat (bm_waiting_block bm)..<unat (bm_waiting_block bm) + k]
    \<and> unat (bm_waiting_block bm) \<le> unat (bm_waiting_block bm')
    \<and> unat (bm_waiting_block bm') \<le> unat (bm_waiting_block bm) + k"
  using bm_run_announces [OF assms(1)] assms(2) unfolding announced_def by blast

theorem btc_blocks_in_order_witness:
  "\<exists>bm' msgs k. bm_run [ex_btc_env 105, ex_btc_env 104, ex_btc_env 106] ex_block_manager = (bm', msgs)
    \<and> map bem_block_number (filter (\<lambda>m. bem_event_type m = EventNewBlock) msgs) =
      map word_of_nat [unat (bm_waiting_block ex_block_manager)..<unat (bm_waiting_block ex_block_manager) + k]"
proof -
  obtain bm' msgs where "bm_run [ex_btc_env 105, ex_btc_env 104, ex_btc_env 106] ex_block_manager = (bm', msgs)"
    by (metis prod.collapse)
  with btc_blocks_in_order [OF this] show ?thesis
    by auto
qed

text \<open>
  Nothing is sent before its block is deep enough. Every message of a run is about a block
  that had at least the configured number of confirmations when it was sent, and is one of that
  block's three messages: the announcement, the payments to the vaults registered at that time,
  and the payments to the registered refund addresses.
\<close>

theorem btc_messages_confirmed:
  assumes "bm_run envs bm = (bm', msgs)" and "m \<in> set msgs"
  shows "\<exists>env \<in> set envs. \<exists>latest vaults refunds txs.
      rpc_retry (b_block_count env) = Some latest
      \<and> unat (bem_block_number m) + unat (bm_block_confirmations bm) \<le> unat latest
      \<and> fetch_registration_sets env = Ok (vaults, refunds)
      \<and> get_block_txs env (bem_block_number m) = Ok txs
      \<and> m \<in> set (block_messages vaults refunds (bem_block_number m) txs)"
  using bm_run_justified [of m envs bm] assms unfolding message_justified_def by simp

theorem btc_messages_confirmed_witness:
  "\<exists>env \<in> {ex_btc_env 105}. \<exists>latest. rpc_retry (b_block_count env) = Some latest
     \<and> unat (101 :: u64) + unat (bm_block_confirmations ex_block_manager) \<le> unat latest"
proof -
  have "bm_tick (ex_btc_env 105) ex_block_manager =
      process_confirmed_block (ex_btc_env 105) (saturating_sub 105 3)
        {BtcAddress [1], BtcAddress [2]} {BtcAddress [3]} ex_block_manager"
    using ex_is_block_confirmed
    by (simp add: bm_tick_def bm_call_def) (simp add: ex_block_manager_def)
  moreover have "word_range 101 (saturating_sub 105 3) = [101, 102]"
    by (simp add: word_range_def saturating_sub_def)
  ultimately obtain bm' rest where "bm_run [ex_btc_env 105] ex_block_manager = (bm', msg_new_block 101 # rest)"
    using for_each_process_block_ok [of "[101, 102]" "ex_btc_env 105" "\<lambda>_. [ex_btc_tx]"]
    by (simp add: process_confirmed_block_def block_messages_def ex_block_manager_def)
  from btc_messages_confirmed [OF this, of "msg_new_block 101"] show ?thesis
    by (auto simp: msg_new_block_def)
qed

text \<open>
  A turn that gets its answers catches up completely. When the node and the contracts answer,
  the head has the required distance and somebody listens, one turn sends the three messages of
  every block from the waiting one up to the last confirmed one, and then waits for the block
  after it.
\<close>

theorem btc_turn_catches_up:
  assumes "rpc_retry (b_block_count env) = Some latest" and "latest \<noteq> - 1"
    and "unat (bm_waiting_block bm) + unat (bm_block_confirmations bm) \<le> unat latest"
    and "fetch_registration_sets env = Ok (vaults, refunds)" and "b_has_receivers env"
    and "\<And>num. get_block_txs env num = Ok (txs_of num)"
  shows "\<exists>bm'. bm_tick env bm =
      (bm', concat (map (\<lambda>n. block_messages vaults refunds (word_of_nat n) (txs_of (word_of_nat n)))
              [unat (bm_waiting_block bm)..<Suc (unat latest - unat (bm_block_confirmations bm))]), Ok ())
    \<and> unat (bm_waiting_block bm') = Suc (unat latest - unat (bm_block_confirmations bm))"
proof -
  let ?til = "saturating_sub latest (bm_block_confirmations bm)"
  have conf: "is_block_confirmed bm latest"
    using assms(3) by (simp add: is_block_confirmed_iff)
  have "bm_tick env bm = process_confirmed_block env ?til vaults refunds bm"
    using assms(1,4) conf by (simp add: bm_tick_def bm_call_def)
  also have "\<dots> = (bm_increment_waiting_block ?til bm,
      concat (map (\<lambda>num. block_messages vaults refunds num (txs_of num))
        (word_range (bm_waiting_block bm) ?til)), Ok ())"
    by (simp add: process_confirmed_block_def for_each_process_block_ok [OF assms(6,5)])
  finally show ?thesis
    using bm_advance_confirmed(1) [OF conf assms(2)]
    by (simp add: word_range_def comp_def del: upt_Suc)
qed

theorem btc_turn_catches_up_witness:
  "\<exists>bm'. bm_tick (ex_btc_env 105) ex_block_manager =
      (bm', concat (map (\<lambda>n. block_messages {BtcAddress [1], BtcAddress [2]} {BtcAddress [3]}
                          (word_of_nat n) [ex_btc_tx]) [101..<103]), Ok ())
    \<and> unat (bm_waiting_block bm') = 103"
  using btc_turn_catches_up [of "ex_btc_env 105" 105 ex_block_manager
      "{BtcAddress [1], BtcAddress [2]}" "{BtcAddress [3]}" "\<lambda>_. [ex_btc_tx]"]
  by (simp add: ex_block_manager_def)

text \<open>
  The bootstrap replays up to the head, whatever the confirmations. A manager that started
  at the head \<open>latest\<close> replays the blocks from \<open>latest - offset\<close> to \<open>latest\<close>, in order, in one
  inbound and one outbound message, and then waits for \<open>latest + 1\<close>: nothing is left out between
  the replay and normal operation, and the confirmation count plays no part in the replay.
\<close>

theorem btc_bootstrap_range:
  assumes "rpc_retry (b_block_count env) = Some latest" and "latest \<noteq> - 1"
    and "bm_initialize env bm = Ok bm'" and "bm_get_bootstrap_events env' bm' = Ok (inbound, outbound)"
  shows "unat (bm_waiting_block bm') = Suc (unat latest)
    \<and> (\<exists>vaults refunds blocks.
        fetch_registration_sets env' = Ok (vaults, refunds)
        \<and> list_all2 (\<lambda>n txs. get_block_txs env' (word_of_nat n) = Ok txs)
            [unat latest - unat (bm_bootstrap_offset bm)..<Suc (unat latest)] blocks
        \<and> bem_events inbound = concat (map (events_paying (\<lambda>a. a \<in> vaults)) blocks)
        \<and> bem_events outbound = concat (map (events_paying (\<lambda>a. a \<notin> vaults \<and> a \<in> refunds)) blocks))"
proof -
  have "unat latest \<noteq> unat (- 1 :: u64)"
    using assms(2) by (metis unsigned_word_eqI)
  then have "unat latest < 2 ^ 64 - 1"
    using unsigned_less [of latest, where 'a = nat] by simp
  moreover have bm': "bm' = bm\<lparr>bm_waiting_block := saturating_add latest 1\<rparr>"
    using assms(1,3) by (simp add: bm_initialize_def bm_call_def)
  ultimately have w: "unat (bm_waiting_block bm') = Suc (unat latest)"
    and same: "bm_bootstrap_offset bm' = bm_bootstrap_offset bm"
    by simp_all
  have range: "bm_bootstrap_range bm' =
      map word_of_nat [unat latest - unat (bm_bootstrap_offset bm)..<Suc (unat latest)]"
    using w same by (simp add: bm_bootstrap_range_def word_range_def Let_def unat_ucast_up del: upt_Suc)
  from assms(4) obtain vaults refunds blocks where
    sets: "fetch_registration_sets env' = Ok (vaults, refunds)"
    and blocks: "traverse_res (get_block_txs env') (bm_bootstrap_range bm') = Ok blocks"
    and ev: "bem_events inbound = concat (map (events_paying (\<lambda>a. a \<in> vaults)) blocks)"
      "bem_events outbound = concat (map (events_paying (\<lambda>a. a \<notin> vaults \<and> a \<in> refunds)) blocks)"
    by (auto simp: bm_get_bootstrap_events_def bind_res_Ok_iff fold_filter_block Let_def)
  from blocks range have "list_all2 (\<lambda>n txs. get_block_txs env' (word_of_nat n) = Ok txs)
      [unat latest - unat (bm_bootstrap_offset bm)..<Suc (unat latest)] blocks"
    by (simp add: traverse_res_Ok_iff list_all2_map1 del: upt_Suc)
  with w sets ev show ?thesis by blast
qed

theorem btc_bootstrap_range_witness:
  "\<exists>bm' inbound outbound. bm_initialize (ex_btc_env 100) ex_block_manager = Ok bm'
    \<and> bm_get_bootstrap_events (ex_btc_env 100) bm' = Ok (inbound, outbound)
    \<and> unat (bm_waiting_block bm') = 101"
proof -
  have ini: "bm_initialize (ex_btc_env 100) ex_block_manager =
      Ok (ex_block_manager\<lparr>bm_waiting_block := saturating_add 100 1\<rparr>)"
    by (simp add: bm_initialize_def bm_call_def)
  have "traverse_res (get_block_txs (ex_btc_env 100)) nums = Ok (map (\<lambda>_. [ex_btc_tx]) nums)" for nums
    by (rule traverse_res_map) simp
  then obtain inbound outbound where "bm_get_bootstrap_events (ex_btc_env 100)
      (ex_block_manager\<lparr>bm_waiting_block := saturating_add 100 1\<rparr>) = Ok (inbound, outbound)"
    by (simp add: bm_get_bootstrap_events_def fold_filter_block Let_def)
  from btc_bootstrap_range [OF _ _ ini this] ini this show ?thesis
    by (intro exI) auto
qed

end
