(* ===== verification/Btc_Handlers.thy ===== *)
theory Btc_Handlers
  imports Btc_Block_Manager Socket_Relay
begin

text \<open>
  The handlers of the Bitcoin block manager's messages: \<open>client/src/btc/handlers/inbound.rs\<close>
  (payments to vaults are voted on and their outputs submitted), \<open>outbound.rs\<close> (payments by the
  vaults settle the socket messages behind them) and \<open>feerate_feeder.rs\<close> (a fee rate per block).
  Answers of contracts, storages and web services are fields of the environments.
\<close>

section \<open>Inbound\<close>

record InboundEnv =
  i_client :: EthClient
  i_selected :: "address \<Rightarrow> bool res"
  i_blaze_activated :: "bool res"
  i_print_address :: "btc_address \<Rightarrow> string"
  i_user_address :: "string \<Rightarrow> u32 \<Rightarrow> address res"
  i_rollback_output :: "txid \<Rightarrow> u256 \<Rightarrow> b256 res"
  i_get_hash_key :: "txid \<Rightarrow> u256 \<Rightarrow> address \<Rightarrow> u256 \<Rightarrow> b256 res"
  i_vote_count :: "b256 \<Rightarrow> u256 res"
  i_majority :: "u256 res"
  i_is_relayer_voted :: "b256 \<Rightarrow> address \<Rightarrow> bool res"
  i_is_submittable_utxo :: "txid \<Rightarrow> u256 \<Rightarrow> u256 \<Rightarrow> bytes \<Rightarrow> address \<Rightarrow> bool res"
  i_scale_encode :: "txid \<Rightarrow> u32 \<Rightarrow> u64 \<Rightarrow> bytes \<Rightarrow> bytes"
  i_keccak256 :: "bytes \<Rightarrow> b256"
  i_hexify :: "b256 \<Rightarrow> bytes"
  i_sign :: "address \<Rightarrow> bytes \<Rightarrow> Signature res"
  i_xt_open :: bool

text \<open>\<open>None\<close> for the system vault, which the registration pool lists under its own address.\<close>

definition get_user_bfc_address :: "InboundEnv \<Rightarrow> btc_address \<Rightarrow> address option res" where
  "get_user_bfc_address env vault_addr =
     bind_res (unwrap (registration_pool (protocol_contracts (i_client env)))) (\<lambda>pool.
     bind_res (i_user_address env (i_print_address env vault_addr) 0) (\<lambda>user.
       Ok (if user = pool then None else Some user)))"

definition is_rollback_output :: "InboundEnv \<Rightarrow> txid \<Rightarrow> u32 \<Rightarrow> bool res" where
  "is_rollback_output env t index =
     bind_res (unwrap (socket_queue (protocol_contracts (i_client env)))) (\<lambda>_.
     bind_res (i_rollback_output env t (ucast index)) (\<lambda>psbt_txid. Ok (psbt_txid \<noteq> 0)))"

definition ib_bitcoin_socket :: "InboundEnv \<Rightarrow> address res" where
  "ib_bitcoin_socket env = unwrap (bitcoin_socket (protocol_contracts (i_client env)))"

definition ib_build_transaction :: "InboundEnv \<Rightarrow> BtcEvent \<Rightarrow> address \<Rightarrow> TxRequest res" where
  "ib_build_transaction env event user =
     bind_res (ib_bitcoin_socket env) (\<lambda>target.
       Ok \<lparr>tx_to = target, tx_from = None,
           tx_call = BitcoinSocketPoll (be_txid event) (ucast (be_index event)) user
                       (ucast (be_amount event)),
           tx_gas_limit = None\<rparr>)"

definition utxo_payload :: "InboundEnv \<Rightarrow> BtcEvent \<Rightarrow> bytes" where
  "utxo_payload env event =
     (let addr = ascii (i_print_address env (be_address event));
          utxo_hash = i_keccak256 env (i_scale_encode env (be_txid event) (be_index event) (be_amount event) addr)
      in to_be_bytes 32 (i_keccak256 env (ascii ''UtxosSubmission'')) @ i_hexify env utxo_hash)"

definition ib_build_unsigned_tx :: "InboundEnv \<Rightarrow> BtcEvent \<Rightarrow> (XtRequest \<times> XtRequestMetadata) res" where
  "ib_build_unsigned_tx env event =
     bind_res (sign_message (i_sign env) (i_client env) (utxo_payload env event)) (\<lambda>sig.
       Ok (SubmitUtxos (default_address (i_client env))
             [\<lparr>utxo_txid = be_txid event, utxo_vout = be_index event, utxo_amount = be_amount event,
               utxo_address = ascii (i_print_address env (be_address event))\<rparr>] sig,
           XtSubmitUtxos (be_txid event) (be_index event) (be_amount event)))"

definition is_vote_finished :: "InboundEnv \<Rightarrow> BtcEvent \<Rightarrow> address \<Rightarrow> bool res" where
  "is_vote_finished env event user =
     bind_res (ib_bitcoin_socket env) (\<lambda>_.
     bind_res (i_get_hash_key env (be_txid event) (ucast (be_index event)) user (ucast (be_amount event)))
       (\<lambda>hash_key.
     bind_res (i_vote_count env hash_key) (\<lambda>votes.
     bind_res (i_majority env) (\<lambda>majority.
       if majority \<le> votes then Ok True
       else i_is_relayer_voted env hash_key (default_address (i_client env))))))"

definition submit_utxo :: "InboundEnv \<Rightarrow> BtcEvent \<Rightarrow> (effect, unit) eff" where
  "submit_utxo env event =
     bind_eff (lift (unwrap (blaze (protocol_contracts (i_client env))))) (\<lambda>_.
     bind_eff (lift (i_is_submittable_utxo env (be_txid event) (ucast (be_index event))
                 (ucast (be_amount event)) (ascii (i_print_address env (be_address event)))
                 (default_address (i_client env)))) (\<lambda>submittable.
       if submittable
       then bind_eff (lift (ib_build_unsigned_tx env event)) (\<lambda>(call, meta).
              send_xt (i_xt_open env) call meta)
       else ret ()))"

definition BitcoinRelayMetadata_new :: "BtcEvent \<Rightarrow> address \<Rightarrow> BitcoinRelayMetadata" where
  "BitcoinRelayMetadata_new event user =
     \<lparr>brm_btc_address = be_address event, brm_bfc_address = user, brm_txid = be_txid event,
      brm_index = be_index event\<rparr>"

definition ib_process_event :: "InboundEnv \<Rightarrow> BtcEvent \<Rightarrow> (effect, unit) eff" where
  "ib_process_event env event =
     bind_eff (lift (blaze_activation (i_blaze_activated env) (i_client env))) (\<lambda>activated.
     bind_eff (if activated then submit_utxo env event else ret ()) (\<lambda>_.
     bind_eff (lift (get_user_bfc_address env (be_address event))) (\<lambda>user.
       case user of
         None \<Rightarrow> ret ()
       | Some bfc \<Rightarrow>
           bind_eff (lift (is_rollback_output env (be_txid event) (be_index event))) (\<lambda>rollback.
             if rollback then ret ()
             else
               bind_eff (lift (is_vote_finished env event bfc)) (\<lambda>finished.
                 if finished then ret ()
                 else
                   bind_eff (lift (ib_build_transaction env event bfc)) (\<lambda>tx.
                     send_transaction (i_client env) tx
                       (BitcoinRelay (BitcoinRelayMetadata_new event bfc))))))))"

definition ib_process_message :: "InboundEnv \<Rightarrow> BtcEventMessage \<Rightarrow> (effect, unit) eff" where
  "ib_process_message env msg =
     bind_eff (lift (client_is_selected_relayer (i_selected env) (i_client env))) (\<lambda>selected.
       if \<not> selected \<or> bem_event_type msg \<noteq> EventInbound then ret ()
       else
         for_each (\<lambda>event.
           bind_eff (lift (reversed_txid (be_txid event)))
             (\<lambda>t. ib_process_event env (event\<lparr>be_txid := t\<rparr>)))
           (bem_events msg))"

section \<open>Outbound\<close>

text \<open>\<open>ob_relay\<close> carries the Bifrost client and what the shared relay builder needs.\<close>

record OutboundEnv =
  ob_relay :: RelayEnv
  ob_selected :: "address \<Rightarrow> bool res"
  ob_blaze_activated :: "bool res"
  ob_outbound_tx :: "txid \<Rightarrow> bytes list res"
  ob_decode :: "bytes \<Rightarrow> Socket_Message option"
  ob_is_tx_broadcastable :: "txid \<Rightarrow> address \<Rightarrow> bool res"
  ob_keccak256 :: "bytes \<Rightarrow> b256"

abbreviation ob_client :: "OutboundEnv \<Rightarrow> EthClient" where
  "ob_client env \<equiv> r_client (ob_relay env)"

definition check_socket_queue :: "OutboundEnv \<Rightarrow> txid \<Rightarrow> Socket_Message list res" where
  "check_socket_queue env t =
     bind_res (unwrap (socket_queue (protocol_contracts (ob_client env)))) (\<lambda>_.
     bind_res (ob_outbound_tx env t) (traverse_res (\<lambda>bs. ok_or (ob_decode env bs) DecodeError)))"

definition ob_build_transaction :: "OutboundEnv \<Rightarrow> Socket_Message \<Rightarrow> (TxRequest \<times> bool) option res" where
  "ob_build_transaction env msg =
     bind_res (build_outbound_signatures (ob_relay env) msg) (\<lambda>(sigs, is_external).
       Ok (Some (build_poll_request (socket (protocol_contracts (ob_client env))) msg sigs, is_external)))"

definition ob_build_unsigned_tx :: "OutboundEnv \<Rightarrow> txid \<Rightarrow> (XtRequest \<times> XtRequestMetadata) res" where
  "ob_build_unsigned_tx env t =
     bind_res (sign_message (r_sign (ob_relay env)) (ob_client env)
                 (to_be_bytes 32 (ob_keccak256 env (ascii ''BroadcastPoll'')) @ t)) (\<lambda>sig.
       Ok (BroadcastPoll (default_address (ob_client env)) t sig, XtBroadcastPoll t))"

definition broadcast_poll :: "OutboundEnv \<Rightarrow> txid \<Rightarrow> (effect, unit) eff" where
  "broadcast_poll env t =
     bind_eff (lift (unwrap (blaze (protocol_contracts (ob_client env))))) (\<lambda>_.
     bind_eff (lift (ob_is_tx_broadcastable env t (default_address (ob_client env)))) (\<lambda>broadcastable.
       if broadcastable
       then bind_eff (lift (ob_build_unsigned_tx env t)) (\<lambda>(call, meta).
              send_xt (r_xt_open (ob_relay env)) call meta)
       else ret ()))"

definition settle_message :: "OutboundEnv \<Rightarrow> Socket_Message \<Rightarrow> (effect, unit) eff" where
  "settle_message env m =
     (let msg = set_status Executed m
      in bind_eff (lift (ob_build_transaction env msg)) (\<lambda>built.
           case built of
             Some (tx, is_external) \<Rightarrow>
               bind_eff (lift (socket_status_from_u8 (msg_status msg))) (\<lambda>status.
                 send_transaction (ob_client env) tx (SocketRelay (relay_metadata False status msg False)))
           | None \<Rightarrow> ret ()))"

definition ob_process_event :: "OutboundEnv \<Rightarrow> BtcEvent \<Rightarrow> (effect, unit) eff" where
  "ob_process_event env event =
     bind_eff (lift (reversed_txid (be_txid event))) (\<lambda>t.
     bind_eff (lift (check_socket_queue env t)) (\<lambda>messages.
     bind_eff (for_each (settle_message env) messages) (\<lambda>_.
     bind_eff (lift (blaze_activation (ob_blaze_activated env) (ob_client env))) (\<lambda>activated.
       if activated then broadcast_poll env t else ret ()))))"

text \<open>\<open>seen_txids.insert\<close>: only the first event of a transaction in a message is processed.\<close>

fun unseen_events :: "txid set \<Rightarrow> BtcEvent list \<Rightarrow> BtcEvent list" where
  "unseen_events seen [] = []"
| "unseen_events seen (e # es) =
     (if be_txid e \<in> seen then unseen_events seen es
      else e # unseen_events (insert (be_txid e) seen) es)"

definition ob_process_message :: "OutboundEnv \<Rightarrow> BtcEventMessage \<Rightarrow> (effect, unit) eff" where
  "ob_process_message env msg =
     bind_eff (lift (client_is_selected_relayer (ob_selected env) (ob_client env))) (\<lambda>selected.
       if \<not> selected \<or> bem_event_type msg \<noteq> EventOutbound then ret ()
       else for_each (ob_process_event env) (unseen_events {} (bem_events msg)))"

section \<open>Fee rates\<close>

text \<open>
  The answers one round of \<open>fetch_fee_rate\<close> can get: the web service's rates (fastest, economy)
  or none, and the node's estimates in satoshi per kilobyte for one and six blocks (\<open>None\<close> a call
  that fails, \<open>Some None\<close> an answer without a rate).
\<close>

record FeeRound =
  fr_api_rates :: "(u64 \<times> u64) option"
  fr_short_term :: "u64 option option"
  fr_long_term :: "u64 option option"

definition fallback_estimate_fee :: "FeeRound \<Rightarrow> (u64 \<times> u64) res" where
  "fallback_estimate_fee r =
     bind_res (ok_or (fr_short_term r) RpcError) (\<lambda>st.
     bind_res (ok_or (fr_long_term r) RpcError) (\<lambda>lt.
     bind_res (ok_or st FeeRateUnavailable) (\<lambda>st_rate.
     bind_res (ok_or lt FeeRateUnavailable) (\<lambda>lt_rate.
       Ok (lt_rate div 1000, st_rate div 1000)))))"

text \<open>
  The loop over the rounds: \<open>None\<close> while it is still retrying. \<open>boost\<close> is the floating-point
  expression \<open>(fastest as f64 * 1.2).round() as u64\<close>.
\<close>

fun fetch_fee_rate :: "(u64 \<Rightarrow> u64) \<Rightarrow> bool \<Rightarrow> FeeRound list \<Rightarrow> (u64 \<times> u64) option" where
  "fetch_fee_rate boost False rounds = Some (1, 1)"
| "fetch_fee_rate boost True [] = None"
| "fetch_fee_rate boost True (r # rounds) =
     (case fr_api_rates r of
        Some (fastest, economy) \<Rightarrow> Some (economy, boost fastest)
      | None \<Rightarrow>
          (case fallback_estimate_fee r of
             Ok rates \<Rightarrow> Some rates
           | _ \<Rightarrow> fetch_fee_rate boost True rounds))"

text \<open>
  The storage query behind \<open>is_fee_rate_submitted\<close>, retried while it fails: \<open>None\<close> an answer
  that fails or does not decode, \<open>Some None\<close> a missing value (unreachable, a panic), otherwise
  the submitters.
\<close>

fun is_fee_rate_submitted :: "address \<Rightarrow> address list option option list \<Rightarrow> bool res option" where
  "is_fee_rate_submitted addr [] = None"
| "is_fee_rate_submitted addr (None # answers) = is_fee_rate_submitted addr answers"
| "is_fee_rate_submitted addr (Some None # answers) = Some Panic"
| "is_fee_rate_submitted addr (Some (Some submitters) # answers) = Some (Ok (addr \<in> set submitters))"

record FeeRateEnv =
  fr_client :: EthClient
  fr_selected :: "address \<Rightarrow> bool res"
  fr_blaze_activated :: "bool res"
  fr_has_api :: bool
  fr_boost :: "u64 \<Rightarrow> u64"
  fr_storage :: "address list option option list"
  fr_rounds :: "FeeRound list"
  fr_block_number :: "u64 res"
  fr_print_u64 :: "u64 \<Rightarrow> string"
  fr_sign :: "address \<Rightarrow> bytes \<Rightarrow> Signature res"
  fr_xt_open :: bool

definition fr_build_unsigned_tx ::
    "FeeRateEnv \<Rightarrow> u64 \<Rightarrow> u64 \<Rightarrow> (XtRequest \<times> XtRequestMetadata) res" where
  "fr_build_unsigned_tx env lt_fee_rate fee_rate =
     bind_res (fr_block_number env) (\<lambda>n.
       let deadline = (ucast n :: u32) + 2;
           text = fr_print_u64 env (ucast deadline) @ '':'' @ fr_print_u64 env lt_fee_rate
                    @ '':'' @ fr_print_u64 env fee_rate
       in bind_res (sign_message (fr_sign env) (fr_client env) (ascii text)) (\<lambda>sig.
            Ok (SubmitFeeRate (default_address (fr_client env)) lt_fee_rate fee_rate deadline sig,
                XtSubmitFeeRate lt_fee_rate fee_rate)))"

definition submit_fee_rate :: "FeeRateEnv \<Rightarrow> u64 \<Rightarrow> u64 \<Rightarrow> (effect, unit) eff" where
  "submit_fee_rate env lt_fee_rate fee_rate =
     bind_eff (lift (fr_build_unsigned_tx env lt_fee_rate fee_rate)) (\<lambda>(call, meta).
       send_xt (fr_xt_open env) call meta)"

text \<open>The handling of one message; \<open>None\<close> while one of the two loops is still retrying.\<close>

definition fr_process_message :: "FeeRateEnv \<Rightarrow> BtcEventMessage \<Rightarrow> (effect, unit) eff option" where
  "fr_process_message env msg =
     (case client_is_selected_relayer (fr_selected env) (fr_client env) of
        Ok selected \<Rightarrow>
          if \<not> selected \<or> bem_event_type msg \<noteq> EventNewBlock then Some (ret ())
          else
            (case blaze_activation (fr_blaze_activated env) (fr_client env) of
               Ok activated \<Rightarrow>
                 if \<not> activated then Some (ret ())
                 else
                   (case is_fee_rate_submitted (default_address (fr_client env)) (fr_storage env) of
                      None \<Rightarrow> None
                    | Some (Ok submitted) \<Rightarrow>
                        if submitted then Some (ret ())
                        else
                          (case fetch_fee_rate (fr_boost env) (fr_has_api env) (fr_rounds env) of
                             None \<Rightarrow> None
                           | Some (lt_fee_rate, fee_rate) \<Rightarrow>
                               Some (submit_fee_rate env lt_fee_rate fee_rate))
                    | Some (Err e) \<Rightarrow> Some (lift (Err e))
                    | Some Panic \<Rightarrow> Some (lift Panic))
             | Err e \<Rightarrow> Some (lift (Err e))
             | Panic \<Rightarrow> Some (lift Panic))
      | Err e \<Rightarrow> Some (lift (Err e))
      | Panic \<Rightarrow> Some (lift Panic))"

section \<open>What the inbound handler votes for\<close>

fun is_send_tx :: "effect \<Rightarrow> bool" where
  "is_send_tx (SendTx c tx m) = True"
| "is_send_tx f = False"

lemma submit_utxo_only_xt: "f \<in> set (fst (submit_utxo env event)) \<Longrightarrow> \<not> is_send_tx f"
  by (auto simp: submit_utxo_def fst_bind_eff_mem split: if_splits)

lemma filter_submit_utxo [simp]: "filter is_send_tx (fst (submit_utxo env event)) = []"
  using submit_utxo_only_xt by (auto simp: filter_empty_conv)

text \<open>The conditions of a vote, over the contracts' answers.\<close>

definition vote_due :: "InboundEnv \<Rightarrow> BtcEvent \<Rightarrow> address \<Rightarrow> bool" where
  "vote_due env event user \<longleftrightarrow>
     (\<exists>pool. registration_pool (protocol_contracts (i_client env)) = Some pool \<and> user \<noteq> pool)
     \<and> i_user_address env (i_print_address env (be_address event)) 0 = Ok user
     \<and> socket_queue (protocol_contracts (i_client env)) \<noteq> None
     \<and> i_rollback_output env (be_txid event) (ucast (be_index event)) = Ok 0
     \<and> (\<exists>h votes majority.
          i_get_hash_key env (be_txid event) (ucast (be_index event)) user (ucast (be_amount event)) = Ok h
          \<and> i_vote_count env h = Ok votes \<and> i_majority env = Ok majority \<and> votes < majority
          \<and> i_is_relayer_voted env h (default_address (i_client env)) = Ok False)"

definition vote_tx :: "address \<Rightarrow> BtcEvent \<Rightarrow> address \<Rightarrow> TxRequest" where
  "vote_tx target event user =
     \<lparr>tx_to = target, tx_from = None,
      tx_call = BitcoinSocketPoll (be_txid event) (ucast (be_index event)) user (ucast (be_amount event)),
      tx_gas_limit = None\<rparr>"

lemma get_user_bfc_address_Some_iff:
  "get_user_bfc_address env a = Ok (Some user) \<longleftrightarrow>
     (\<exists>pool. registration_pool (protocol_contracts (i_client env)) = Some pool \<and> user \<noteq> pool)
     \<and> i_user_address env (i_print_address env a) 0 = Ok user"
  by (auto simp: get_user_bfc_address_def bind_res_Ok_iff split: if_splits)

lemma is_rollback_output_False_iff:
  "is_rollback_output env t k = Ok False \<longleftrightarrow>
     socket_queue (protocol_contracts (i_client env)) \<noteq> None \<and> i_rollback_output env t (ucast k) = Ok 0"
  by (auto simp: is_rollback_output_def bind_res_Ok_iff)

lemma is_vote_finished_False_iff:
  "is_vote_finished env event user = Ok False \<longleftrightarrow>
     bitcoin_socket (protocol_contracts (i_client env)) \<noteq> None
     \<and> (\<exists>h votes majority.
          i_get_hash_key env (be_txid event) (ucast (be_index event)) user (ucast (be_amount event)) = Ok h
          \<and> i_vote_count env h = Ok votes \<and> i_majority env = Ok majority \<and> votes < majority
          \<and> i_is_relayer_voted env h (default_address (i_client env)) = Ok False)"
  by (auto simp: is_vote_finished_def ib_bitcoin_socket_def bind_res_Ok_iff not_le split: if_splits)

lemma ib_build_transaction_Ok_iff:
  "ib_build_transaction env event user = Ok tx \<longleftrightarrow>
     (\<exists>target. bitcoin_socket (protocol_contracts (i_client env)) = Some target
       \<and> tx = vote_tx target event user)"
  by (auto simp: ib_build_transaction_def ib_bitcoin_socket_def bind_res_Ok_iff vote_tx_def)

lemma ib_process_event_tx:
  assumes "SendTx chain tx meta \<in> set (fst (ib_process_event env event))"
  shows "\<exists>user target. vote_due env event user
    \<and> bitcoin_socket (protocol_contracts (i_client env)) = Some target
    \<and> tx = vote_tx target event user \<and> chain = client_chain_id (i_client env)
    \<and> is_relay_target (metadata (i_client env))
    \<and> meta = BitcoinRelay (BitcoinRelayMetadata_new event user)"
proof -
  have "\<exists>user. get_user_bfc_address env (be_address event) = Ok (Some user)
      \<and> is_rollback_output env (be_txid event) (be_index event) = Ok False
      \<and> is_vote_finished env event user = Ok False
      \<and> ib_build_transaction env event user = Ok tx
      \<and> chain = client_chain_id (i_client env) \<and> is_relay_target (metadata (i_client env))
      \<and> meta = BitcoinRelay (BitcoinRelayMetadata_new event user)"
    using assms
    by (auto simp: ib_process_event_def fst_bind_eff_mem dest: submit_utxo_only_xt
        split: if_splits option.splits)
  then show ?thesis
    by (auto simp: get_user_bfc_address_Some_iff is_rollback_output_False_iff
        is_vote_finished_False_iff ib_build_transaction_Ok_iff vote_due_def)
qed

lemma ib_process_message_tx:
  assumes "SendTx chain tx meta \<in> set (fst (ib_process_message env msg))"
  obtains event user target where "event \<in> set (bem_events msg)"
    and "bem_event_type msg = EventInbound"
    and "client_is_selected_relayer (i_selected env) (i_client env) = Ok True"
    and "vote_due env (event\<lparr>be_txid := rev (be_txid event)\<rparr>) user"
    and "bitcoin_socket (protocol_contracts (i_client env)) = Some target"
    and "tx = vote_tx target (event\<lparr>be_txid := rev (be_txid event)\<rparr>) user"
    and "chain = client_chain_id (i_client env)"
proof -
  have sel: "client_is_selected_relayer (i_selected env) (i_client env) = Ok True"
    "bem_event_type msg = EventInbound"
    and mem: "SendTx chain tx meta \<in> set (fst (for_each (\<lambda>event.
           bind_eff (lift (reversed_txid (be_txid event)))
             (\<lambda>t. ib_process_event env (event\<lparr>be_txid := t\<rparr>))) (bem_events msg)))"
    using assms by (auto simp: ib_process_message_def fst_bind_eff_mem split: if_splits)
  from for_each_mem [OF mem] obtain event t where ev: "event \<in> set (bem_events msg)"
    and t: "reversed_txid (be_txid event) = Ok t"
    and sent: "SendTx chain tx meta \<in> set (fst (ib_process_event env (event\<lparr>be_txid := t\<rparr>)))"
    by (auto simp: fst_bind_eff_mem)
  have "t = rev (be_txid event)"
    using t by (simp add: reversed_txid_def split: if_splits)
  then show thesis
    using that [OF ev sel(2,1)] ib_process_event_tx [OF sent] by blast
qed

lemma ib_process_event_votes:
  assumes "vote_due env event user" and "bitcoin_socket (protocol_contracts (i_client env)) = Some target"
    and "is_relay_target (metadata (i_client env))"
    and "blaze_activation (i_blaze_activated env) (i_client env) = Ok activated"
    and "snd (submit_utxo env event) = Ok ()"
  shows "filter is_send_tx (fst (ib_process_event env event)) =
      [SendTx (client_chain_id (i_client env)) (vote_tx target event user)
         (BitcoinRelay (BitcoinRelayMetadata_new event user))]
    \<and> snd (ib_process_event env event) = Ok ()"
proof -
  have facts: "get_user_bfc_address env (be_address event) = Ok (Some user)"
    "is_rollback_output env (be_txid event) (be_index event) = Ok False"
    "is_vote_finished env event user = Ok False"
    "ib_build_transaction env event user = Ok (vote_tx target event user)"
    using assms(1,2)
    by (auto simp: get_user_bfc_address_Some_iff is_rollback_output_False_iff
        is_vote_finished_False_iff ib_build_transaction_Ok_iff vote_due_def)
  obtain fs where "submit_utxo env event = (fs, Ok ())" and "filter is_send_tx fs = []"
    using assms(5) filter_submit_utxo [of env event] by (metis fst_conv prod.collapse)
  then show ?thesis
    using facts assms(3,4)
    by (cases activated) (simp_all add: ib_process_event_def send_transaction_def emit_def)
qed

section \<open>What the outbound handler settles\<close>

definition settlement :: "OutboundEnv \<Rightarrow> Socket_Message \<Rightarrow> effect" where
  "settlement env m =
     SendTx (client_chain_id (ob_client env))
       (build_poll_request (socket (protocol_contracts (ob_client env))) (set_status Executed m)
          signatures_default)
       (SocketRelay (relay_metadata False Executed m False))"

lemma relay_metadata_set_status [simp]:
  "relay_metadata i s (set_status t m) b = relay_metadata i s m b"
  by (simp add: relay_metadata_def)

lemma settle_message_eq:
  "is_relay_target (metadata (ob_client env)) \<Longrightarrow> settle_message env m = ([settlement env m], Ok ())"
  by (simp add: settle_message_def ob_build_transaction_def build_outbound_signatures_def
      socket_code.from_to send_transaction_def settlement_def emit_def Let_def
      del: socket_status_to_u8.simps)

lemma for_each_settle:
  "is_relay_target (metadata (ob_client env)) \<Longrightarrow>
     for_each (settle_message env) ms = (map (settlement env) ms, Ok ())"
  by (induction ms) (simp_all add: settle_message_eq ret_def)

lemma broadcast_poll_only_xt: "filter is_send_tx (fst (broadcast_poll env t)) = []"
  by (auto simp: broadcast_poll_def fst_bind_eff_mem filter_empty_conv split: if_splits)

lemma filter_settlements [simp]: "filter is_send_tx (map (settlement env) ms) = map (settlement env) ms"
  by (induction ms) (simp_all add: settlement_def)

lemma ob_process_event_Ok:
  assumes "is_relay_target (metadata (ob_client env))" and "snd (ob_process_event env event) = Ok ()"
  shows "\<exists>ms. check_socket_queue env (rev (be_txid event)) = Ok ms
    \<and> filter is_send_tx (fst (ob_process_event env event)) = map (settlement env) ms"
proof -
  obtain t ms b where t: "reversed_txid (be_txid event) = Ok t"
    and ms: "check_socket_queue env t = Ok ms"
    and b: "blaze_activation (ob_blaze_activated env) (ob_client env) = Ok b"
    using assms by (auto simp: ob_process_event_def snd_bind_eff bind_res_Ok_iff for_each_settle)
  have "t = rev (be_txid event)"
    using t by (simp add: reversed_txid_def split: if_splits)
  moreover have "fst (ob_process_event env event) =
      map (settlement env) ms @ fst (if b then broadcast_poll env t else ret ())"
    using t ms b assms(1) by (simp add: ob_process_event_def for_each_settle)
  ultimately show ?thesis
    using ms by (simp add: broadcast_poll_only_xt)
qed

lemma unseen_events_distinct:
  "distinct (map be_txid (unseen_events seen es))
   \<and> set (map be_txid (unseen_events seen es)) = set (map be_txid es) - seen
   \<and> set (unseen_events seen es) \<subseteq> set es"
  by (induction es arbitrary: seen) auto

lemma for_each_events_Ok:
  assumes "\<And>e. snd (g e) = Ok () \<Longrightarrow> \<exists>ms. Q e ms \<and> filter P (fst (g e)) = map h ms"
    and "snd (for_each g es) = Ok ()"
  shows "\<exists>mss. list_all2 Q es mss \<and> filter P (fst (for_each g es)) = map h (concat mss)"
  using assms(2)
proof (induction es)
  case Nil
  then show ?case by simp
next
  case (Cons e es)
  then obtain fs where fs: "g e = (fs, Ok ())"
    by (cases "g e"; cases "snd (g e)") auto
  then obtain ms where ms: "Q e ms" "filter P fs = map h ms"
    using assms(1) [of e] by auto
  obtain mss where "list_all2 Q es mss" "filter P (fst (for_each g es)) = map h (concat mss)"
    using Cons fs by auto
  then show ?case
    using fs ms by (intro exI [of _ "ms # mss"]) simp
qed

section \<open>Fee rates\<close>

lemma fetch_fee_rate_skips:
  "\<lbrakk>\<And>r. r \<in> set rs \<Longrightarrow> fr_api_rates r = None \<and> \<not> is_ok (fallback_estimate_fee r)\<rbrakk> \<Longrightarrow>
     fetch_fee_rate boost True (rs @ rounds) = fetch_fee_rate boost True rounds"
proof (induction rs)
  case (Cons r rs)
  then have "fr_api_rates r = None" "\<not> is_ok (fallback_estimate_fee r)" by auto
  with Cons show ?case by (cases "fallback_estimate_fee r") auto
qed simp

lemma fr_process_message_sends:
  assumes "fr_process_message env msg = Some (fs, r)" and "f \<in> set fs"
  shows "\<exists>lt_fee_rate fee_rate n sig. bem_event_type msg = EventNewBlock
    \<and> client_is_selected_relayer (fr_selected env) (fr_client env) = Ok True
    \<and> blaze_activation (fr_blaze_activated env) (fr_client env) = Ok True
    \<and> is_fee_rate_submitted (default_address (fr_client env)) (fr_storage env) = Some (Ok False)
    \<and> fetch_fee_rate (fr_boost env) (fr_has_api env) (fr_rounds env) = Some (lt_fee_rate, fee_rate)
    \<and> fr_block_number env = Ok n
    \<and> f = SendXt (XtRequestMessage_new
        (SubmitFeeRate (default_address (fr_client env)) lt_fee_rate fee_rate (ucast n + 2) sig)
        (XtSubmitFeeRate lt_fee_rate fee_rate))"
proof -
  obtain lt_fee_rate fee_rate where pre: "bem_event_type msg = EventNewBlock"
    "client_is_selected_relayer (fr_selected env) (fr_client env) = Ok True"
    "blaze_activation (fr_blaze_activated env) (fr_client env) = Ok True"
    "is_fee_rate_submitted (default_address (fr_client env)) (fr_storage env) = Some (Ok False)"
    "fetch_fee_rate (fr_boost env) (fr_has_api env) (fr_rounds env) = Some (lt_fee_rate, fee_rate)"
    and fs: "(fs, r) = submit_fee_rate env lt_fee_rate fee_rate"
    using assms by (auto simp: fr_process_message_def lift_def ret_def split: res.splits if_splits option.splits)
  have "f \<in> set (fst (submit_fee_rate env lt_fee_rate fee_rate))"
    using fs assms(2) by (metis fst_conv)
  then show ?thesis
    using pre by (auto simp: submit_fee_rate_def fst_bind_eff_mem fr_build_unsigned_tx_def bind_res_Ok_iff Let_def)
qed

section \<open>Concrete environments\<close>

definition ex_btc_event :: BtcEvent where
  "ex_btc_event = \<lparr>be_txid = 1 # replicate 31 0, be_index = 2, be_address = BtcAddress [1], be_amount = 50000\<rparr>"

definition ex_inbound_env :: InboundEnv where
  "ex_inbound_env =
     \<lparr>i_client = ex_client 3068 True, i_selected = (\<lambda>_. Ok True), i_blaze_activated = Ok True,
      i_print_address = (\<lambda>_. ''bc1''), i_user_address = (\<lambda>_ _. Ok 77),
      i_rollback_output = (\<lambda>_ _. Ok 0), i_get_hash_key = (\<lambda>_ _ _ _. Ok 5),
      i_vote_count = (\<lambda>_. Ok 1), i_majority = Ok 3, i_is_relayer_voted = (\<lambda>_ _. Ok False),
      i_is_submittable_utxo = (\<lambda>_ _ _ _ _. Ok True), i_scale_encode = (\<lambda>t _ _ _. t),
      i_keccak256 = (\<lambda>bs. of_nat (length bs)), i_hexify = (\<lambda>_. []), i_sign = (\<lambda>_ _. Ok ex_signature),
      i_xt_open = True\<rparr>"

definition ex_outbound_env :: OutboundEnv where
  "ex_outbound_env =
     \<lparr>ob_relay = ex_relay_env\<lparr>r_hook := ex_hook_env\<lparr>h_client := ex_client 3068 True\<rparr>\<rparr>,
      ob_selected = (\<lambda>_. Ok True), ob_blaze_activated = Ok True,
      ob_outbound_tx = (\<lambda>_. Ok [[5]]), ob_decode = (\<lambda>_. Some (ex_outbound_message 5)),
      ob_is_tx_broadcastable = (\<lambda>_ _. Ok True), ob_keccak256 = (\<lambda>bs. of_nat (length bs))\<rparr>"

lemma ex_inbound_simps [simp]:
  "i_client ex_inbound_env = ex_client 3068 True"
  "client_is_selected_relayer (i_selected ex_inbound_env) (ex_client 3068 True) = Ok True"
  "blaze_activation (i_blaze_activated ex_inbound_env) (ex_client 3068 True) = Ok True"
  "bitcoin_socket (protocol_contracts (ex_client 3068 True)) = Some 16"
  "is_relay_target (metadata (ex_client 3068 True))"
  "client_chain_id (ex_client 3068 True) = 3068"
  "snd (submit_utxo ex_inbound_env event) = Ok ()"
  by (simp_all add: ex_inbound_env_def ex_defs client_is_selected_relayer_def blaze_activation_def
      client_chain_id_def submit_utxo_def snd_bind_eff ib_build_unsigned_tx_def sign_message_def)

lemma ex_vote_due: "vote_due ex_inbound_env (ex_btc_event\<lparr>be_txid := t\<rparr>) 77"
  by (simp add: vote_due_def ex_inbound_env_def ex_defs)

lemma ex_outbound_simps [simp]:
  "ob_client ex_outbound_env = ex_client 3068 True"
  "client_is_selected_relayer (ob_selected ex_outbound_env) (ex_client 3068 True) = Ok True"
  "check_socket_queue ex_outbound_env t = Ok [ex_outbound_message 5]"
  by (simp_all add: ex_outbound_env_def ex_defs client_is_selected_relayer_def check_socket_queue_def ex_hook_env_def ok_or_def)

lemma ex_outbound_event:
  "be_txid event = 1 # replicate 31 0 \<Longrightarrow> snd (ob_process_event ex_outbound_env event) = Ok ()"
  by (simp add: ob_process_event_def snd_bind_eff reversed_txid_def for_each_settle)
    (simp add: ex_outbound_env_def ex_defs blaze_activation_def broadcast_poll_def snd_bind_eff
      ob_build_unsigned_tx_def sign_message_def ex_relay_env_def ex_hook_env_def)

section \<open>Properties\<close>

text \<open>
  A vote for a Bitcoin deposit is justified. Every transaction the inbound handler sends is a
  vote for an inbound event of the message, made by a relayer of the current round, for a payment
  to the vault of a registered user (never the system vault), which is not being rolled back, has
  not reached its majority and was not voted for by this relayer; it names the deposit by the
  reversed transaction id and carries the output index, the user and the amount of the event.
\<close>

theorem inbound_vote_sound:
  assumes "SendTx chain tx meta \<in> set (fst (ib_process_message env msg))"
  shows "\<exists>event \<in> set (bem_events msg). \<exists>user pool h votes majority target.
      bem_event_type msg = EventInbound
      \<and> client_is_selected_relayer (i_selected env) (i_client env) = Ok True
      \<and> registration_pool (protocol_contracts (i_client env)) = Some pool \<and> user \<noteq> pool
      \<and> i_user_address env (i_print_address env (be_address event)) 0 = Ok user
      \<and> i_rollback_output env (rev (be_txid event)) (ucast (be_index event)) = Ok 0
      \<and> i_get_hash_key env (rev (be_txid event)) (ucast (be_index event)) user (ucast (be_amount event)) = Ok h
      \<and> i_vote_count env h = Ok votes \<and> i_majority env = Ok majority \<and> votes < majority
      \<and> i_is_relayer_voted env h (default_address (i_client env)) = Ok False
      \<and> bitcoin_socket (protocol_contracts (i_client env)) = Some target \<and> tx_to tx = target
      \<and> tx_call tx = BitcoinSocketPoll (rev (be_txid event)) (ucast (be_index event)) user (ucast (be_amount event))
      \<and> chain = client_chain_id (i_client env)"
proof -
  obtain event user target where "event \<in> set (bem_events msg)" "bem_event_type msg = EventInbound"
    "client_is_selected_relayer (i_selected env) (i_client env) = Ok True"
    "vote_due env (event\<lparr>be_txid := rev (be_txid event)\<rparr>) user"
    "bitcoin_socket (protocol_contracts (i_client env)) = Some target"
    "tx = vote_tx target (event\<lparr>be_txid := rev (be_txid event)\<rparr>) user"
    "chain = client_chain_id (i_client env)"
    by (rule ib_process_message_tx [OF assms])
  then show ?thesis
    by (intro bexI [of _ event]) (auto simp: vote_due_def vote_tx_def)
qed

theorem inbound_vote_sound_witness:
  "\<exists>event \<in> {ex_btc_event}. \<exists>h. i_vote_count ex_inbound_env h = Ok 1
     \<and> i_is_relayer_voted ex_inbound_env h 7 = Ok False"
proof -
  let ?e = "ex_btc_event\<lparr>be_txid := rev (be_txid ex_btc_event)\<rparr>"
  have "reversed_txid (be_txid ex_btc_event) = Ok (rev (be_txid ex_btc_event))"
    by (simp add: reversed_txid_def ex_btc_event_def)
  moreover have "filter is_send_tx (fst (ib_process_event ex_inbound_env ?e)) =
      [SendTx 3068 (vote_tx 16 ?e 77) (BitcoinRelay (BitcoinRelayMetadata_new ?e 77))]"
    using ib_process_event_votes [OF ex_vote_due, of 16 True] by simp
  then have "SendTx 3068 (vote_tx 16 ?e 77) (BitcoinRelay (BitcoinRelayMetadata_new ?e 77))
      \<in> set (fst (ib_process_event ex_inbound_env ?e))"
    using filter_is_subset [of is_send_tx "fst (ib_process_event ex_inbound_env ?e)"] by simp
  ultimately have "SendTx 3068 (vote_tx 16 ?e 77) (BitcoinRelay (BitcoinRelayMetadata_new ?e 77))
      \<in> set (fst (ib_process_message ex_inbound_env
        \<lparr>bem_block_number = 1, bem_event_type = EventInbound, bem_events = [ex_btc_event]\<rparr>))"
    by (simp add: ib_process_message_def fst_bind_eff_mem)
  from inbound_vote_sound [OF this] show ?thesis
    by (auto simp: ex_inbound_env_def ex_defs)
qed

text \<open>
  C36: A deposit that is due gets its vote. When the contracts' answers call for a vote of this
  relayer on an event and submitting the output does not fail, handling the event sends exactly
  one transaction, the vote.
\<close>

theorem inbound_vote_complete:
  assumes "registration_pool (protocol_contracts (i_client env)) = Some pool" and "user \<noteq> pool"
    and "i_user_address env (i_print_address env (be_address event)) 0 = Ok user"
    and "socket_queue (protocol_contracts (i_client env)) = Some queue"
    and "i_rollback_output env (be_txid event) (ucast (be_index event)) = Ok 0"
    and "i_get_hash_key env (be_txid event) (ucast (be_index event)) user (ucast (be_amount event)) = Ok h"
    and "i_vote_count env h = Ok votes" and "i_majority env = Ok majority" and "votes < majority"
    and "i_is_relayer_voted env h (default_address (i_client env)) = Ok False"
    and "bitcoin_socket (protocol_contracts (i_client env)) = Some target"
    and "is_relay_target (metadata (i_client env))"
    and "blaze_activation (i_blaze_activated env) (i_client env) = Ok activated"
    and "snd (submit_utxo env event) = Ok ()"
  shows "filter is_send_tx (fst (ib_process_event env event)) =
      [SendTx (client_chain_id (i_client env)) (vote_tx target event user)
         (BitcoinRelay (BitcoinRelayMetadata_new event user))]
    \<and> snd (ib_process_event env event) = Ok ()"
proof -
  have "vote_due env event user"
    using assms(1-10) by (auto simp: vote_due_def)
  from ib_process_event_votes [OF this assms(11-14)] show ?thesis .
qed

theorem inbound_vote_complete_witness:
  "filter is_send_tx (fst (ib_process_event ex_inbound_env ex_btc_event)) =
      [SendTx 3068 (vote_tx 16 ex_btc_event 77) (BitcoinRelay (BitcoinRelayMetadata_new ex_btc_event 77))]"
proof -
  have "filter is_send_tx (fst (ib_process_event ex_inbound_env ex_btc_event)) =
      [SendTx (client_chain_id (i_client ex_inbound_env)) (vote_tx 16 ex_btc_event 77)
         (BitcoinRelay (BitcoinRelayMetadata_new ex_btc_event 77))]
    \<and> snd (ib_process_event ex_inbound_env ex_btc_event) = Ok ()"
    by (rule inbound_vote_complete [where pool = 18 and queue = 17 and h = 5 and votes = 1
          and majority = 3 and activated = True])
      (simp_all, simp_all add: ex_inbound_env_def ex_defs)
  then show ?thesis by simp
qed



end
