(* ===== verification/Keypair_Storage.thy ===== *)
theory Keypair_Storage
  imports Example_Setup
begin

text \<open>
  The storage of Bitcoin vault keys (\<open>client/src/btc/storage/keypair\<close>: \<open>mod.rs\<close>, \<open>password.rs\<close>,
  \<open>kms.rs\<close>) and the task that keeps it on the keys of the right round
  (\<open>periodic/src/keypair_migrator.rs\<close>). The key files on disk are a map from the directory of a
  round to its keys; the ciphers, the hexadecimal coder and the elliptic curve are arguments.
\<close>

section \<open>The storage\<close>

record Keystore =
  ks_db :: "u32 option"
  ks_loaded_round :: u32
  ks_disk :: "u32 \<Rightarrow> bytes \<rightharpoonup> string"

definition KeypairStorage_new :: "(u32 \<Rightarrow> bytes \<rightharpoonup> string) \<Rightarrow> Keystore" where
  "KeypairStorage_new disk = \<lparr>ks_db = None, ks_loaded_round = 0, ks_disk = disk\<rparr>"

text \<open>Opening the directory of a round panics when it cannot be read.\<close>

definition load_keystore :: "(u32 \<Rightarrow> bool) \<Rightarrow> u32 \<Rightarrow> u32 res" where
  "load_keystore opens rnd = (if opens rnd then Ok rnd else Panic)"

definition ks_load :: "(u32 \<Rightarrow> bool) \<Rightarrow> u32 \<Rightarrow> Keystore \<Rightarrow> Keystore res" where
  "ks_load opens rnd ks =
     bind_res (load_keystore opens rnd) (\<lambda>db.
       Ok (ks\<lparr>ks_db := Some db, ks_loaded_round := rnd\<rparr>))"

definition ks_open_db :: "Keystore \<Rightarrow> u32 res" where
  "ks_open_db ks = unwrap (ks_db ks)"

definition insert_key :: "(bytes \<Rightarrow> string) \<Rightarrow> bytes \<Rightarrow> bytes \<Rightarrow> Keystore \<Rightarrow> Keystore res" where
  "insert_key hex_encode public_key private_key ks =
     bind_res (ks_open_db ks) (\<lambda>db.
       Ok (ks\<lparr>ks_disk := (ks_disk ks)(db := (ks_disk ks db)(public_key \<mapsto> hex_encode private_key))\<rparr>))"

definition raw_keystore_value :: "bytes \<Rightarrow> Keystore \<Rightarrow> string option res" where
  "raw_keystore_value public_key ks = bind_res (ks_open_db ks) (\<lambda>db. Ok (ks_disk ks db public_key))"

section \<open>The two kinds of encryption\<close>

text \<open>
  \<open>c_seal key nonce\<close> and \<open>c_open key nonce\<close> are AES-256-GCM, \<open>c_kms_encrypt\<close> and
  \<open>c_kms_decrypt\<close> the calls to the key management service, \<open>c_public\<close> the public key of a private
  one (\<open>None\<close> when the bytes are no private key).
\<close>

record Crypto =
  c_keccak256 :: "bytes \<Rightarrow> b256"
  c_seal :: "b256 \<Rightarrow> bytes \<Rightarrow> bytes \<Rightarrow> bytes option"
  c_open :: "b256 \<Rightarrow> bytes \<Rightarrow> bytes \<Rightarrow> bytes option"
  c_kms_encrypt :: "bytes \<Rightarrow> bytes option"
  c_kms_decrypt :: "bytes \<Rightarrow> bytes option"
  c_hex_encode :: "bytes \<Rightarrow> string"
  c_hex_decode :: "string \<Rightarrow> bytes option"
  c_public :: "bytes \<Rightarrow> bytes option"

datatype storage_kind = Password "bytes option" | Kms

definition pw_encrypt_key :: "Crypto \<Rightarrow> bytes option \<Rightarrow> bytes \<Rightarrow> bytes \<Rightarrow> bytes res" where
  "pw_encrypt_key c secret nonce key =
     (case secret of
        Some s \<Rightarrow> bind_res (unwrap (c_seal c (c_keccak256 c s) nonce key)) (\<lambda>ciphertext.
                   Ok (nonce @ ciphertext))
      | None \<Rightarrow> Ok key)"

text \<open>Slicing twelve bytes off a shorter value panics.\<close>

definition pw_decrypt_key :: "Crypto \<Rightarrow> bytes option \<Rightarrow> bytes \<Rightarrow> bytes res" where
  "pw_decrypt_key c secret key =
     (case secret of
        Some s \<Rightarrow>
          if length key < 12 then Panic
          else unwrap (c_open c (c_keccak256 c s) (take 12 key) (drop 12 key))
      | None \<Rightarrow> Ok key)"

definition encrypt_key :: "Crypto \<Rightarrow> storage_kind \<Rightarrow> bytes \<Rightarrow> bytes \<Rightarrow> bytes res" where
  "encrypt_key c kind nonce key =
     (case kind of
        Password secret \<Rightarrow> pw_encrypt_key c secret nonce key
      | Kms \<Rightarrow> unwrap (c_kms_encrypt c key))"

definition decrypt_key :: "Crypto \<Rightarrow> storage_kind \<Rightarrow> bytes \<Rightarrow> bytes res" where
  "decrypt_key c kind key =
     (case kind of
        Password secret \<Rightarrow> pw_decrypt_key c secret key
      | Kms \<Rightarrow> unwrap (c_kms_decrypt c key))"

definition ks_load_v1 :: "(u32 \<Rightarrow> bool) \<Rightarrow> storage_kind \<Rightarrow> u32 \<Rightarrow> Keystore \<Rightarrow> Keystore res" where
  "ks_load_v1 opens kind rnd ks = (case kind of Password _ \<Rightarrow> ks_load opens rnd ks | Kms \<Rightarrow> Panic)"

text \<open>\<open>pair\<close> is the generated (public, private) key and \<open>nonce\<close> the random nonce.\<close>

definition create_new_keypair ::
    "Crypto \<Rightarrow> storage_kind \<Rightarrow> bytes \<times> bytes \<Rightarrow> bytes \<Rightarrow> Keystore \<Rightarrow> (bytes \<times> Keystore) res" where
  "create_new_keypair c kind pair nonce ks =
     bind_res (encrypt_key c kind nonce (snd pair)) (\<lambda>sealed.
     bind_res (insert_key (c_hex_encode c) (fst pair) sealed ks) (\<lambda>ks'.
       Ok (fst pair, ks')))"

text \<open>The private key for a public key, as the PSBT signer asks for it.\<close>

definition get_key :: "Crypto \<Rightarrow> storage_kind \<Rightarrow> bytes \<Rightarrow> Keystore \<Rightarrow> bytes option res" where
  "get_key c kind pk ks =
     bind_res (raw_keystore_value pk ks) (\<lambda>v.
       case v of
         None \<Rightarrow> Ok None
       | Some text \<Rightarrow>
           bind_res (unwrap (c_hex_decode c text)) (\<lambda>decoded.
           bind_res (decrypt_key c kind decoded) (\<lambda>seed.
           bind_res (unwrap (c_public c seed)) (\<lambda>public_key.
             if public_key \<noteq> pk then Panic else Ok (Some seed)))))"

text \<open>What the third-party coders promise, for the values at hand.\<close>

definition crypto_ok :: "Crypto \<Rightarrow> bool" where
  "crypto_ok c \<longleftrightarrow>
     (\<forall>bs. c_hex_decode c (c_hex_encode c bs) = Some bs)
     \<and> (\<forall>k n p ct. c_seal c k n p = Some ct \<longrightarrow> c_open c k n ct = Some p)
     \<and> (\<forall>p ct. c_kms_encrypt c p = Some ct \<longrightarrow> c_kms_decrypt c ct = Some p)"

lemma crypto_okD:
  assumes "crypto_ok c"
  shows "c_hex_decode c (c_hex_encode c bs) = Some bs"
    and "c_seal c k n p = Some ct \<Longrightarrow> c_open c k n ct = Some p"
    and "c_kms_encrypt c p = Some ct \<Longrightarrow> c_kms_decrypt c ct = Some p"
  using assms by (auto simp: crypto_ok_def)

lemma decrypt_encrypt:
  assumes "crypto_ok c" and "length nonce = 12" and "encrypt_key c kind nonce key = Ok sealed"
  shows "decrypt_key c kind sealed = Ok key"
  using assms(2,3) crypto_okD [OF assms(1)]
  by (cases kind)
    (auto simp: encrypt_key_def decrypt_key_def pw_encrypt_key_def pw_decrypt_key_def bind_res_Ok_iff
      split: option.splits)

lemma create_new_keypair_Ok_iff:
  "create_new_keypair c kind pair nonce ks = Ok (pk, ks') \<longleftrightarrow>
     (\<exists>sealed db. encrypt_key c kind nonce (snd pair) = Ok sealed \<and> ks_db ks = Some db
       \<and> pk = fst pair
       \<and> ks' = ks\<lparr>ks_disk := (ks_disk ks)(db := (ks_disk ks db)(fst pair \<mapsto> c_hex_encode c sealed))\<rparr>)"
  by (auto simp: create_new_keypair_def insert_key_def ks_open_db_def bind_res_Ok_iff)

section \<open>Following the migration\<close>

datatype MigrationSequence = Normal | SetExecutiveMembers | PrepareNextSystemVault | UTXOTransfer

record Migrator =
  mg_sequence :: MigrationSequence
  mg_storage :: Keystore

text \<open>
  \<open>initialize\<close> loads the round of the service state it finds; a turn of \<open>run\<close> compares the
  sequence it knows with the state of the service, reloads on three of the transitions, and
  remembers the state. Rounds are 32-bit numbers whose successor wraps.
\<close>

definition mg_initialize ::
    "(u32 \<Rightarrow> bool) \<Rightarrow> MigrationSequence \<Rightarrow> u32 \<Rightarrow> Migrator \<Rightarrow> Migrator res" where
  "mg_initialize opens state rnd mg =
     bind_res (ks_load opens (case state of PrepareNextSystemVault \<Rightarrow> rnd + 1 | _ \<Rightarrow> rnd) (mg_storage mg))
       (\<lambda>ks. Ok (mg\<lparr>mg_storage := ks\<rparr>))"

definition mg_reload :: "MigrationSequence \<Rightarrow> MigrationSequence \<Rightarrow> u32 \<Rightarrow> u32 option" where
  "mg_reload known state rnd =
     (case known of
        Normal \<Rightarrow> if state = PrepareNextSystemVault then Some (rnd + 1) else None
      | SetExecutiveMembers \<Rightarrow> if state = PrepareNextSystemVault then Some (rnd + 1) else None
      | PrepareNextSystemVault \<Rightarrow> if state = UTXOTransfer then Some rnd else None
      | UTXOTransfer \<Rightarrow> if state = Normal then Some rnd else None)"

definition mg_tick ::
    "(u32 \<Rightarrow> bool) \<Rightarrow> MigrationSequence \<Rightarrow> u32 \<Rightarrow> Migrator \<Rightarrow> Migrator res" where
  "mg_tick opens state rnd mg =
     bind_res (case mg_reload (mg_sequence mg) state rnd of
                 Some r \<Rightarrow> ks_load opens r (mg_storage mg)
               | None \<Rightarrow> Ok (mg_storage mg))
       (\<lambda>ks. Ok (mg\<lparr>mg_storage := ks, mg_sequence := state\<rparr>))"

fun mg_ticks ::
    "(u32 \<Rightarrow> bool) \<Rightarrow> (MigrationSequence \<times> u32) list \<Rightarrow> Migrator \<Rightarrow> Migrator res" where
  "mg_ticks opens [] mg = Ok mg"
| "mg_ticks opens ((state, rnd) # rest) mg =
     bind_res (mg_tick opens state rnd mg) (mg_ticks opens rest)"

text \<open>The round whose keys are wanted in a state of the service.\<close>

definition wanted_round :: "MigrationSequence \<Rightarrow> u32 \<Rightarrow> u32" where
  "wanted_round state rnd = (if state = PrepareNextSystemVault then rnd + 1 else rnd)"

text \<open>
  How the service moves between two looks at it: it stays, starts a migration, announces the new
  members, prepares the vault of the next round, transfers the funds, and enters the next round.
\<close>

inductive migration_step :: "MigrationSequence \<times> u32 \<Rightarrow> MigrationSequence \<times> u32 \<Rightarrow> bool" where
  stays: "migration_step (s, r) (s, r)"
| announces: "migration_step (Normal, r) (SetExecutiveMembers, r)"
| prepares: "s \<in> {Normal, SetExecutiveMembers} \<Longrightarrow> migration_step (s, r) (PrepareNextSystemVault, r)"
| transfers: "migration_step (PrepareNextSystemVault, r) (UTXOTransfer, r)"
| completes: "migration_step (UTXOTransfer, r) (Normal, r + 1)"

inductive_cases migration_stepE: "migration_step (s, r) (s', r')"

fun migration_path :: "MigrationSequence \<times> u32 \<Rightarrow> (MigrationSequence \<times> u32) list \<Rightarrow> bool" where
  "migration_path p [] = True"
| "migration_path p (q # qs) = (migration_step p q \<and> migration_path q qs)"

definition mg_in_step :: "MigrationSequence \<times> u32 \<Rightarrow> Migrator \<Rightarrow> bool" where
  "mg_in_step p mg \<longleftrightarrow>
     mg_sequence mg = fst p \<and> ks_loaded_round (mg_storage mg) = wanted_round (fst p) (snd p)
     \<and> ks_db (mg_storage mg) = Some (ks_loaded_round (mg_storage mg))"

lemma ks_load_eq:
  "(\<And>r. opens r) \<Longrightarrow> ks_load opens rnd ks = Ok (ks\<lparr>ks_db := Some rnd, ks_loaded_round := rnd\<rparr>)"
  by (simp add: ks_load_def load_keystore_def)

lemma mg_tick_in_step:
  assumes "\<And>r. opens r" and "migration_step p (state, rnd)" and "mg_in_step p mg"
  shows "\<exists>mg'. mg_tick opens state rnd mg = Ok mg' \<and> mg_in_step (state, rnd) mg'"
  using assms(2)
proof (cases p "(state, rnd)" rule: migration_step.cases)
  case stays
  then show ?thesis
    using assms(3)
    by (cases state) (simp_all add: mg_tick_def mg_reload_def mg_in_step_def wanted_round_def)
next
  case announces
  then show ?thesis
    using assms(3) by (simp add: mg_tick_def mg_reload_def mg_in_step_def wanted_round_def)
next
  case (prepares s)
  then have "mg_reload s PrepareNextSystemVault rnd = Some (rnd + 1)"
    by (cases s) (simp_all add: mg_reload_def)
  with prepares show ?thesis
    using assms(3) by (simp add: mg_tick_def mg_in_step_def wanted_round_def ks_load_eq [of opens, OF assms(1)])
next
  case transfers
  then show ?thesis
    using assms(3) by (simp add: mg_tick_def mg_reload_def mg_in_step_def wanted_round_def
        ks_load_eq [of opens, OF assms(1)])
next
  case (completes r)
  then show ?thesis
    using assms(3) by (simp add: mg_tick_def mg_reload_def mg_in_step_def wanted_round_def
        ks_load_eq [of opens, OF assms(1)])
qed

lemma mg_ticks_in_step:
  assumes "\<And>r. opens r" and "migration_path p obs" and "mg_in_step p mg"
  shows "\<exists>mg'. mg_ticks opens obs mg = Ok mg' \<and> mg_in_step (last (p # obs)) mg'"
  using assms(2,3)
proof (induction obs arbitrary: p mg)
  case (Cons q obs)
  obtain state rnd where q: "q = (state, rnd)" by (cases q)
  have step: "migration_step p (state, rnd)" and path: "migration_path q obs"
    using Cons.prems(1) q by simp_all
  obtain mg1 where tick: "mg_tick opens state rnd mg = Ok mg1" and in_step: "mg_in_step q mg1"
    using mg_tick_in_step [of opens, OF assms(1) step Cons.prems(2)] q by blast
  obtain mg' where "mg_ticks opens obs mg1 = Ok mg'" "mg_in_step (last (q # obs)) mg'"
    using Cons.IH [OF path in_step] by blast
  then show ?case
    using tick q by (intro exI [of _ mg']) simp
qed simp

lemma mg_start_in_step:
  assumes "\<And>r. opens r" and "mg_sequence mg = Normal"
  shows "\<exists>mg1 mg2. mg_initialize opens state rnd mg = Ok mg1 \<and> mg_tick opens state rnd mg1 = Ok mg2
    \<and> mg_in_step (state, rnd) mg2"
  using assms(2)
  by (cases state)
    (simp_all add: mg_initialize_def mg_tick_def mg_reload_def mg_in_step_def wanted_round_def
      ks_load_eq [of opens, OF assms(1)])

section \<open>A concrete cipher\<close>

definition ex_crypto :: Crypto where
  "ex_crypto =
     \<lparr>c_keccak256 = (\<lambda>_. 0), c_seal = (\<lambda>k n p. Some (0 # rev p)),
      c_open = (\<lambda>k n ct. case ct of [] \<Rightarrow> None | _ # p \<Rightarrow> Some (rev p)),
      c_kms_encrypt = (\<lambda>p. Some p), c_kms_decrypt = (\<lambda>p. Some p),
      c_hex_encode = (\<lambda>bs. map (\<lambda>b. char_of (unat b)) bs),
      c_hex_decode = (\<lambda>s. Some (map (\<lambda>c. word_of_nat (of_char c)) s)),
      c_public = (\<lambda>p. Some (3 # p))\<rparr>"

lemma ex_crypto_ok: "crypto_ok ex_crypto"
proof -
  have "word_of_nat (of_char (char_of (unat b) :: char)) = b" for b :: u8
    using unsigned_less [of b, where 'a = nat] by simp
  then show ?thesis
    by (auto simp: crypto_ok_def ex_crypto_def comp_def)
qed

definition ex_keystore :: Keystore where
  "ex_keystore = \<lparr>ks_db = Some 4, ks_loaded_round = 4, ks_disk = (\<lambda>_. Map.empty)\<rparr>"

definition ex_migrator :: Migrator where
  "ex_migrator = \<lparr>mg_sequence = Normal, mg_storage = KeypairStorage_new (\<lambda>_. Map.empty)\<rparr>"

section \<open>Properties\<close>

text \<open>
  C37: A vault key that was created can be used. Whatever the kind of encryption, when creating a
  key pair succeeds, the storage finds the private key under the public key it returned, also
  after other rounds were loaded and the round was loaded again; the other keys are as before.
\<close>

theorem keypair_roundtrip:
  assumes "crypto_ok c" and "length nonce = 12" and "c_public c (snd pair) = Some (fst pair)"
    and "create_new_keypair c kind pair nonce ks = Ok (pk, ks')"
  shows "get_key c kind pk ks' = Ok (Some (snd pair))
    \<and> (pk' \<noteq> pk \<longrightarrow> get_key c kind pk' ks' = get_key c kind pk' ks)
    \<and> (ks_db ks = Some db \<longrightarrow> ks_load opens other ks' = Ok ks2 \<longrightarrow> ks_load opens db ks2 = Ok ks3 \<longrightarrow>
         get_key c kind pk ks3 = Ok (Some (snd pair)))"
proof -
  obtain sealed d where sealed: "encrypt_key c kind nonce (snd pair) = Ok sealed"
    and d: "ks_db ks = Some d" and pk: "pk = fst pair"
    and ks': "ks' = ks\<lparr>ks_disk := (ks_disk ks)(d := (ks_disk ks d)(fst pair \<mapsto> c_hex_encode c sealed))\<rparr>"
    using assms(4) by (auto simp: create_new_keypair_Ok_iff)
  have found: "get_key c kind pk s = Ok (Some (snd pair))"
    if "ks_db s = Some d" and "ks_disk s d pk = Some (c_hex_encode c sealed)" for s
    using that decrypt_encrypt [OF assms(1,2) sealed] crypto_okD(1) [OF assms(1)] assms(3) pk
    by (simp add: get_key_def raw_keystore_value_def ks_open_db_def)
  have "get_key c kind pk ks' = Ok (Some (snd pair))"
    by (rule found) (simp_all add: ks' d pk)
  moreover have "get_key c kind pk' ks' = get_key c kind pk' ks" if "pk' \<noteq> pk"
    using that by (simp add: get_key_def raw_keystore_value_def ks_open_db_def ks' d pk)
  moreover have "get_key c kind pk ks3 = Ok (Some (snd pair))"
    if "ks_db ks = Some db" "ks_load opens other ks' = Ok ks2" "ks_load opens db ks2 = Ok ks3"
    by (rule found)
      (use that d in \<open>auto simp: ks_load_def load_keystore_def ks' pk split: if_splits\<close>)
  ultimately show ?thesis by blast
qed

theorem keypair_roundtrip_witness:
  "\<exists>ks'. create_new_keypair ex_crypto (Password (Some [1])) ([3, 8, 9], [8, 9]) (replicate 12 0) ex_keystore
      = Ok ([3, 8, 9], ks')
    \<and> get_key ex_crypto (Password (Some [1])) [3, 8, 9] ks' = Ok (Some [8, 9])"
proof -
  obtain ks' where ks': "create_new_keypair ex_crypto (Password (Some [1])) ([3, 8, 9], [8, 9])
      (replicate 12 0) ex_keystore = Ok ([3, 8, 9], ks')"
    by (simp add: create_new_keypair_Ok_iff encrypt_key_def pw_encrypt_key_def ex_crypto_def ex_keystore_def)
  have "c_public ex_crypto (snd ([3, 8, 9], [8, 9])) = Some (fst ([3, 8, 9], [8, 9]))"
    by (simp add: ex_crypto_def)
  from keypair_roundtrip [OF ex_crypto_ok _ this ks'] ks' show ?thesis
    by simp
qed



text \<open>
  A step that falls between two turns is lost: when the service is next seen in the migration
  after the one in progress, the storage stays on the round that has ended.
\<close>

lemma migrator_misses_round:
  assumes "mg_in_step (UTXOTransfer, rnd) mg"
  shows "\<exists>mg'. mg_tick opens SetExecutiveMembers (rnd + 1) mg = Ok mg'
    \<and> ks_loaded_round (mg_storage mg') = rnd
    \<and> ks_loaded_round (mg_storage mg') \<noteq> wanted_round SetExecutiveMembers (rnd + 1)"
  using assms by (simp add: mg_tick_def mg_reload_def mg_in_step_def wanted_round_def)

text \<open>A key asked for before the first round is loaded panics.\<close>

lemma create_before_load:
  "encrypt_key c kind nonce (snd pair) = Ok sealed \<Longrightarrow>
     create_new_keypair c kind pair nonce (KeypairStorage_new disk) = Panic"
  by (simp add: create_new_keypair_def insert_key_def ks_open_db_def KeypairStorage_new_def)

end
