(* ===== verification/Psbt_Workers.thy ===== *)
theory Psbt_Workers
  imports Btc_Block_Manager Keypair_Storage
begin

text \<open>
  The periodic workers around partially signed Bitcoin transactions: \<open>periodic/src/psbt_signer.rs\<close>
  (signs what the vaults are to pay), \<open>psbt_broadcaster.rs\<close> (hands finalised transactions to the
  Bitcoin network) and \<open>bitcoin_rollback_verifier.rs\<close> (checks refund requests against the
  Bitcoin chain). Each is modelled by one turn of its loop.
\<close>

section \<open>Transactions\<close>

text \<open>
  What the workers look at: the scripts the unsigned transaction pays to, its id, and the inputs
  with their partial signatures. Parsing, printing and the extraction of a final transaction are
  third-party code.
\<close>

record Psbt =
  psbt_output_scripts :: "bytes list"
  psbt_txid :: txid
  psbt_inputs :: "bytes list"

text \<open>\<open>B256::from_str(&txid.to_string())\<close>: an id is printed in reverse byte order.\<close>

definition displayed_txid :: "txid \<Rightarrow> txid" where
  "displayed_txid t = rev t"

section \<open>The signer\<close>

record SignerEnv =
  s_client :: EthClient
  s_current_round :: "u32 res"
  s_relay_executives :: "u32 \<Rightarrow> address list res"
  s_unsigned_psbts :: "bytes list res"
  s_deserialize :: "bytes \<Rightarrow> Psbt option"
  s_serialize :: "Psbt \<Rightarrow> bytes"
  s_sequence :: MigrationSequence
  s_vault_address :: "address \<Rightarrow> u32 \<Rightarrow> string res"
  s_parse_address :: "string \<Rightarrow> btc_address option"
  s_script_address :: "bytes \<Rightarrow> btc_address option"
  s_crypto :: Crypto
  s_kind :: storage_kind
  s_storage :: Keystore
  s_psbt_sign :: "(bytes \<Rightarrow> bytes option res) \<Rightarrow> Psbt \<Rightarrow> Psbt res"
  s_is_submitted :: "txid \<Rightarrow> bytes \<Rightarrow> address \<Rightarrow> bool res"
  s_keccak256 :: "bytes \<Rightarrow> b256"
  s_sign :: "address \<Rightarrow> bytes \<Rightarrow> Signature res"
  s_xt_open :: bool

definition s_pool :: "SignerEnv \<Rightarrow> address res" where
  "s_pool env = unwrap (registration_pool (protocol_contracts (s_client env)))"

definition is_relay_executive :: "SignerEnv \<Rightarrow> bool res" where
  "is_relay_executive env =
     bind_res (s_pool env) (\<lambda>_.
     bind_res (s_current_round env) (\<lambda>rnd.
     bind_res (s_relay_executives env rnd) (\<lambda>executives.
       Ok (default_address (s_client env) \<in> set executives))))"

definition get_system_vault :: "SignerEnv \<Rightarrow> u32 \<Rightarrow> btc_address res" where
  "get_system_vault env rnd =
     bind_res (s_pool env) (\<lambda>pool.
     bind_res (s_vault_address env pool rnd) (\<lambda>text.
       ok_or (s_parse_address env text) DecodeError))"

text \<open>
  The sequence's say on a transaction. In \<open>UTXOTransfer\<close> every output has to pay the system vault
  of the next round; an output whose script is no address panics, unless an earlier one already
  decided.
\<close>

fun outputs_pay :: "(bytes \<Rightarrow> btc_address option) \<Rightarrow> btc_address \<Rightarrow> bytes list \<Rightarrow> bool res" where
  "outputs_pay addr vault_addr [] = Ok True"
| "outputs_pay addr vault_addr (script # scripts) =
     bind_res (unwrap (addr script)) (\<lambda>a.
       if a = vault_addr then outputs_pay addr vault_addr scripts else Ok False)"

definition sequence_allows :: "SignerEnv \<Rightarrow> Psbt \<Rightarrow> bool res" where
  "sequence_allows env p =
     (case s_sequence env of
        Normal \<Rightarrow> Ok True
      | SetExecutiveMembers \<Rightarrow> Ok False
      | PrepareNextSystemVault \<Rightarrow> Ok False
      | UTXOTransfer \<Rightarrow>
          bind_res (s_current_round env) (\<lambda>rnd.
          bind_res (get_system_vault env (rnd + 1)) (\<lambda>vault_addr.
            outputs_pay (s_script_address env) vault_addr (psbt_output_scripts p))))"

text \<open>Signing succeeds when it changed the inputs; the library asks for keys one by one.\<close>

definition sign_psbt :: "SignerEnv \<Rightarrow> Psbt \<Rightarrow> (bool \<times> Psbt) res" where
  "sign_psbt env p =
     bind_res (s_psbt_sign env (\<lambda>pk. get_key (s_crypto env) (s_kind env) pk (s_storage env)) p) (\<lambda>p'.
       Ok (psbt_inputs p' \<noteq> psbt_inputs p, p'))"

definition ps_build_unsigned_tx ::
    "SignerEnv \<Rightarrow> Psbt \<Rightarrow> (XtRequest \<times> XtRequestMetadata) option res" where
  "ps_build_unsigned_tx env p =
     bind_res (sequence_allows env p) (\<lambda>allowed.
       if \<not> allowed then Ok None
       else
         bind_res (sign_psbt env p) (\<lambda>(signed, p').
           if \<not> signed then Ok None
           else
             bind_res (s_is_submitted env (displayed_txid (psbt_txid p')) (s_serialize env p')
                         (default_address (s_client env))) (\<lambda>submitted.
               if submitted then Ok None
               else
                 bind_res (sign_message (s_sign env) (s_client env)
                   (to_be_bytes 32 (s_keccak256 env (ascii ''SignedPsbt'')) @ s_serialize env p')) (\<lambda>sig.
                   Ok (Some (SubmitSignedPsbt (default_address (s_client env)) (s_serialize env p)
                               (s_serialize env p') sig,
                             XtSubmitSignedPsbt (s_keccak256 env (s_serialize env p))))))))"

definition sign_one :: "SignerEnv \<Rightarrow> bytes \<Rightarrow> (effect, unit) eff" where
  "sign_one env raw =
     bind_eff (lift (unwrap (s_deserialize env raw))) (\<lambda>p.
     bind_eff (lift (ps_build_unsigned_tx env p)) (\<lambda>built.
       case built of
         Some (call, meta) \<Rightarrow> send_xt (s_xt_open env) call meta
       | None \<Rightarrow> ret ()))"

definition psbt_signer_tick :: "SignerEnv \<Rightarrow> (effect, unit) eff" where
  "psbt_signer_tick env =
     bind_eff (lift (is_relay_executive env)) (\<lambda>executive.
       if \<not> executive then ret ()
       else
         bind_eff (lift (bind_res (unwrap (socket_queue (protocol_contracts (s_client env))))
             (\<lambda>_. s_unsigned_psbts env))) (\<lambda>raws.
           for_each (sign_one env) raws))"

section \<open>The broadcaster\<close>

text \<open>
  \<open>bc_known t\<close>: the node answers a query for the transaction. \<open>bc_mempool t\<close>: the answer of the
  acceptance test, a list of verdicts, \<open>None\<close> a failed call. \<open>bc_extract\<close>: whether the final
  transaction can be extracted (its fee rate is not absurd).
\<close>

record BroadcasterEnv =
  bc_client :: EthClient
  bc_selected :: "address \<Rightarrow> bool res"
  bc_blaze_activated :: "bool res"
  bc_finalized_psbts :: "bytes list res"
  bc_deserialize :: "bytes \<Rightarrow> Psbt option"
  bc_extract :: "Psbt \<Rightarrow> bool"
  bc_known :: "txid \<Rightarrow> bool"
  bc_mempool :: "txid \<Rightarrow> bool list option"
  bc_keccak256 :: "bytes \<Rightarrow> b256"
  bc_sign :: "address \<Rightarrow> bytes \<Rightarrow> Signature res"
  bc_xt_open :: bool

definition broadcast_transaction :: "BroadcasterEnv \<Rightarrow> Psbt \<Rightarrow> (effect, unit) eff" where
  "broadcast_transaction env p =
     (if \<not> bc_extract env p then lift Panic
      else case bc_mempool env (psbt_txid p) of
             Some (allowed # _) \<Rightarrow> if allowed then emit (SendRawTransaction (psbt_txid p)) else ret ()
           | _ \<Rightarrow> ret ())"

definition executed_request :: "BroadcasterEnv \<Rightarrow> txid \<Rightarrow> (XtRequest \<times> XtRequestMetadata) res" where
  "executed_request env t =
     (let r = rev t
      in bind_res (sign_message (bc_sign env) (bc_client env)
                     (to_be_bytes 32 (bc_keccak256 env (ascii ''ExecutedPsbt'')) @ r)) (\<lambda>sig.
           Ok (SubmitExecutedRequest (default_address (bc_client env)) r sig, XtSubmitExecutedRequest r)))"

definition broadcast_one :: "BroadcasterEnv \<Rightarrow> bytes \<Rightarrow> (effect, unit) eff" where
  "broadcast_one env raw =
     bind_eff (lift (ok_or (bc_deserialize env raw) DecodeError)) (\<lambda>p.
     bind_eff (if bc_known env (psbt_txid p) then ret () else broadcast_transaction env p) (\<lambda>_.
     bind_eff (lift (executed_request env (psbt_txid p))) (\<lambda>(call, meta).
       send_xt (bc_xt_open env) call meta)))"

definition psbt_broadcaster_tick :: "BroadcasterEnv \<Rightarrow> (effect, unit) eff" where
  "psbt_broadcaster_tick env =
     bind_eff (lift (client_is_selected_relayer (bc_selected env) (bc_client env))) (\<lambda>selected.
       if \<not> selected then ret ()
       else
         bind_eff (lift (blaze_activation (bc_blaze_activated env) (bc_client env))) (\<lambda>activated.
           if \<not> activated then ret ()
           else
             bind_eff (lift (bind_res (unwrap (socket_queue (protocol_contracts (bc_client env))))
                 (\<lambda>_. bc_finalized_psbts env))) (\<lambda>raws.
               for_each (broadcast_one env) raws)))"

section \<open>The rollback verifier\<close>

record RawTxInfo =
  raw_confirmations :: "u32 option"
  raw_vout :: "Vout list"

record RollbackRequest =
  rr_unsigned_psbt :: bytes
  rr_who :: address
  rr_txid :: txid
  rr_vout :: nat
  rr_to :: btc_address
  rr_amount :: u64
  rr_votes :: "address \<rightharpoonup> bool"
  rr_is_approved :: bool

text \<open>
  The contract's tuple, and its conversion: the voters and their votes are paired by position,
  indexing past the votes panics, as do numbers that do not fit 64 bits and a bad address.
\<close>

record RollbackReturn =
  ret_unsigned_psbt :: bytes
  ret_who :: address
  ret_txid :: txid
  ret_vout :: u256
  ret_to :: string
  ret_amount :: u256
  ret_voters :: "address list"
  ret_votes :: "bool list"
  ret_approved :: bool

definition parse_u64 :: "u256 \<Rightarrow> u64 res" where
  "parse_u64 w = (if unat w < 2 ^ 64 then Ok (ucast w) else Panic)"

definition RollbackRequest_from ::
    "(string \<Rightarrow> btc_address option) \<Rightarrow> RollbackReturn \<Rightarrow> RollbackRequest res" where
  "RollbackRequest_from parse v =
     bind_res (traverse_res (\<lambda>i. bind_res (vec_index (ret_votes v) i)
                 (\<lambda>b. Ok (ret_voters v ! i, b))) [0..<length (ret_voters v)]) (\<lambda>pairs.
     bind_res (parse_u64 (ret_vout v)) (\<lambda>n.
     bind_res (unwrap (parse (ret_to v))) (\<lambda>a.
     bind_res (parse_u64 (ret_amount v)) (\<lambda>sat.
       Ok \<lparr>rr_unsigned_psbt = ret_unsigned_psbt v, rr_who = ret_who v, rr_txid = rev (ret_txid v),
           rr_vout = unat n, rr_to = a, rr_amount = sat,
           rr_votes = fold (\<lambda>(k, b) m. m(k \<mapsto> b)) pairs Map.empty,
           rr_is_approved = ret_approved v\<rparr>))))"

definition is_rollback_valid :: "RawTxInfo \<Rightarrow> RollbackRequest \<Rightarrow> bool res" where
  "is_rollback_valid tx request =
     (if (case raw_confirmations tx of Some c \<Rightarrow> c < 6 | None \<Rightarrow> False) then Ok False
      else if length (raw_vout tx) < rr_vout request then Ok False
      else
        bind_res (vec_index (raw_vout tx) (rr_vout request)) (\<lambda>out.
          case vout_address out of
            Some a \<Rightarrow>
              if a \<noteq> rr_to request then Ok False
              else if vout_value out \<noteq> rr_amount request then Ok False
              else Ok True
          | None \<Rightarrow> Ok False))"

record VerifierEnv =
  v_client :: EthClient
  v_selected :: "address \<Rightarrow> bool res"
  v_rollback_psbts :: "bytes list res"
  v_deserialize :: "bytes \<Rightarrow> Psbt option"
  v_rollback_request :: "txid \<Rightarrow> RollbackReturn res"
  v_parse_address :: "string \<Rightarrow> btc_address option"
  v_raw_transaction :: "txid \<Rightarrow> RawTxInfo option"
  v_keccak256 :: "bytes \<Rightarrow> b256"
  v_sign :: "address \<Rightarrow> bytes \<Rightarrow> Signature res"
  v_xt_open :: bool

definition get_rollback_request :: "VerifierEnv \<Rightarrow> txid \<Rightarrow> RollbackRequest res" where
  "get_rollback_request env t =
     bind_res (unwrap (socket_queue (protocol_contracts (v_client env)))) (\<lambda>_.
     bind_res (v_rollback_request env t) (RollbackRequest_from (v_parse_address env)))"

definition rollback_poll :: "VerifierEnv \<Rightarrow> txid \<Rightarrow> bool \<Rightarrow> (XtRequest \<times> XtRequestMetadata) res" where
  "rollback_poll env t approved =
     bind_res (sign_message (v_sign env) (v_client env)
        (to_be_bytes 32 (v_keccak256 env (ascii ''RollbackPoll'')) @ t @ [of_bool approved])) (\<lambda>sig.
       Ok (SubmitRollbackPoll (default_address (v_client env)) t approved sig,
           XtSubmitRollbackPoll t approved))"

definition rollback_verdict :: "VerifierEnv \<Rightarrow> RollbackRequest \<Rightarrow> bool res" where
  "rollback_verdict env request =
     (case v_raw_transaction env (rr_txid request) of
        Some tx \<Rightarrow> is_rollback_valid tx request
      | None \<Rightarrow> Ok False)"

definition verify_one :: "VerifierEnv \<Rightarrow> bytes \<Rightarrow> (effect, unit) eff" where
  "verify_one env raw =
     bind_eff (lift (ok_or (v_deserialize env raw) DecodeError)) (\<lambda>p.
       let t = displayed_txid (psbt_txid p)
       in bind_eff (lift (get_rollback_request env t)) (\<lambda>request.
            if rr_who request = 0 then ret ()
            else if rr_is_approved request then ret ()
            else
              bind_eff (lift (rollback_verdict env request)) (\<lambda>approved.
                if rr_votes request (default_address (v_client env)) = Some approved then ret ()
                else
                  bind_eff (lift (rollback_poll env t approved)) (\<lambda>(call, meta).
                    send_xt (v_xt_open env) call meta))))"

definition rollback_verifier_tick :: "VerifierEnv \<Rightarrow> (effect, unit) eff" where
  "rollback_verifier_tick env =
     bind_eff (lift (client_is_selected_relayer (v_selected env) (v_client env))) (\<lambda>selected.
       if \<not> selected then ret ()
       else
         bind_eff (lift (bind_res (unwrap (socket_queue (protocol_contracts (v_client env))))
             (\<lambda>_. v_rollback_psbts env))) (\<lambda>raws.
           for_each (verify_one env) raws))"

section \<open>Who may sign what\<close>

lemma outputs_pay_True_iff:
  "outputs_pay addr vault_addr scripts = Ok True \<longleftrightarrow> (\<forall>s \<in> set scripts. addr s = Some vault_addr)"
  by (induction scripts) (auto simp: bind_res_Ok_iff)

lemma ps_build_unsigned_tx_Some:
  assumes "ps_build_unsigned_tx env p = Ok (Some (call, meta))"
  obtains p' sig where "sequence_allows env p = Ok True"
    and "s_psbt_sign env (\<lambda>pk. get_key (s_crypto env) (s_kind env) pk (s_storage env)) p = Ok p'"
    and "psbt_inputs p' \<noteq> psbt_inputs p"
    and "s_is_submitted env (displayed_txid (psbt_txid p')) (s_serialize env p')
          (default_address (s_client env)) = Ok False"
    and "call = SubmitSignedPsbt (default_address (s_client env)) (s_serialize env p) (s_serialize env p') sig"
    and "meta = XtSubmitSignedPsbt (s_keccak256 env (s_serialize env p))"
  using assms
  by (auto simp: ps_build_unsigned_tx_def sign_psbt_def bind_res_Ok_iff split: if_splits)

lemma psbt_signer_tick_mem:
  assumes "f \<in> set (fst (psbt_signer_tick env))"
  obtains raws raw p call meta where "is_relay_executive env = Ok True"
    and "s_unsigned_psbts env = Ok raws" and "raw \<in> set raws" and "s_deserialize env raw = Some p"
    and "ps_build_unsigned_tx env p = Ok (Some (call, meta))" and "f = SendXt (XtRequestMessage_new call meta)"
proof -
  obtain raws where ex: "is_relay_executive env = Ok True" and raws: "s_unsigned_psbts env = Ok raws"
    and mem: "f \<in> set (fst (for_each (sign_one env) raws))"
    using assms by (auto simp: psbt_signer_tick_def fst_bind_eff_mem bind_res_Ok_iff split: if_splits)
  obtain raw where "raw \<in> set raws" and "f \<in> set (fst (sign_one env raw))"
    using for_each_mem [OF mem] by blast
  then show thesis
    using that [OF ex raws] by (auto simp: sign_one_def fst_bind_eff_mem split: option.splits)
qed

section \<open>What the broadcaster does with a transaction\<close>

lemma broadcast_one_Ok:
  assumes "bc_deserialize env raw = Some p" and "bc_extract env p \<or> bc_known env (psbt_txid p)"
    and "sign_message (bc_sign env) (bc_client env)
      (to_be_bytes 32 (bc_keccak256 env (ascii ''ExecutedPsbt'')) @ rev (psbt_txid p)) = Ok sig"
    and "bc_xt_open env"
  shows "broadcast_one env raw =
    ((if \<not> bc_known env (psbt_txid p) \<and> (\<exists>vs. bc_mempool env (psbt_txid p) = Some (True # vs))
      then [SendRawTransaction (psbt_txid p)] else [])
     @ [SendXt (XtRequestMessage_new
          (SubmitExecutedRequest (default_address (bc_client env)) (rev (psbt_txid p)) sig)
          (XtSubmitExecutedRequest (rev (psbt_txid p))))], Ok ())"
proof -
  have "broadcast_transaction env p =
      (if \<exists>vs. bc_mempool env (psbt_txid p) = Some (True # vs) then [SendRawTransaction (psbt_txid p)] else [],
       Ok ())" if "bc_extract env p"
    using that
    by (auto simp: broadcast_transaction_def emit_def ret_def split: option.splits list.splits)
  then show ?thesis
    using assms
    by (auto simp: broadcast_one_def ok_or_def executed_request_def Let_def send_xt_def emit_def)
qed

section \<open>What the verifier accepts\<close>

lemma is_rollback_valid_True_iff:
  "is_rollback_valid tx request = Ok True \<longleftrightarrow>
     (case raw_confirmations tx of Some c \<Rightarrow> 6 \<le> c | None \<Rightarrow> True)
     \<and> rr_vout request < length (raw_vout tx)
     \<and> vout_address (raw_vout tx ! rr_vout request) = Some (rr_to request)
     \<and> vout_value (raw_vout tx ! rr_vout request) = rr_amount request"
  by (auto simp: is_rollback_valid_def bind_res_Ok_iff not_less not_le split: option.splits if_splits)

lemma verify_one_mem:
  assumes "f \<in> set (fst (verify_one env raw))"
  obtains p request approved call meta where "v_deserialize env raw = Some p"
    and "get_rollback_request env (rev (psbt_txid p)) = Ok request"
    and "rr_who request \<noteq> 0" and "\<not> rr_is_approved request"
    and "rollback_verdict env request = Ok approved"
    and "rr_votes request (default_address (v_client env)) \<noteq> Some approved"
    and "rollback_poll env (rev (psbt_txid p)) approved = Ok (call, meta)"
    and "f = SendXt (XtRequestMessage_new call meta)"
  using assms
  by (auto simp: verify_one_def fst_bind_eff_mem Let_def displayed_txid_def split: if_splits)

lemma rollback_poll_call:
  "rollback_poll env t approved = Ok (call, meta) \<Longrightarrow>
     \<exists>sig. call = SubmitRollbackPoll (default_address (v_client env)) t approved sig"
  by (auto simp: rollback_poll_def bind_res_Ok_iff)

lemma XtRequestMessage_new_inject [simp]:
  "XtRequestMessage_new c m = XtRequestMessage_new c' m' \<longleftrightarrow> c = c' \<and> m = m'"
  by (auto simp: XtRequestMessage_new_def)

section \<open>Concrete environments\<close>

definition ex_psbt :: Psbt where
  "ex_psbt = \<lparr>psbt_output_scripts = [[1]], psbt_txid = [1, 2], psbt_inputs = [[]]\<rparr>"

definition ex_signer_env :: "MigrationSequence \<Rightarrow> SignerEnv" where
  "ex_signer_env sq =
     \<lparr>s_client = ex_client 3068 True, s_current_round = Ok 4, s_relay_executives = (\<lambda>_. Ok [7]),
      s_unsigned_psbts = Ok [[9]], s_deserialize = (\<lambda>_. Some ex_psbt),
      s_serialize = (\<lambda>p. concat (psbt_inputs p)), s_sequence = sq,
      s_vault_address = (\<lambda>_ _. Ok ''v''), s_parse_address = (\<lambda>_. Some (BtcAddress [1])),
      s_script_address = (\<lambda>s. Some (BtcAddress s)), s_crypto = ex_crypto, s_kind = Kms,
      s_storage = ex_keystore, s_psbt_sign = (\<lambda>_ p. Ok (p\<lparr>psbt_inputs := [[5]]\<rparr>)),
      s_is_submitted = (\<lambda>_ _ _. Ok False), s_keccak256 = (\<lambda>bs. of_nat (length bs)),
      s_sign = (\<lambda>_ _. Ok ex_signature), s_xt_open = True\<rparr>"

definition ex_rollback_return :: "u256 \<Rightarrow> RollbackReturn" where
  "ex_rollback_return n =
     \<lparr>ret_unsigned_psbt = [], ret_who = 77, ret_txid = [3, 4], ret_vout = n, ret_to = ''bc1'',
      ret_amount = 50000, ret_voters = [5], ret_votes = [True], ret_approved = False\<rparr>"

definition ex_verifier_env :: "u256 \<Rightarrow> u32 option \<Rightarrow> VerifierEnv" where
  "ex_verifier_env n conf =
     \<lparr>v_client = ex_client 3068 True, v_selected = (\<lambda>_. Ok True), v_rollback_psbts = Ok [[9]],
      v_deserialize = (\<lambda>_. Some ex_psbt), v_rollback_request = (\<lambda>_. Ok (ex_rollback_return n)),
      v_parse_address = (\<lambda>_. Some (BtcAddress [1])),
      v_raw_transaction = (\<lambda>_. Some \<lparr>raw_confirmations = conf,
         raw_vout = [\<lparr>vout_n = 0, vout_address = Some (BtcAddress [1]), vout_value = 50000\<rparr>]\<rparr>),
      v_keccak256 = (\<lambda>bs. of_nat (length bs)), v_sign = (\<lambda>_ _. Ok ex_signature), v_xt_open = True\<rparr>"

lemma ex_verifier_tick:
  "rollback_verifier_tick (ex_verifier_env 0 conf) =
     for_each (verify_one (ex_verifier_env 0 conf)) [[9]]"
  by (simp add: rollback_verifier_tick_def ex_verifier_env_def client_is_selected_relayer_def ex_defs)

lemma ex_rollback_request:
  "get_rollback_request (ex_verifier_env 0 conf) t = Ok
     \<lparr>rr_unsigned_psbt = [], rr_who = 77, rr_txid = [4, 3], rr_vout = 0, rr_to = BtcAddress [1],
      rr_amount = 50000, rr_votes = [5 \<mapsto> True], rr_is_approved = False\<rparr>"
  by (simp add: get_rollback_request_def ex_verifier_env_def ex_defs RollbackRequest_from_def
      ex_rollback_return_def parse_u64_def vec_index_def)

lemma ex_verify_one:
  assumes "case conf of Some c \<Rightarrow> 6 \<le> c | None \<Rightarrow> True"
  shows "verify_one (ex_verifier_env 0 conf) [9] =
    ([SendXt (XtRequestMessage_new (SubmitRollbackPoll 7 [2, 1] True ex_signature)
       (XtSubmitRollbackPoll [2, 1] True))], Ok ())"
proof -
  have "rollback_verdict (ex_verifier_env 0 conf)
     \<lparr>rr_unsigned_psbt = [], rr_who = 77, rr_txid = [4, 3], rr_vout = 0, rr_to = BtcAddress [1],
      rr_amount = 50000, rr_votes = [5 \<mapsto> True], rr_is_approved = False\<rparr> = Ok True"
    using assms by (simp add: rollback_verdict_def ex_verifier_env_def is_rollback_valid_True_iff)
  then show ?thesis
    by (simp add: verify_one_def ex_rollback_request Let_def displayed_txid_def)
      (simp add: ex_verifier_env_def ex_psbt_def ok_or_def rollback_poll_def ex_defs sign_message_def
        send_xt_def emit_def ret_def)
qed

definition ex_broadcaster_env :: BroadcasterEnv where
  "ex_broadcaster_env =
     \<lparr>bc_client = ex_client 3068 True, bc_selected = (\<lambda>_. Ok True), bc_blaze_activated = Ok True,
      bc_finalized_psbts = Ok [[9]], bc_deserialize = (\<lambda>_. Some ex_psbt), bc_extract = (\<lambda>_. True),
      bc_known = (\<lambda>_. False), bc_mempool = (\<lambda>_. Some [False]), bc_keccak256 = (\<lambda>_. 0),
      bc_sign = (\<lambda>_ _. Ok ex_signature), bc_xt_open = True\<rparr>"

section \<open>Properties\<close>

text \<open>
  C14: Vault funds are signed for only as the migration allows. Every extrinsic the signer submits
  is a signed transaction from the unsigned ones the queue listed, submitted by an executive of
  the current round, changed by keys of this relayer, and not submitted by it before; the service
  is in normal operation, or it is transferring the funds and every output of the transaction
  pays the system vault of the next round. Nothing is signed while the executives change or the
  next vault is prepared.
\<close>

theorem psbt_signing_authorised:
  assumes "SendXt msg \<in> set (fst (psbt_signer_tick env))"
  shows "\<exists>raws raw p p' sig rnd executives.
      s_unsigned_psbts env = Ok raws \<and> raw \<in> set raws \<and> s_deserialize env raw = Some p
      \<and> s_current_round env = Ok rnd \<and> s_relay_executives env rnd = Ok executives
      \<and> default_address (s_client env) \<in> set executives
      \<and> xt_call msg = SubmitSignedPsbt (default_address (s_client env)) (s_serialize env p) (s_serialize env p') sig
      \<and> s_psbt_sign env (\<lambda>pk. get_key (s_crypto env) (s_kind env) pk (s_storage env)) p = Ok p'
      \<and> psbt_inputs p' \<noteq> psbt_inputs p
      \<and> s_is_submitted env (rev (psbt_txid p')) (s_serialize env p') (default_address (s_client env)) = Ok False
      \<and> (s_sequence env = Normal
         \<or> s_sequence env = UTXOTransfer
           \<and> (\<exists>vault_addr. get_system_vault env (rnd + 1) = Ok vault_addr
                \<and> (\<forall>s \<in> set (psbt_output_scripts p). s_script_address env s = Some vault_addr)))"
proof -
  obtain raws raw p call meta where ex: "is_relay_executive env = Ok True"
    and raw: "s_unsigned_psbts env = Ok raws" "raw \<in> set raws" "s_deserialize env raw = Some p"
    and built: "ps_build_unsigned_tx env p = Ok (Some (call, meta))"
    and msg: "SendXt msg = SendXt (XtRequestMessage_new call meta)"
    by (rule psbt_signer_tick_mem [OF assms])
  obtain rnd executives where exec: "s_current_round env = Ok rnd" "s_relay_executives env rnd = Ok executives"
    "default_address (s_client env) \<in> set executives"
    using ex by (auto simp: is_relay_executive_def bind_res_Ok_iff)
  obtain p' sig where signed: "sequence_allows env p = Ok True"
    "s_psbt_sign env (\<lambda>pk. get_key (s_crypto env) (s_kind env) pk (s_storage env)) p = Ok p'"
    "psbt_inputs p' \<noteq> psbt_inputs p"
    "s_is_submitted env (displayed_txid (psbt_txid p')) (s_serialize env p') (default_address (s_client env)) = Ok False"
    "call = SubmitSignedPsbt (default_address (s_client env)) (s_serialize env p) (s_serialize env p') sig"
    "meta = XtSubmitSignedPsbt (s_keccak256 env (s_serialize env p))"
    by (rule ps_build_unsigned_tx_Some [OF built])
  have "s_sequence env = Normal \<or> s_sequence env = UTXOTransfer
      \<and> (\<exists>vault_addr. get_system_vault env (rnd + 1) = Ok vault_addr
           \<and> (\<forall>s \<in> set (psbt_output_scripts p). s_script_address env s = Some vault_addr))"
    using signed(1) exec(1)
    by (auto simp: sequence_allows_def bind_res_Ok_iff outputs_pay_True_iff split: MigrationSequence.splits)
  moreover have "xt_call msg = call"
    using msg by (simp add: XtRequestMessage_new_def)
  ultimately show ?thesis
    using raw exec signed(2-5) unfolding displayed_txid_def
    by (intro exI [of _ raws] exI [of _ raw] exI [of _ p] exI [of _ p'] exI [of _ sig] exI [of _ rnd]
        exI [of _ executives] conjI) simp_all
qed

theorem psbt_signing_authorised_witness:
  "\<exists>raws raw. s_unsigned_psbts (ex_signer_env UTXOTransfer) = Ok raws \<and> raw \<in> set raws
     \<and> SendXt (XtRequestMessage_new (SubmitSignedPsbt 7 [] [5] ex_signature) (XtSubmitSignedPsbt 0))
         \<in> set (fst (psbt_signer_tick (ex_signer_env UTXOTransfer)))"
proof -
  let ?env = "ex_signer_env UTXOTransfer"
  have [simp]: "s_unsigned_psbts ?env = Ok [[9]]" "s_deserialize ?env raw = Some ex_psbt" "s_xt_open ?env"
    "socket_queue (protocol_contracts (s_client ?env)) = Some 17" for raw
    by (simp_all add: ex_signer_env_def ex_defs)
  have allowed: "sequence_allows ?env ex_psbt = Ok True"
    by (simp add: sequence_allows_def get_system_vault_def s_pool_def ex_signer_env_def ex_psbt_def ex_defs ok_or_def)
  have "is_relay_executive ?env = Ok True"
    by (simp add: is_relay_executive_def s_pool_def ex_signer_env_def ex_defs)
  moreover have "ps_build_unsigned_tx ?env ex_psbt =
      Ok (Some (SubmitSignedPsbt 7 [] [5] ex_signature, XtSubmitSignedPsbt 0))"
    by (simp add: ps_build_unsigned_tx_def allowed)
      (simp add: sign_psbt_def ex_signer_env_def ex_psbt_def ex_defs sign_message_def)
  ultimately have mem: "SendXt (XtRequestMessage_new (SubmitSignedPsbt 7 [] [5] ex_signature) (XtSubmitSignedPsbt 0))
      \<in> set (fst (psbt_signer_tick ?env))"
    by (simp add: psbt_signer_tick_def sign_one_def fst_bind_eff_mem)
  from psbt_signing_authorised [OF mem] mem show ?thesis by blast
qed

text \<open>
  C40: A refund is approved only for a payment that is there. Every approving vote the verifier
  submits is for a pending request that exists and is not approved yet, was not cast before, and
  the transaction the request names has the output it names, paying the address and the amount
  of the request; when the node reports confirmations, there are at least six.
\<close>

theorem rollback_approval_sound:
  assumes "SendXt (XtRequestMessage_new (SubmitRollbackPoll a t True sig) meta)
      \<in> set (fst (rollback_verifier_tick env))"
  shows "\<exists>request tx. get_rollback_request env t = Ok request
      \<and> rr_who request \<noteq> 0 \<and> \<not> rr_is_approved request
      \<and> rr_votes request (default_address (v_client env)) \<noteq> Some True
      \<and> v_raw_transaction env (rr_txid request) = Some tx
      \<and> (\<forall>c. raw_confirmations tx = Some c \<longrightarrow> 6 \<le> c)
      \<and> rr_vout request < length (raw_vout tx)
      \<and> vout_address (raw_vout tx ! rr_vout request) = Some (rr_to request)
      \<and> vout_value (raw_vout tx ! rr_vout request) = rr_amount request"
proof -
  obtain raw where "SendXt (XtRequestMessage_new (SubmitRollbackPoll a t True sig) meta)
      \<in> set (fst (verify_one env raw))"
    using assms
    by (auto simp: rollback_verifier_tick_def fst_bind_eff_mem split: if_splits dest!: for_each_mem)
  then obtain p request approved call meta' where
    "v_deserialize env raw = Some p"
    and req: "get_rollback_request env (rev (psbt_txid p)) = Ok request" "rr_who request \<noteq> 0"
      "\<not> rr_is_approved request" "rollback_verdict env request = Ok approved"
      "rr_votes request (default_address (v_client env)) \<noteq> Some approved"
    and poll: "rollback_poll env (rev (psbt_txid p)) approved = Ok (call, meta')"
    and eq: "SendXt (XtRequestMessage_new (SubmitRollbackPoll a t True sig) meta)
      = SendXt (XtRequestMessage_new call meta')"
    by (rule verify_one_mem)
  have "call = SubmitRollbackPoll a t True sig" using eq by simp
  with rollback_poll_call [OF poll] have "approved" "t = rev (psbt_txid p)" by auto
  with req show ?thesis
    by (auto simp: rollback_verdict_def is_rollback_valid_True_iff split: option.splits)
qed

theorem rollback_approval_sound_witness:
  "\<exists>request tx. get_rollback_request (ex_verifier_env 0 (Some 8)) [2, 1] = Ok request
     \<and> v_raw_transaction (ex_verifier_env 0 (Some 8)) (rr_txid request) = Some tx
     \<and> vout_address (raw_vout tx ! rr_vout request) = Some (rr_to request)"
proof -
  have "verify_one (ex_verifier_env 0 (Some 8)) [9] =
    ([SendXt (XtRequestMessage_new (SubmitRollbackPoll 7 [2, 1] True ex_signature)
       (XtSubmitRollbackPoll [2, 1] True))], Ok ())"
    by (rule ex_verify_one) simp
  then have "SendXt (XtRequestMessage_new (SubmitRollbackPoll 7 [2, 1] True ex_signature)
       (XtSubmitRollbackPoll [2, 1] True)) \<in> set (fst (rollback_verifier_tick (ex_verifier_env 0 (Some 8))))"
    by (simp add: ex_verifier_tick ret_def)
  from rollback_approval_sound [OF this] show ?thesis by blast
qed

text \<open>
  Two gaps in the check of a refund. A transaction for which the node reports no
  confirmations, as it does while the transaction is in no block, passes the confirmation test,
  so a refund of an unconfirmed payment is approved; and a request that names the output one past
  the last is not rejected but panics, which ends the relayer.
\<close>

theorem rollback_check_gaps:
  "(raw_confirmations tx = None \<and> rr_vout request < length (raw_vout tx)
      \<and> vout_address (raw_vout tx ! rr_vout request) = Some (rr_to request)
      \<and> vout_value (raw_vout tx ! rr_vout request) = rr_amount request
      \<longrightarrow> is_rollback_valid tx request = Ok True)
   \<and> (rr_vout request = length (raw_vout tx) \<and> (raw_confirmations tx = None \<or> raw_confirmations tx = Some 6)
      \<longrightarrow> is_rollback_valid tx request = Panic)"
  by (auto simp: is_rollback_valid_True_iff) (auto simp: is_rollback_valid_def vec_index_def)

theorem rollback_check_gaps_witness:
  "is_rollback_valid \<lparr>raw_confirmations = None,
       raw_vout = [\<lparr>vout_n = 0, vout_address = Some (BtcAddress [1]), vout_value = 50000\<rparr>]\<rparr>
     \<lparr>rr_unsigned_psbt = [], rr_who = 77, rr_txid = [4, 3], rr_vout = 0, rr_to = BtcAddress [1],
      rr_amount = 50000, rr_votes = [5 \<mapsto> True], rr_is_approved = False\<rparr> = Ok True
   \<and> is_rollback_valid \<lparr>raw_confirmations = Some 6, raw_vout = []\<rparr>
     \<lparr>rr_unsigned_psbt = [], rr_who = 77, rr_txid = [4, 3], rr_vout = 0, rr_to = BtcAddress [1],
      rr_amount = 50000, rr_votes = [5 \<mapsto> True], rr_is_approved = False\<rparr> = Panic"
  using rollback_check_gaps [of "\<lparr>raw_confirmations = None,
       raw_vout = [\<lparr>vout_n = 0, vout_address = Some (BtcAddress [1]), vout_value = 50000\<rparr>]\<rparr>"
     "\<lparr>rr_unsigned_psbt = [], rr_who = 77, rr_txid = [4, 3], rr_vout = 0, rr_to = BtcAddress [1],
      rr_amount = 50000, rr_votes = [5 \<mapsto> True], rr_is_approved = False\<rparr>"]
    rollback_check_gaps [of "\<lparr>raw_confirmations = Some 6, raw_vout = []\<rparr>"
     "\<lparr>rr_unsigned_psbt = [], rr_who = 77, rr_txid = [4, 3], rr_vout = 0, rr_to = BtcAddress [1],
      rr_amount = 50000, rr_votes = [5 \<mapsto> True], rr_is_approved = False\<rparr>"]
  by simp

text \<open>
  What happens to a finalised transaction. The broadcaster hands it to the Bitcoin network
  exactly when the node does not know it and the acceptance test allows it, and then votes that
  the request was executed; the vote does not depend on whether the transaction was handed over.
\<close>

theorem broadcaster_votes:
  assumes "bc_deserialize env raw = Some p" and "bc_extract env p"
    and "sign_message (bc_sign env) (bc_client env)
      (to_be_bytes 32 (bc_keccak256 env (ascii ''ExecutedPsbt'')) @ rev (psbt_txid p)) = Ok sig"
    and "bc_xt_open env"
  shows "broadcast_one env raw =
    ((if \<not> bc_known env (psbt_txid p) \<and> (\<exists>vs. bc_mempool env (psbt_txid p) = Some (True # vs))
      then [SendRawTransaction (psbt_txid p)] else [])
     @ [SendXt (XtRequestMessage_new
          (SubmitExecutedRequest (default_address (bc_client env)) (rev (psbt_txid p)) sig)
          (XtSubmitExecutedRequest (rev (psbt_txid p))))], Ok ())"
  using broadcast_one_Ok [OF assms(1) _ assms(3,4)] assms(2) by blast

theorem broadcaster_votes_witness:
  "broadcast_one ex_broadcaster_env [9] =
     ([SendXt (XtRequestMessage_new (SubmitExecutedRequest 7 [2, 1] ex_signature)
        (XtSubmitExecutedRequest [2, 1]))], Ok ())"
  by (subst broadcaster_votes [where p = ex_psbt and sig = ex_signature])
    (simp_all add: ex_broadcaster_env_def sign_message_def ex_defs ex_psbt_def)

end
