(* ===== verification/Vault_Key_Workers.thy ===== *)
theory Vault_Key_Workers
  imports Keypair_Storage
begin

text \<open>
  The workers that give the registration pool this relayer's public keys for the vaults:
  \<open>periodic/src/pub_key_submitter.rs\<close> (one key per pending registration) and
  \<open>pub_key_presubmitter.rs\<close> (keys in advance), and the heartbeat
  (\<open>heartbeat_sender.rs\<close>). A public key that reaches the pool without its private key being kept
  would lose the funds of the vault, so the storage is part of the state here.
\<close>

section \<open>The submitter\<close>

text \<open>
  \<open>k_pair n\<close> and \<open>k_nonce n\<close> are what the generators give for the \<open>n\<close>-th new key. The pool's
  registration info is the user, the refund and the vault address, and the keys received so far
  with their authorities.
\<close>

record KeyEnv =
  k_client :: EthClient
  k_is_member :: "address \<Rightarrow> bool res"
  k_current_round :: "u32 res"
  k_sequence :: MigrationSequence
  k_pending :: "u32 \<Rightarrow> address list res"
  k_info :: "address \<Rightarrow> u32 \<Rightarrow> (address \<times> string \<times> string \<times> address list \<times> bytes list) res"
  k_crypto :: Crypto
  k_kind :: storage_kind
  k_pair :: "nat \<Rightarrow> bytes \<times> bytes"
  k_nonce :: "nat \<Rightarrow> bytes"
  k_print_u32 :: "u32 \<Rightarrow> string"
  k_hexify_prefixed :: "bytes \<Rightarrow> string"
  k_sign :: "address \<Rightarrow> bytes \<Rightarrow> Signature res"
  k_xt_open :: bool

definition k_pool :: "KeyEnv \<Rightarrow> address res" where
  "k_pool env = unwrap (registration_pool (protocol_contracts (k_client env)))"

definition k_is_relay_executive :: "KeyEnv \<Rightarrow> bool res" where
  "k_is_relay_executive env =
     bind_res (unwrap (relay_executive (protocol_contracts (k_client env)))) (\<lambda>_.
       k_is_member env (default_address (k_client env)))"

definition is_system_vault :: "KeyEnv \<Rightarrow> address \<Rightarrow> bool res" where
  "is_system_vault env who = bind_res (k_pool env) (\<lambda>pool. Ok (who = pool))"

text \<open>The round keys are wanted for: the next one during a migration.\<close>

definition target_round :: "KeyEnv \<Rightarrow> u32 res" where
  "target_round env =
     bind_res (k_pool env) (\<lambda>_.
     bind_res (k_current_round env) (\<lambda>rnd.
       Ok (if k_sequence env = Normal then rnd else saturating_add rnd 1)))"

definition vault_key_text :: "KeyEnv \<Rightarrow> u32 \<Rightarrow> bytes \<Rightarrow> string" where
  "vault_key_text env rnd pk = k_print_u32 env rnd @ '':'' @ k_hexify_prefixed env pk"

text \<open>\<open>copy_from_slice\<close> into the 33 bytes of a compressed key panics for another length.\<close>

definition pk_build_unsigned_tx ::
    "KeyEnv \<Rightarrow> address \<Rightarrow> bytes \<Rightarrow> (XtRequest \<times> XtRequestMetadata) res" where
  "pk_build_unsigned_tx env who pk =
     (if length pk \<noteq> 33 then Panic
      else
        bind_res (target_round env) (\<lambda>rnd.
        bind_res (sign_message (k_sign env) (k_client env) (ascii (vault_key_text env rnd pk))) (\<lambda>sig.
        bind_res (is_system_vault env who) (\<lambda>system.
          Ok ((if system then SubmitSystemVaultKey else SubmitVaultKey)
                (default_address (k_client env)) who pk rnd sig,
              XtSubmitVaultKey who pk)))))"

text \<open>Whether a pending registration is skipped.\<close>

definition skip_registration :: "KeyEnv \<Rightarrow> u32 \<Rightarrow> address \<Rightarrow> bool res" where
  "skip_registration env rnd who =
     bind_res (if k_sequence env = Normal then Ok False
               else bind_res (is_system_vault env who) (\<lambda>system. Ok (\<not> system))) (\<lambda>maintenance.
       if maintenance then Ok True
       else
         bind_res (k_info env who rnd) (\<lambda>(user, refund_addr, vault_addr, authorities, keys).
           Ok (user \<noteq> who \<or> vault_addr \<noteq> [] \<or> default_address (k_client env) \<in> set authorities)))"

text \<open>
  The loop over the pending registrations, threading the storage and the number of keys made.
  \<open>None\<close> stands for the wait for the migrator: the storage is not on the wanted round.
\<close>

fun submit_keys ::
    "KeyEnv \<Rightarrow> u32 \<Rightarrow> address list \<Rightarrow> nat \<Rightarrow> Keystore \<Rightarrow> (Keystore \<times> (effect, unit) eff) option" where
  "submit_keys env rnd [] n ks = Some (ks, ret ())"
| "submit_keys env rnd (who # rest) n ks =
     (case skip_registration env rnd who of
        Err e \<Rightarrow> Some (ks, lift (Err e))
      | Panic \<Rightarrow> Some (ks, lift Panic)
      | Ok True \<Rightarrow> submit_keys env rnd rest n ks
      | Ok False \<Rightarrow>
          if ks_loaded_round ks \<noteq> rnd then None
          else
            (case create_new_keypair (k_crypto env) (k_kind env) (k_pair env n) (k_nonce env n) ks of
               Err e \<Rightarrow> Some (ks, lift (Err e))
             | Panic \<Rightarrow> Some (ks, lift Panic)
             | Ok (pk, ks') \<Rightarrow>
                 (case pk_build_unsigned_tx env who pk of
                    Err e \<Rightarrow> Some (ks', lift (Err e))
                  | Panic \<Rightarrow> Some (ks', lift Panic)
                  | Ok (call, meta) \<Rightarrow>
                      map_option (\<lambda>(ks'', m). (ks'', bind_eff (send_xt (k_xt_open env) call meta) (\<lambda>_. m)))
                        (submit_keys env rnd rest (Suc n) ks'))))"

definition pub_key_submitter_tick ::
    "KeyEnv \<Rightarrow> Keystore \<Rightarrow> (Keystore \<times> (effect, unit) eff) option" where
  "pub_key_submitter_tick env ks =
     (case bind_res (k_is_relay_executive env) (\<lambda>executive.
             if \<not> executive then Ok None
             else bind_res (target_round env) (\<lambda>rnd.
                    bind_res (k_pending env rnd) (\<lambda>pending. Ok (Some (rnd, pending))))) of
        Ok (Some (rnd, pending)) \<Rightarrow> submit_keys env rnd pending 0 ks
      | Ok None \<Rightarrow> Some (ks, ret ())
      | Err e \<Rightarrow> Some (ks, lift (Err e))
      | Panic \<Rightarrow> Some (ks, lift Panic))"

section \<open>The presubmitter\<close>

text \<open>
  \<open>get_presubmittable_amount\<close>, with the pool's limit and the keys this relayer already has there
  (\<open>None\<close>: no entry).
\<close>

definition presubmittable_amount :: "nat \<Rightarrow> bytes list option \<Rightarrow> nat" where
  "presubmittable_amount max_presubmission submitted =
     (case submitted of
        Some keys \<Rightarrow>
          if max_presubmission < length keys then 0 else max_presubmission - length keys
      | None \<Rightarrow> max_presubmission)"

fun create_pub_keys :: "KeyEnv \<Rightarrow> nat \<Rightarrow> nat \<Rightarrow> Keystore \<Rightarrow> (bytes list \<times> Keystore) res" where
  "create_pub_keys env 0 n ks = Ok ([], ks)"
| "create_pub_keys env (Suc cnt) n ks =
     bind_res (create_new_keypair (k_crypto env) (k_kind env) (k_pair env n) (k_nonce env n) ks)
       (\<lambda>(pk, ks'). bind_res (create_pub_keys env cnt (Suc n) ks')
          (\<lambda>(pks, ks''). Ok (pk # pks, ks'')))"

definition presubmission_text :: "KeyEnv \<Rightarrow> u32 \<Rightarrow> bytes list \<Rightarrow> string" where
  "presubmission_text env rnd pks =
     k_print_u32 env rnd @ '':'' @ concat (map (k_hexify_prefixed env) pks)"

definition pre_build_unsigned_tx :: "KeyEnv \<Rightarrow> bytes list \<Rightarrow> (XtRequest \<times> XtRequestMetadata) res" where
  "pre_build_unsigned_tx env pks =
     (if \<exists>pk \<in> set pks. length pk \<noteq> 33 then Panic
      else
        bind_res (k_current_round env) (\<lambda>rnd.
        bind_res (sign_message (k_sign env) (k_client env) (ascii (presubmission_text env rnd pks))) (\<lambda>sig.
          Ok (VaultKeyPresubmission (default_address (k_client env)) pks rnd sig,
              XtVaultKeyPresubmission (length pks)))))"

definition presubmitter_tick ::
    "KeyEnv \<Rightarrow> nat \<Rightarrow> bytes list option \<Rightarrow> Keystore \<Rightarrow> Keystore \<times> (effect, unit) eff" where
  "presubmitter_tick env max_presubmission submitted ks =
     (case k_is_relay_executive env of
        Ok executive \<Rightarrow>
          if \<not> executive \<or> k_sequence env \<noteq> Normal then (ks, ret ())
          else
            (let n = presubmittable_amount max_presubmission submitted
             in if n = 0 then (ks, ret ())
                else
                  (case create_pub_keys env n 0 ks of
                     Ok (pks, ks') \<Rightarrow>
                       (ks', bind_eff (lift (pre_build_unsigned_tx env pks)) (\<lambda>(call, meta).
                               send_xt (k_xt_open env) call meta))
                   | Err e \<Rightarrow> (ks, lift (Err e))
                   | Panic \<Rightarrow> (ks, lift Panic)))
      | Err e \<Rightarrow> (ks, lift (Err e))
      | Panic \<Rightarrow> (ks, lift Panic))"

section \<open>The heartbeat\<close>

definition heartbeat_tick ::
    "EthClient \<Rightarrow> (address \<Rightarrow> bool res) \<Rightarrow> (address \<Rightarrow> bool res) \<Rightarrow> (u256 \<times> u256) res
      \<Rightarrow> (effect, unit) eff" where
  "heartbeat_tick client selected pulsed round_info =
     bind_eff (lift (unwrap (relayer_manager (protocol_contracts client)))) (\<lambda>manager.
     bind_eff (lift (selected (default_address client))) (\<lambda>is_selected.
     bind_eff (lift (pulsed (default_address client))) (\<lambda>is_pulsed.
       if is_selected \<and> \<not> is_pulsed
       then bind_eff (lift round_info) (\<lambda>(rnd, session).
              send_transaction client
                \<lparr>tx_to = manager, tx_from = None, tx_call = RelayerHeartbeat, tx_gas_limit = None\<rparr>
                (Heartbeat rnd session))
       else ret ())))"

lemma heartbeat_once_per_session:
  assumes "pulsed (default_address client) = Ok True"
  shows "fst (heartbeat_tick client selected pulsed round_info) = []"
  using assms by (auto simp: heartbeat_tick_def fst_bind_eff split: res.splits option.splits)

section \<open>Keys that can be used later\<close>

definition recoverable :: "KeyEnv \<Rightarrow> bytes \<Rightarrow> Keystore \<Rightarrow> bool" where
  "recoverable env pk ks \<longleftrightarrow>
     (\<exists>seed. get_key (k_crypto env) (k_kind env) pk ks = Ok (Some seed)
       \<and> c_public (k_crypto env) seed = Some pk)"

text \<open>What the generators promise: a key pair belongs together, a nonce has twelve bytes.\<close>

definition generators_ok :: "KeyEnv \<Rightarrow> bool" where
  "generators_ok env \<longleftrightarrow>
     crypto_ok (k_crypto env)
     \<and> (\<forall>n. c_public (k_crypto env) (snd (k_pair env n)) = Some (fst (k_pair env n)))
     \<and> (\<forall>n. length (k_nonce env n) = 12)"

lemma create_new_keypair_recoverable:
  assumes "generators_ok env"
    and "create_new_keypair (k_crypto env) (k_kind env) (k_pair env n) (k_nonce env n) ks = Ok (pk, ks')"
  shows "recoverable env pk ks'" and "recoverable env q ks \<Longrightarrow> recoverable env q ks'"
    and "ks_loaded_round ks' = ks_loaded_round ks" and "ks_db ks' = ks_db ks"
proof -
  obtain sealed db where sealed: "encrypt_key (k_crypto env) (k_kind env) (k_nonce env n) (snd (k_pair env n)) = Ok sealed"
    and db: "ks_db ks = Some db" and pk: "pk = fst (k_pair env n)"
    and ks': "ks' = ks\<lparr>ks_disk := (ks_disk ks)(db := (ks_disk ks db)
        (fst (k_pair env n) \<mapsto> c_hex_encode (k_crypto env) sealed))\<rparr>"
    using assms(2) by (auto simp: create_new_keypair_Ok_iff)
  have gen: "crypto_ok (k_crypto env)" "c_public (k_crypto env) (snd (k_pair env n)) = Some (fst (k_pair env n))"
    "length (k_nonce env n) = 12"
    using assms(1) by (auto simp: generators_ok_def)
  show new: "recoverable env pk ks'"
    using decrypt_encrypt [OF gen(1,3) sealed] crypto_okD(1) [OF gen(1)] gen(2)
    by (simp add: recoverable_def get_key_def raw_keystore_value_def ks_open_db_def ks' db pk)
  show "recoverable env q ks'" if "recoverable env q ks"
  proof (cases "q = pk")
    case True
    then show ?thesis using new by simp
  next
    case False
    then show ?thesis
      using that by (simp add: recoverable_def get_key_def raw_keystore_value_def ks_open_db_def ks' db pk)
  qed
  show "ks_loaded_round ks' = ks_loaded_round ks" and "ks_db ks' = ks_db ks"
    by (simp_all add: ks')
qed

text \<open>The submission of a key: for whom, which, and for which round.\<close>

fun submitted_key :: "effect \<Rightarrow> (address \<times> bytes \<times> u32) option" where
  "submitted_key (SendXt msg) =
     (case xt_call msg of
        SubmitVaultKey a who pk rnd sig \<Rightarrow> Some (who, pk, rnd)
      | SubmitSystemVaultKey a who pk rnd sig \<Rightarrow> Some (who, pk, rnd)
      | _ \<Rightarrow> None)"
| "submitted_key f = None"

lemma pk_build_unsigned_tx_Ok:
  assumes "pk_build_unsigned_tx env who pk = Ok (call, meta)"
  shows "\<exists>rnd. target_round env = Ok rnd
    \<and> submitted_key (SendXt (XtRequestMessage_new call meta)) = Some (who, pk, rnd)"
  using assms
  by (auto simp: pk_build_unsigned_tx_def bind_res_Ok_iff XtRequestMessage_new_def split: if_splits)

definition key_justified :: "KeyEnv \<Rightarrow> u32 \<Rightarrow> address list \<Rightarrow> Keystore \<Rightarrow> effect \<Rightarrow> bool" where
  "key_justified env rnd pending ks f \<longleftrightarrow>
     (\<exists>who pk. submitted_key f = Some (who, pk, rnd) \<and> who \<in> set pending
       \<and> skip_registration env rnd who = Ok False \<and> recoverable env pk ks)"

lemma submit_keys_justified:
  assumes "generators_ok env" and "target_round env = Ok rnd"
    and "submit_keys env rnd pending n ks = Some (ks', fs, r)"
  shows "(\<forall>f \<in> set fs. key_justified env rnd pending ks' f \<and> ks_loaded_round ks = rnd)
    \<and> (\<forall>q. recoverable env q ks \<longrightarrow> recoverable env q ks')
    \<and> ks_loaded_round ks' = ks_loaded_round ks \<and> ks_db ks' = ks_db ks"
  using assms(3)
proof (induction pending arbitrary: n ks ks' fs r)
  case Nil
  then show ?case by (simp add: ret_def)
next
  case (Cons who rest)
  have weaken: "key_justified env rnd rest ks' f \<Longrightarrow> key_justified env rnd (who # rest) ks' f" for f
    by (auto simp: key_justified_def)
  consider (stop) "ks' = ks" "fs = []"
    | (skip) "submit_keys env rnd rest n ks = Some (ks', fs, r)"
    | (make) pk ks1 where "skip_registration env rnd who = Ok False" "ks_loaded_round ks = rnd"
        "create_new_keypair (k_crypto env) (k_kind env) (k_pair env n) (k_nonce env n) ks = Ok (pk, ks1)"
        "fs = [] \<and> ks' = ks1
         \<or> (\<exists>call meta gs. pk_build_unsigned_tx env who pk = Ok (call, meta)
              \<and> submit_keys env rnd rest (Suc n) ks1 = Some (ks', gs, r)
              \<and> fs = fst (send_xt (k_xt_open env) call meta) @ gs)"
    using Cons.prems
    by (auto simp: lift_def send_xt_def emit_def ret_def split: res.splits bool.splits if_splits)
  then show ?case
  proof cases
    case stop
    then show ?thesis by simp
  next
    case skip
    then show ?thesis using Cons.IH [OF skip] weaken by blast
  next
    case (make pk ks1)
    note new = create_new_keypair_recoverable [OF assms(1) make(3)]
    from make(4) show ?thesis
    proof
      assume "fs = [] \<and> ks' = ks1"
      then show ?thesis using new by simp
    next
      assume "\<exists>call meta gs. pk_build_unsigned_tx env who pk = Ok (call, meta)
              \<and> submit_keys env rnd rest (Suc n) ks1 = Some (ks', gs, r)
              \<and> fs = fst (send_xt (k_xt_open env) call meta) @ gs"
      then obtain call meta gs where built: "pk_build_unsigned_tx env who pk = Ok (call, meta)"
        and rest: "submit_keys env rnd rest (Suc n) ks1 = Some (ks', gs, r)"
        and fs: "fs = fst (send_xt (k_xt_open env) call meta) @ gs"
        by blast
      note IH = Cons.IH [OF rest]
      have "submitted_key (SendXt (XtRequestMessage_new call meta)) = Some (who, pk, rnd)"
        using pk_build_unsigned_tx_Ok [OF built] assms(2) by simp
      then have "key_justified env rnd (who # rest) ks' (SendXt (XtRequestMessage_new call meta))"
        using make(1) new(1) IH by (simp add: key_justified_def)
      then show ?thesis
        using IH new make(2) weaken fs by auto
    qed
  qed
qed

lemma create_pub_keys_recoverable:
  assumes "generators_ok env" and "create_pub_keys env cnt n ks = Ok (pks, ks')"
  shows "length pks = cnt \<and> (\<forall>pk \<in> set pks. recoverable env pk ks')
    \<and> (\<forall>q. recoverable env q ks \<longrightarrow> recoverable env q ks')
    \<and> ks_loaded_round ks' = ks_loaded_round ks"
  using assms(2)
proof (induction cnt arbitrary: n ks pks)
  case 0
  then show ?case by simp
next
  case (Suc cnt)
  then obtain pk ks1 pks1 where mk: "create_new_keypair (k_crypto env) (k_kind env) (k_pair env n) (k_nonce env n) ks
      = Ok (pk, ks1)" and rest: "create_pub_keys env cnt (Suc n) ks1 = Ok (pks1, ks')" and "pks = pk # pks1"
    by (auto simp: bind_res_Ok_iff)
  then show ?case
    using create_new_keypair_recoverable [OF assms(1) mk] Suc.IH [OF rest] by auto
qed

lemma presubmittable_amount_le:
  "0 < presubmittable_amount m submitted \<Longrightarrow>
     presubmittable_amount m submitted + (case submitted of Some keys \<Rightarrow> length keys | None \<Rightarrow> 0) = m"
  by (auto simp: presubmittable_amount_def split: option.splits if_splits)

lemma skip_registration_False:
  assumes "skip_registration env rnd who = Ok False"
  shows "(k_sequence env = Normal \<or> registration_pool (protocol_contracts (k_client env)) = Some who)
    \<and> (\<exists>refund_addr authorities keys. k_info env who rnd = Ok (who, refund_addr, [], authorities, keys)
        \<and> default_address (k_client env) \<notin> set authorities)"
  using assms
  by (auto simp: skip_registration_def is_system_vault_def k_pool_def bind_res_Ok_iff split: if_splits)

definition ex_key_env :: KeyEnv where
  "ex_key_env =
     \<lparr>k_client = ex_client 3068 True, k_is_member = (\<lambda>_. Ok True), k_current_round = Ok 4,
      k_sequence = Normal, k_pending = (\<lambda>_. Ok [77]), k_info = (\<lambda>who _. Ok (who, ''r'', [], [], [])),
      k_crypto = ex_crypto, k_kind = Password (Some [1]),
      k_pair = (\<lambda>n. (3 # replicate 32 8, replicate 32 8)), k_nonce = (\<lambda>n. replicate 12 0),
      k_print_u32 = (\<lambda>_. ''4''), k_hexify_prefixed = (\<lambda>_. ''0x''), k_sign = (\<lambda>_ _. Ok ex_signature),
      k_xt_open = True\<rparr>"

lemma ex_generators_ok: "generators_ok ex_key_env"
  using ex_crypto_ok by (simp add: generators_ok_def ex_key_env_def) (simp add: ex_crypto_def)

lemma ex_create_new_keypair:
  "\<exists>ks'. create_new_keypair (k_crypto ex_key_env) (k_kind ex_key_env) (k_pair ex_key_env n)
      (k_nonce ex_key_env n) ex_keystore = Ok (3 # replicate 32 8, ks')"
  by (simp add: ex_key_env_def create_new_keypair_Ok_iff encrypt_key_def pw_encrypt_key_def
      ex_crypto_def ex_keystore_def)

lemma ex_key_simps [simp]:
  "k_is_relay_executive ex_key_env = Ok True" "target_round ex_key_env = Ok 4"
  "k_pending ex_key_env rnd = Ok [77]" "skip_registration ex_key_env rnd 77 = Ok False"
  "k_sequence ex_key_env = Normal" "k_xt_open ex_key_env" "k_current_round ex_key_env = Ok 4"
  "sign_message (k_sign ex_key_env) (k_client ex_key_env) bs = Ok ex_signature"
  "default_address (k_client ex_key_env) = 7" "is_system_vault ex_key_env 77 = Ok False"
  "ks_loaded_round ex_keystore = 4"
  by (simp_all add: ex_key_env_def k_is_relay_executive_def target_round_def k_pool_def ex_defs
      skip_registration_def sign_message_def is_system_vault_def ex_keystore_def)

section \<open>Properties\<close>



text \<open>
  Keys in advance stay within the limit and are kept. What the presubmitter sends is one
  extrinsic with new keys, in normal operation only; together with the keys the pool already has
  they make exactly the pool's limit, and the private key of each is found in the storage.
\<close>

theorem presubmission_within_limit:
  assumes "generators_ok env" and "presubmitter_tick env m submitted ks = (ks', fs, r)"
    and "SendXt msg \<in> set fs"
  shows "\<exists>pks rnd sig. xt_call msg = VaultKeyPresubmission (default_address (k_client env)) pks rnd sig
      \<and> k_current_round env = Ok rnd \<and> k_sequence env = Normal
      \<and> length pks + (case submitted of Some keys \<Rightarrow> length keys | None \<Rightarrow> 0) = m
      \<and> (\<forall>pk \<in> set pks. \<exists>seed. get_key (k_crypto env) (k_kind env) pk ks' = Ok (Some seed)
            \<and> c_public (k_crypto env) seed = Some pk)"
proof -
  obtain pks where seq: "k_sequence env = Normal" and pos: "0 < presubmittable_amount m submitted"
    and mk: "create_pub_keys env (presubmittable_amount m submitted) 0 ks = Ok (pks, ks')"
    and mem: "SendXt msg \<in> set (fst (bind_eff (lift (pre_build_unsigned_tx env pks)) (\<lambda>(call, meta).
                               send_xt (k_xt_open env) call meta)))"
    using assms(2,3)
    by (auto simp: presubmitter_tick_def Let_def lift_def ret_def split: res.splits if_splits)
  obtain rnd sig where "k_current_round env = Ok rnd"
    "xt_call msg = VaultKeyPresubmission (default_address (k_client env)) pks rnd sig"
    using mem
    by (auto simp: fst_bind_eff_mem pre_build_unsigned_tx_def bind_res_Ok_iff XtRequestMessage_new_def
        split: if_splits)
  then show ?thesis
    using create_pub_keys_recoverable [OF assms(1) mk] presubmittable_amount_le [OF pos] seq
    unfolding recoverable_def by (intro exI [of _ pks] exI [of _ rnd] exI [of _ sig]) simp
qed

theorem presubmission_within_limit_witness:
  "\<exists>ks' fs r pks. presubmitter_tick ex_key_env 1 None ex_keystore = (ks', fs, r) \<and> length pks = 1
     \<and> (\<exists>msg rnd sig. SendXt msg \<in> set fs \<and> xt_call msg = VaultKeyPresubmission 7 pks rnd sig)"
proof -
  let ?m = "XtRequestMessage_new (VaultKeyPresubmission 7 [3 # replicate 32 8] 4 ex_signature)
    (XtVaultKeyPresubmission 1)"
  obtain ks' where mk: "create_new_keypair (k_crypto ex_key_env) (k_kind ex_key_env) (k_pair ex_key_env 0)
      (k_nonce ex_key_env 0) ex_keystore = Ok (3 # replicate 32 8, ks')"
    using ex_create_new_keypair by blast
  then have "create_pub_keys ex_key_env 1 0 ex_keystore = Ok ([3 # replicate 32 8], ks')"
    by simp
  then have run: "presubmitter_tick ex_key_env 1 None ex_keystore = (ks', [SendXt ?m], Ok ())"
    by (simp add: presubmitter_tick_def presubmittable_amount_def pre_build_unsigned_tx_def Let_def
        send_xt_def emit_def)
  from presubmission_within_limit [OF ex_generators_ok run, of ?m] run show ?thesis
    by auto
qed

end
