(* ===== verification/Exchange_Rate.thy ===== *)
theory Exchange_Rate
  imports Relayer_Prelude Complex_Main
begin

text \<open>
  Exchange rates as decimal strings (\<open>periodic/src/price_source/exchange_rate.rs\<close>): the rate is
  taken from a JSON document as printed there, scientific notation included, and turned into a
  256-bit integer scaled by \<open>10 ^ 18\<close> without floating-point arithmetic.
\<close>

section \<open>Decimal strings\<close>

text \<open>Numbers of a JSON document are ASCII, so a byte of such a string is a character.\<close>

definition is_digit :: "char \<Rightarrow> bool" where
  "is_digit c \<longleftrightarrow> (48 :: nat) \<le> of_char c \<and> of_char c \<le> (57 :: nat)"

definition digits_value :: "string \<Rightarrow> nat" where
  "digits_value s = fold (\<lambda>c n. 10 * n + (of_char c - 48)) s 0"

text \<open>\<open>str::parse::<i32>\<close>: an optional sign and at least one digit, in range.\<close>

definition parse_i32 :: "string \<Rightarrow> int option" where
  "parse_i32 s =
     (let neg = (s \<noteq> [] \<and> hd s = CHR ''-'');
          body = (if s \<noteq> [] \<and> (hd s = CHR ''-'' \<or> hd s = CHR ''+'') then tl s else s);
          v = (if neg then - int (digits_value body) else int (digits_value body))
      in if body = [] \<or> \<not> list_all is_digit body \<or> v < - (2 ^ 31) \<or> 2 ^ 31 \<le> v then None else Some v)"

text \<open>\<open>find\<close> and the two slices around the character found.\<close>

definition split_first :: "(char \<Rightarrow> bool) \<Rightarrow> string \<Rightarrow> (string \<times> string) option" where
  "split_first p s =
     (case dropWhile (\<lambda>c. \<not> p c) s of
        [] \<Rightarrow> None
      | _ # rest \<Rightarrow> Some (takeWhile (\<lambda>c. \<not> p c) s, rest))"

definition trim_start_zeros :: "string \<Rightarrow> string" where
  "trim_start_zeros s = dropWhile (\<lambda>c. c = CHR ''0'') s"

text \<open>\<open>repeat\<close> panics when the result would exceed the address space.\<close>

definition repeat_zero :: "nat \<Rightarrow> string res" where
  "repeat_zero n = (if n < 2 ^ 63 then Ok (replicate n CHR ''0'') else Panic)"

text \<open>Values of type \<open>i32\<close> after wrap-around, and their cast to \<open>usize\<close>.\<close>

definition wrap_i32 :: "int \<Rightarrow> int" where
  "wrap_i32 i = (i + 2 ^ 31) mod 2 ^ 32 - 2 ^ 31"

definition usize_of_i32 :: "int \<Rightarrow> nat" where
  "usize_of_i32 i = (if 0 \<le> i then nat i else nat (2 ^ 64 + i))"

section \<open>The conversion\<close>

definition normalize_scientific_notation :: "string \<Rightarrow> string res" where
  "normalize_scientific_notation s =
     (case split_first (\<lambda>c. c = CHR ''e'' \<or> c = CHR ''E'') s of
        None \<Rightarrow> Ok s
      | Some (mantissa, ex) \<Rightarrow>
          (let exponent = (case parse_i32 ex of Some k \<Rightarrow> k | None \<Rightarrow> 0);
               (integer, fractional) =
                 (case split_first (\<lambda>c. c = CHR ''.'') mantissa of Some p \<Rightarrow> p | None \<Rightarrow> (mantissa, []));
               digits = trim_start_zeros integer @ fractional;
               decimal_pos = wrap_i32 (wrap_i32 (int (length (trim_start_zeros integer))) + exponent)
           in if decimal_pos \<le> 0
              then bind_res (repeat_zero (usize_of_i32 (wrap_i32 (- decimal_pos))))
                     (\<lambda>zeros. Ok (''0.'' @ zeros @ digits))
              else if length digits \<le> nat decimal_pos
              then bind_res (repeat_zero (nat decimal_pos - length digits)) (\<lambda>zeros. Ok (digits @ zeros))
              else Ok (take (nat decimal_pos) digits @ ''.'' @ drop (nat decimal_pos) digits)))"

definition DECIMALS :: nat where "DECIMALS = 18"

text \<open>\<open>radix\<close> is \<open>U256::from_str_radix(_, 10)\<close> of the integer library.\<close>

definition rate_to_scaled_u256 :: "(string \<Rightarrow> u256 option) \<Rightarrow> string \<Rightarrow> u256 res" where
  "rate_to_scaled_u256 radix rate_str =
     bind_res (normalize_scientific_notation rate_str) (\<lambda>normalized.
       let (integer_part, fractional_part) =
             (case split_first (\<lambda>c. c = CHR ''.'') normalized of Some p \<Rightarrow> p | None \<Rightarrow> (normalized, []));
           combined =
             (if DECIMALS \<le> length fractional_part
              then integer_part @ take DECIMALS fractional_part
              else integer_part @ fractional_part @ replicate (DECIMALS - length fractional_part) CHR ''0'');
           trimmed = trim_start_zeros combined
       in if trimmed = [] then Ok 0 else ok_or (radix trimmed) FormatError)"

definition convert_amount_with_rate :: "(string \<Rightarrow> u256 option) \<Rightarrow> u256 \<Rightarrow> string \<Rightarrow> u256 res" where
  "convert_amount_with_rate radix amt rate_str =
     bind_res (rate_to_scaled_u256 radix rate_str) (\<lambda>rate_scaled.
       ok_or (Option.bind (checked_mul amt rate_scaled) (\<lambda>v. checked_div v (10 ^ 18))) FormatError)"

text \<open>The JSON document: numbers as they print, objects, and everything else.\<close>

datatype json = JNumber string | JObject "(string \<times> json) list" | JOther

fun json_get :: "json \<Rightarrow> string \<Rightarrow> json option" where
  "json_get (JObject fields) k = map_of fields k"
| "json_get _ k = None"

fun json_number :: "json \<Rightarrow> string option" where
  "json_number (JNumber s) = Some s"
| "json_number _ = None"

definition fetch_exchange_rate :: "(string \<Rightarrow> json option) \<Rightarrow> string \<Rightarrow> string \<Rightarrow> string res" where
  "fetch_exchange_rate http url currency =
     bind_res (ok_or (http url) FormatError) (\<lambda>data.
       ok_or (Option.bind (Option.bind (json_get data currency) (\<lambda>v. json_get v ''usd'')) json_number)
         FormatError)"

definition convert_currency_to_usd ::
    "(string \<Rightarrow> u256 option) \<Rightarrow> (string \<Rightarrow> json option) \<Rightarrow> string \<Rightarrow> u256 \<Rightarrow> u256 res" where
  "convert_currency_to_usd radix http currency amt =
     (let primary_url =
            ''https://cdn.jsdelivr.net/npm/@fawazahmed0/currency-api@latest/v1/currencies/'' @ currency
              @ ''.min.json'';
          fallback_url =
            ''https://latest.currency-api.pages.dev/v1/currencies/'' @ currency @ ''.min.json''
      in bind_res
           (case fetch_exchange_rate http primary_url currency of
              Ok rate \<Rightarrow> Ok rate
            | Err e \<Rightarrow> fetch_exchange_rate http fallback_url currency
            | Panic \<Rightarrow> Panic)
           (convert_amount_with_rate radix amt))"

section \<open>Values of decimal strings\<close>

text \<open>The rational number that integer digits, fraction digits and an exponent denote.\<close>

definition rate_value :: "string \<Rightarrow> string \<Rightarrow> int \<Rightarrow> rat" where
  "rate_value i f k = of_nat (digits_value (i @ f)) * 10 powi (k - int (length f))"

definition mantissa_form :: "string \<Rightarrow> string \<Rightarrow> string \<Rightarrow> bool" where
  "mantissa_form m i f \<longleftrightarrow> list_all is_digit (i @ f) \<and> (m = i \<and> f = [] \<or> m = i @ ''.'' @ f)"

definition decimal_form :: "string \<Rightarrow> string \<Rightarrow> string \<Rightarrow> int \<Rightarrow> bool" where
  "decimal_form s i f k \<longleftrightarrow>
     (\<exists>m. mantissa_form m i f
        \<and> (s = m \<and> k = 0
           \<or> (\<exists>c x. (c = CHR ''e'' \<or> c = CHR ''E'') \<and> s = m @ [c] @ x \<and> parse_i32 x = Some k)))"

text \<open>What the conversion relies on in the integer library: decimal digits are read as a number.\<close>

definition reads_decimal :: "(string \<Rightarrow> u256 option) \<Rightarrow> bool" where
  "reads_decimal radix \<longleftrightarrow>
     (\<forall>s. s \<noteq> [] \<longrightarrow> list_all is_digit s \<longrightarrow>
        radix s = (if digits_value s < 2 ^ 256 then Some (word_of_nat (digits_value s)) else None))"

definition combined_digits :: "string \<Rightarrow> string \<Rightarrow> string" where
  "combined_digits i f =
     (if DECIMALS \<le> length f then i @ take DECIMALS f
      else i @ f @ replicate (DECIMALS - length f) CHR ''0'')"

text \<open>A reader with the behaviour that is relied on.\<close>

definition ex_radix :: "string \<Rightarrow> u256 option" where
  "ex_radix s = (if digits_value s < 2 ^ 256 then Some (word_of_nat (digits_value s)) else None)"

lemma digits_value_fold:
  "fold (\<lambda>c n. 10 * n + (of_char c - 48 :: nat)) s a = a * 10 ^ length s + digits_value s"
proof (induction s arbitrary: a)
  case (Cons c s)
  have "fold (\<lambda>c n. 10 * n + (of_char c - 48 :: nat)) s (of_char c - 48)
      = (of_char c - 48) * 10 ^ length s + digits_value s"
    by (rule Cons.IH)
  then have "digits_value (c # s) = (of_char c - 48) * 10 ^ length s + digits_value s"
    by (simp add: digits_value_def)
  then show ?case
    using Cons.IH by (simp add: algebra_simps)
qed (simp add: digits_value_def)

lemma digits_value_append:
  "digits_value (s @ t) = digits_value s * 10 ^ length t + digits_value t"
proof -
  have "digits_value (s @ t) = fold (\<lambda>c n. 10 * n + (of_char c - 48)) t (digits_value s)"
    by (simp add: digits_value_def)
  then show ?thesis by (simp only: digits_value_fold)
qed

lemma digits_value_simps [simp]:
  "digits_value [] = 0"
  "digits_value (CHR ''0'' # s) = digits_value s"
  "digits_value (replicate n CHR ''0'') = 0"
proof -
  show "digits_value [] = 0" and z: "digits_value (CHR ''0'' # s) = digits_value s" for s
    by (simp_all add: digits_value_def)
  show "digits_value (replicate n CHR ''0'') = 0"
    by (induction n) (simp_all add: digits_value_def)
qed

lemma digits_value_less: "list_all is_digit s \<Longrightarrow> digits_value s < 10 ^ length s"
proof (induction s rule: rev_induct)
  case (snoc c s)
  then have "digits_value s < 10 ^ length s" and "of_char c - 48 < (10 :: nat)"
    by (auto simp: is_digit_def)
  moreover have "digits_value (s @ [c]) = digits_value s * 10 + (of_char c - 48)"
    by (simp add: digits_value_append) (simp add: digits_value_def)
  ultimately show ?case by simp
qed (simp add: digits_value_def)

lemma digits_value_trim [simp]: "digits_value (trim_start_zeros s) = digits_value s"
  by (induction s) (auto simp: trim_start_zeros_def)

lemma trim_digits: "list_all is_digit s \<Longrightarrow> list_all is_digit (trim_start_zeros s)"
  by (induction s) (auto simp: trim_start_zeros_def)

lemma trim_Nil: "trim_start_zeros s = [] \<Longrightarrow> digits_value s = 0"
  using digits_value_trim [of s] by simp

lemma digits_value_trim_append [simp]:
  "digits_value (trim_start_zeros s @ t) = digits_value (s @ t)"
  by (simp add: digits_value_append)

lemma zero_is_digit [simp]: "is_digit CHR ''0''"
  by (simp add: is_digit_def)

lemma replicate_zero_digits [simp]: "list_all is_digit (replicate n CHR ''0'')"
  by (simp add: list_all_iff)

lemma digit_not_mark:
  "is_digit c \<Longrightarrow> c \<noteq> CHR ''.'' \<and> c \<noteq> CHR ''e'' \<and> c \<noteq> CHR ''E''"
  by (auto simp: is_digit_def)

lemma split_first_none: "(\<And>c. c \<in> set s \<Longrightarrow> \<not> p c) \<Longrightarrow> split_first p s = None"
proof -
  assume "\<And>c. c \<in> set s \<Longrightarrow> \<not> p c"
  then have "dropWhile (\<lambda>c. \<not> p c) s = []" by simp
  then show ?thesis unfolding split_first_def by (simp only: list.case)
qed

lemma split_first_some:
  "(\<And>c. c \<in> set a \<Longrightarrow> \<not> p c) \<Longrightarrow> p c \<Longrightarrow> split_first p (a @ c # b) = Some (a, b)"
  by (simp add: split_first_def dropWhile_append takeWhile_append)

lemma mantissa_split:
  assumes "mantissa_form m i f"
  shows "(case split_first (\<lambda>c. c = CHR ''.'') m of Some p \<Rightarrow> p | None \<Rightarrow> (m, [])) = (i, f)"
proof -
  have "list_all is_digit (i @ f)" and m: "m = i \<and> f = [] \<or> m = i @ CHR ''.'' # f"
    using assms by (auto simp: mantissa_form_def)
  then have no: "c \<noteq> CHR ''.''" if "c \<in> set i" for c
    using digit_not_mark that by (fastforce simp: list_all_iff)
  from m show ?thesis
  proof
    assume "m = i \<and> f = []"
    then show ?thesis
      using split_first_none [of i "\<lambda>c. c = CHR ''.''"] no by auto
  next
    assume "m = i @ CHR ''.'' # f"
    then show ?thesis
      using split_first_some [of i "\<lambda>c. c = CHR ''.''" "CHR ''.''" f] no by auto
  qed
qed

lemma mantissa_no_e:
  assumes "mantissa_form m i f" and "c \<in> set m"
  shows "\<not> (c = CHR ''e'' \<or> c = CHR ''E'')"
  using assms digit_not_mark by (fastforce simp: mantissa_form_def list_all_iff)

lemma wrap_i32_id: "- (2 ^ 31) \<le> i \<Longrightarrow> i < 2 ^ 31 \<Longrightarrow> wrap_i32 i = i"
  by (simp add: wrap_i32_def)

lemma shifted_value:
  "rate_value (d @ replicate n CHR ''0'') [] 0 = of_nat (digits_value d) * 10 powi (int n)"
  by (simp add: rate_value_def digits_value_append)

lemma normalize_decimal:
  assumes m: "mantissa_form m i f" and c: "c = CHR ''e'' \<or> c = CHR ''E''"
    and k: "parse_i32 x = Some k" and small: "\<bar>k\<bar> < 2 ^ 30" "length m < 2 ^ 30"
  obtains n i' f' where "normalize_scientific_notation (m @ c # x) = Ok n"
    and "mantissa_form n i' f'" and "rate_value i' f' 0 = rate_value i f k"
proof -
  define t where "t = trim_start_zeros i"
  define d where "d = t @ f"
  define p where "p = int (length t) + k"
  have digits: "list_all is_digit d"
    using m trim_digits [of i] by (auto simp: d_def t_def mantissa_form_def)
  have "length t \<le> length i"
    by (simp add: t_def trim_start_zeros_def length_dropWhile_le)
  then have len: "int (length t) < 2 ^ 30"
    using m small(2) by (auto simp: mantissa_form_def)
  have wrap: "wrap_i32 (int (length t)) = int (length t)" "wrap_i32 p = p" "wrap_i32 (- p) = - p"
    using len small(1) by (simp_all add: wrap_i32_id p_def)
  have norm: "normalize_scientific_notation (m @ c # x) =
      (if p \<le> 0 then bind_res (repeat_zero (nat (- p))) (\<lambda>zeros. Ok (''0.'' @ zeros @ d))
       else if length d \<le> nat p then bind_res (repeat_zero (nat p - length d)) (\<lambda>zeros. Ok (d @ zeros))
       else Ok (take (nat p) d @ ''.'' @ drop (nat p) d))"
    using split_first_some [of m "\<lambda>c. c = CHR ''e'' \<or> c = CHR ''E''" c x] mantissa_no_e [OF m] c
      mantissa_split [OF m] k wrap
    by (simp add: normalize_scientific_notation_def Let_def t_def d_def p_def usize_of_i32_def
        split del: if_split cong: if_cong)
  have val: "rate_value i f k = of_nat (digits_value d) * 10 powi (p - int (length d))"
    by (simp add: rate_value_def d_def t_def p_def)
  consider (left) "p \<le> 0" | (right) "0 < p" "length d \<le> nat p" | (inside) "0 < p" "nat p < length d"
    by linarith
  then show thesis
  proof cases
    case left
    have "nat (- p) < 2 ^ 63" using len small(1) by (simp add: p_def)
    then have "normalize_scientific_notation (m @ c # x) = Ok (''0'' @ ''.'' @ replicate (nat (- p)) CHR ''0'' @ d)"
      using norm left by (simp add: repeat_zero_def)
    moreover have "rate_value ''0'' (replicate (nat (- p)) CHR ''0'' @ d) 0 = rate_value i f k"
      using left digits_value_append [of "replicate (nat (- p)) CHR ''0''" d] unfolding val
      by (simp add: rate_value_def)
    ultimately show thesis
      using that [of _ "''0''" "replicate (nat (- p)) CHR ''0'' @ d"] digits
      by (simp add: mantissa_form_def)
  next
    case right
    have "nat p - length d < 2 ^ 63" using len small(1) right by (simp add: p_def)
    then have "normalize_scientific_notation (m @ c # x) = Ok (d @ replicate (nat p - length d) CHR ''0'')"
      using norm right by (simp add: repeat_zero_def)
    moreover have "rate_value (d @ replicate (nat p - length d) CHR ''0'') [] 0 = rate_value i f k"
      using right by (simp only: shifted_value val) (simp add: of_nat_diff)
    ultimately show thesis
      using that [of _ "d @ replicate (nat p - length d) CHR ''0''" "[]"] digits
      by (simp add: mantissa_form_def)
  next
    case inside
    have "rate_value (take (nat p) d) (drop (nat p) d) 0 = rate_value i f k"
      using inside unfolding val by (simp add: rate_value_def of_nat_diff)
    moreover have "list_all is_digit (take (nat p) d @ drop (nat p) d)"
      using digits by (simp only: append_take_drop_id)
    ultimately show thesis
      using that [of _ "take (nat p) d" "drop (nat p) d"] norm inside
      by (simp add: mantissa_form_def)
  qed
qed

lemma floor_shift_right:
  "\<lfloor>(of_nat v :: rat) * 10 powi (int a - int b)\<rfloor> =
     int (if b \<le> a then v * 10 ^ (a - b) else v div 10 ^ (b - a))"
proof (cases "b \<le> a")
  case True
  then have "int a - int b = int (a - b)" by simp
  then have "(of_nat v :: rat) * 10 powi (int a - int b) = of_nat (v * 10 ^ (a - b))"
    by (simp only: power_int_of_nat of_nat_mult of_nat_power of_nat_numeral)
  then show ?thesis using True by (simp only: floor_of_nat if_True)
next
  case False
  then have "int a - int b = - int (b - a)" by simp
  then have "(of_nat v :: rat) * 10 powi (int a - int b) = of_nat v / of_nat (10 ^ (b - a))"
    by (simp only: power_int_minus power_int_of_nat divide_inverse of_nat_power of_nat_numeral)
  then show ?thesis using False by (simp only: floor_divide_of_nat_eq if_False)
qed

lemma combined_value:
  assumes "list_all is_digit (i @ f)"
  shows "int (digits_value (combined_digits i f)) = \<lfloor>rate_value i f 0 * 10 ^ 18\<rfloor>"
proof -
  have e: "rate_value i f 0 * 10 ^ 18 = of_nat (digits_value (i @ f)) * 10 powi (int 18 - int (length f))"
    using power_int_add [of "10 :: rat" "18" "- int (length f)"] by (simp add: rate_value_def)
  show ?thesis
  proof (cases "18 \<le> length f")
    case True
    have "digits_value (i @ f) = digits_value (i @ take 18 f) * 10 ^ (length f - 18) + digits_value (drop 18 f)"
      using digits_value_append [of "i @ take 18 f" "drop 18 f"] by simp
    moreover have "digits_value (drop 18 f) < 10 ^ (length f - 18)"
      using digits_value_less [of "drop 18 f"] assms by (auto simp: list_all_iff dest: in_set_dropD)
    ultimately have "digits_value (i @ f) div 10 ^ (length f - 18) = digits_value (i @ take 18 f)"
      by simp
    then show ?thesis
      using True by (simp only: e floor_shift_right) (auto simp: combined_digits_def DECIMALS_def)
  next
    case False
    have "digits_value (i @ f @ replicate (18 - length f) CHR ''0'') = digits_value (i @ f) * 10 ^ (18 - length f)"
      using digits_value_append [of "i @ f" "replicate (18 - length f) CHR ''0''"] by simp
    then show ?thesis
      using False by (simp only: e floor_shift_right) (simp add: combined_digits_def DECIMALS_def)
  qed
qed

lemma combined_digits_ok: "list_all is_digit (i @ f) \<Longrightarrow> list_all is_digit (combined_digits i f)"
  by (auto simp: combined_digits_def list_all_iff dest: in_set_takeD)

lemma decimal_form_normal:
  assumes "decimal_form s i f k" and "\<bar>k\<bar> < 2 ^ 30" and "length s < 2 ^ 30"
  obtains n i' f' where "normalize_scientific_notation s = Ok n" and "mantissa_form n i' f'"
    and "rate_value i' f' 0 = rate_value i f k"
proof -
  obtain m where m: "mantissa_form m i f"
    and s: "s = m \<and> k = 0 \<or> (\<exists>c x. (c = CHR ''e'' \<or> c = CHR ''E'') \<and> s = m @ [c] @ x \<and> parse_i32 x = Some k)"
    using assms(1) unfolding decimal_form_def by blast
  from s show thesis
  proof
    assume plain: "s = m \<and> k = 0"
    then have "normalize_scientific_notation s = Ok m"
      using split_first_none [of m "\<lambda>c. c = CHR ''e'' \<or> c = CHR ''E''"] mantissa_no_e [OF m]
      by (simp add: normalize_scientific_notation_def)
    with plain m show thesis by (intro that) simp_all
  next
    assume "\<exists>c x. (c = CHR ''e'' \<or> c = CHR ''E'') \<and> s = m @ [c] @ x \<and> parse_i32 x = Some k"
    then obtain c x where cx: "c = CHR ''e'' \<or> c = CHR ''E''" "s = m @ c # x" "parse_i32 x = Some k"
      by auto
    have "length m < 2 ^ 30" using assms(3) unfolding cx(2) length_append by linarith
    then show thesis
      by (rule normalize_decimal [OF m cx(1,3) assms(2)]) (rule that, simp_all only: cx(2))
  qed
qed

lemma rate_to_scaled:
  assumes radix: "reads_decimal radix"
    and form: "decimal_form s i f k" "\<bar>k\<bar> < 2 ^ 30" "length s < 2 ^ 30"
  shows "rate_to_scaled_u256 radix s =
     (if \<lfloor>rate_value i f k * 10 ^ 18\<rfloor> < 2 ^ 256
      then Ok (word_of_int \<lfloor>rate_value i f k * 10 ^ 18\<rfloor>) else Err FormatError)"
proof -
  obtain n i' f' where n: "normalize_scientific_notation s = Ok n" "mantissa_form n i' f'"
    "rate_value i' f' 0 = rate_value i f k"
    by (rule decimal_form_normal [OF form])
  have digits: "list_all is_digit (i' @ f')" using n(2) by (simp add: mantissa_form_def)
  let ?c = "combined_digits i' f'"
  have val: "\<lfloor>rate_value i f k * 10 ^ 18\<rfloor> = int (digits_value ?c)"
    using combined_value [OF digits] n(3) by simp
  have "rate_to_scaled_u256 radix s =
      (if trim_start_zeros ?c = [] then Ok 0 else ok_or (radix (trim_start_zeros ?c)) FormatError)"
    using n(1) mantissa_split [OF n(2)]
    by (simp add: rate_to_scaled_u256_def Let_def combined_digits_def split del: if_split cong: if_cong)
  moreover have "radix (trim_start_zeros ?c) =
      (if digits_value ?c < 2 ^ 256 then Some (word_of_nat (digits_value ?c)) else None)"
    if "trim_start_zeros ?c \<noteq> []"
    using radix that trim_digits [OF combined_digits_ok [OF digits]] by (simp add: reads_decimal_def)
  ultimately show ?thesis
    using trim_Nil [of ?c] unfolding val by (auto simp: ok_or_def)
qed

section \<open>Precision\<close>

lemma convert_amount:
  assumes "rate_to_scaled_u256 radix s = Ok w"
  shows "convert_amount_with_rate radix amt s =
    (if unat amt * unat w < 2 ^ 256
     then Ok (word_of_nat (unat amt * unat w div 10 ^ 18)) else Err FormatError)"
proof -
  have "amt * w div 10 ^ 18 = (word_of_nat (unat amt * unat w div 10 ^ 18) :: u256)"
    if "unat amt * unat w < 2 ^ 256"
  proof (rule unsigned_word_eqI)
    have p: "unat (amt * w) = unat amt * unat w"
      using that by (simp add: unat_word_ariths)
    have "unat amt * unat w div 10 ^ 18 < (2 ^ 256 :: nat)"
      using that div_le_dividend le_less_trans by blast
    then show "unat (amt * w div 10 ^ 18) = unat (word_of_nat (unat amt * unat w div 10 ^ 18) :: u256)"
      by (simp add: unat_div p unsigned_of_nat take_bit_nat_eq_self)
  qed
  then show ?thesis
    using assms by (simp add: convert_amount_with_rate_def checked_mul_def checked_div_def ok_or_def)
qed

lemma two_floors:
  fixes a :: nat and r :: rat and n :: nat
  assumes "int n = \<lfloor>r * 10 ^ 18\<rfloor>"
  shows "of_nat (a * n div 10 ^ 18) \<le> of_nat a * r"
    and "of_nat a * r < of_nat (a * n div 10 ^ 18) + 1 + of_nat a / 10 ^ 18"
proof -
  have n: "of_nat n \<le> r * 10 ^ 18" "r * 10 ^ 18 < of_nat n + 1"
    using assms [symmetric] by (simp_all add: floor_eq_iff)
  define q where "q = a * n div 10 ^ 18"
  have q: "q * 10 ^ 18 \<le> a * n" "a * n < q * 10 ^ 18 + 10 ^ 18"
    by (simp_all add: q_def div_times_less_eq_dividend dividend_less_div_times)
  have q': "(of_nat q :: rat) * 10 ^ 18 \<le> of_nat a * of_nat n"
    "(of_nat a :: rat) * of_nat n < of_nat q * 10 ^ 18 + 10 ^ 18"
    using q [folded of_nat_le_iff [where 'a=rat] of_nat_less_iff [where 'a=rat]] by simp_all
  have "(of_nat a :: rat) * of_nat n \<le> of_nat a * (r * 10 ^ 18)"
    using n(1) by (intro mult_left_mono) simp_all
  with q'(1) show "of_nat (a * n div 10 ^ 18) \<le> of_nat a * r"
    unfolding q_def by simp
  have "of_nat a * (r * 10 ^ 18) \<le> of_nat a * (of_nat n + 1)"
    using n(2) by (intro mult_left_mono) simp_all
  with q'(2) have "of_nat a * r * 10 ^ 18 < (of_nat q + 1 + of_nat a / 10 ^ 18) * 10 ^ 18"
    by (simp add: algebra_simps)
  then have "of_nat a * r < of_nat q + 1 + of_nat a / 10 ^ 18"
    by (simp only: mult_less_cancel_right_pos zero_less_power zero_less_numeral)
  then show "of_nat a * r < of_nat (a * n div 10 ^ 18) + 1 + of_nat a / 10 ^ 18"
    unfolding q_def by simp
qed

text \<open>
  C23: Currency conversion is exact up to rounding. For a rate printed in decimal or scientific
  notation, the converted amount is the product of amount and rate, rounded down, and less than
  one unit plus the last of the 18 decimals kept of the rate away from it; it fails exactly when
  the scaled rate or the intermediate product does not fit into 256 bits.
\<close>

theorem conversion_exact:
  assumes "reads_decimal radix" and "decimal_form s i f k" and "\<bar>k\<bar> < 2 ^ 30" and "length s < 2 ^ 30"
  shows "if \<lfloor>rate_value i f k * 10 ^ 18\<rfloor> < 2 ^ 256
            \<and> int (unat amt) * \<lfloor>rate_value i f k * 10 ^ 18\<rfloor> < 2 ^ 256
         then \<exists>u. convert_amount_with_rate radix amt s = Ok u
            \<and> of_nat (unat u) \<le> of_nat (unat amt) * rate_value i f k
            \<and> of_nat (unat amt) * rate_value i f k < of_nat (unat u) + 1 + of_nat (unat amt) / 10 ^ 18
         else convert_amount_with_rate radix amt s = Err FormatError"
proof -
  let ?r = "\<lfloor>rate_value i f k * 10 ^ 18\<rfloor>"
  note scaled = rate_to_scaled [OF assms]
  have nonneg: "0 \<le> ?r"
    unfolding rate_value_def zero_le_floor by (intro mult_nonneg_nonneg zero_le_power_int) simp_all
  show ?thesis
  proof (cases "?r < 2 ^ 256")
    case False
    then show ?thesis using scaled by (simp only: convert_amount_with_rate_def if_False bind_res.simps simp_thms)
  next
    case True
    define w where "w = (word_of_int ?r :: u256)"
    have w: "int (unat w) = ?r"
      using nonneg True unfolding w_def by (simp add: unat_eq_nat_uint word_of_int_inverse uint_word_of_int)
    have "rate_to_scaled_u256 radix s = Ok w"
      using scaled True by (simp only: if_True w_def)
    note conv = convert_amount [OF this, of amt]
    have fits: "int (unat amt) * ?r < 2 ^ 256 \<longleftrightarrow> unat amt * unat w < 2 ^ 256"
      using of_nat_less_iff [where 'a=int, of "unat amt * unat w" "2 ^ 256"]
      unfolding w [symmetric] by simp
    show ?thesis
    proof (cases "unat amt * unat w < 2 ^ 256")
      case small: True
      then have "unat amt * unat w div 10 ^ 18 < (2 ^ 256 :: nat)"
        using div_le_dividend le_less_trans by blast
      then have u: "unat (word_of_nat (unat amt * unat w div 10 ^ 18) :: u256) = unat amt * unat w div 10 ^ 18"
        by (simp add: unsigned_of_nat take_bit_nat_eq_self)
      have "convert_amount_with_rate radix amt s = Ok (word_of_nat (unat amt * unat w div 10 ^ 18))"
        using conv small by (simp only: if_True)
      then show ?thesis
        unfolding fits using True small two_floors [OF w, of "unat amt"]
        by (simp only: u if_True simp_thms) (intro exI conjI, rule refl, simp_all only: u)
    next
      case False
      then show ?thesis
        unfolding fits using conv by (simp only: if_False simp_thms)
    qed
  qed
qed

theorem conversion_exact_witness:
  "if \<lfloor>rate_value ''1'' ''23'' (- 5) * 10 ^ 18\<rfloor> < 2 ^ 256
        \<and> int (unat (10 ^ 18 :: u256)) * \<lfloor>rate_value ''1'' ''23'' (- 5) * 10 ^ 18\<rfloor> < 2 ^ 256
     then \<exists>u. convert_amount_with_rate ex_radix (10 ^ 18) ''1.23e-5'' = Ok u
        \<and> of_nat (unat u) \<le> of_nat (unat (10 ^ 18 :: u256)) * rate_value ''1'' ''23'' (- 5)
        \<and> of_nat (unat (10 ^ 18 :: u256)) * rate_value ''1'' ''23'' (- 5)
            < of_nat (unat u) + 1 + of_nat (unat (10 ^ 18 :: u256)) / 10 ^ 18
     else convert_amount_with_rate ex_radix (10 ^ 18) ''1.23e-5'' = Err FormatError"
proof (rule conversion_exact)
  show "reads_decimal ex_radix" by (simp add: reads_decimal_def ex_radix_def)
  have k: "parse_i32 ''-5'' = Some (- 5)"
    by (simp add: parse_i32_def is_digit_def digits_value_def)
  have m: "mantissa_form ''1.23'' ''1'' ''23''"
    by (simp add: mantissa_form_def is_digit_def)
  have "\<exists>c x. (c = CHR ''e'' \<or> c = CHR ''E'') \<and> ''1.23e-5'' = ''1.23'' @ [c] @ x \<and> parse_i32 x = Some (- 5)"
    by (rule exI [of _ "CHR ''e''"], rule exI [of _ "''-5''"]) (simp add: k)
  then show "decimal_form ''1.23e-5'' ''1'' ''23'' (- 5)"
    unfolding decimal_form_def using m by blast
qed simp_all

end
