(* ===== verification/Ordered_Map.thy ===== *)
theory Ordered_Map
  imports Main "HOL-Library.List_Lexorder" "HOL-Library.Char_ord"
begin

text \<open>
  The ordered map of Rust's standard library, as far as the relayer uses it: insertion, extension
  and iteration in the order of the keys. Strings are ordered by their bytes.
\<close>

section \<open>Ordered maps\<close>

text \<open>
  A \<open>BTreeMap\<close> is its list of entries in the order of the keys. \<open>keyed_store\<close> is what its clients
  rely on: a lookup after an insertion, and an invariant that insertions keep.
\<close>

definition btree_insert :: "'k::linorder \<Rightarrow> 'v \<Rightarrow> ('k \<times> 'v) list \<Rightarrow> ('k \<times> 'v) list" where
  "btree_insert k v m = takeWhile (\<lambda>e. fst e < k) m @ (k, v) # dropWhile (\<lambda>e. fst e \<le> k) m"

definition btree_extend :: "('k::linorder \<times> 'v) list \<Rightarrow> ('k \<times> 'v) list \<Rightarrow> ('k \<times> 'v) list" where
  "btree_extend m es = fold (\<lambda>(k, v). btree_insert k v) es m"

definition btree_inv :: "('k::linorder \<times> 'v) list \<Rightarrow> bool" where
  "btree_inv m \<longleftrightarrow> sorted_wrt (<) (map fst m)"

section \<open>Laws of ordered maps\<close>

locale keyed_store =
  fixes lookup :: "'m \<Rightarrow> 'k \<Rightarrow> 'v option" and put :: "'k \<Rightarrow> 'v \<Rightarrow> 'm \<Rightarrow> 'm" and inv :: "'m \<Rightarrow> bool"
  assumes lookup_put: "inv m \<Longrightarrow> lookup (put k v m) = (lookup m)(k \<mapsto> v)"
    and inv_put: "inv m \<Longrightarrow> inv (put k v m)"
begin

lemma inv_fold: "inv m \<Longrightarrow> inv (fold (\<lambda>(k, v). put k v) es m)"
  by (induction es arbitrary: m) (auto simp: inv_put)

lemma lookup_fold: "inv m \<Longrightarrow> lookup (fold (\<lambda>(k, v). put k v) es m) = lookup m ++ map_of (rev es)"
  by (induction es arbitrary: m) (auto simp: inv_put lookup_put)

end

lemma sorted_fst_split:
  assumes "btree_inv m"
  shows "filter (\<lambda>e. fst e < k) m = takeWhile (\<lambda>e. fst e < k) m"
    and "filter (\<lambda>e. k < fst e) m = dropWhile (\<lambda>e. fst e \<le> k) m"
  using assms
proof (induction m)
  case (Cons e m)
  { case 1
    then have "\<forall>x \<in> set m. fst e < fst x" and "btree_inv m" by (auto simp: btree_inv_def)
    moreover from this have "\<not> fst e < k \<Longrightarrow> filter (\<lambda>e. fst e < k) m = []"
      by (auto simp: filter_empty_conv dest: order.strict_trans)
    ultimately show ?case using Cons(1) by auto
  next
    case 2
    then have "\<forall>x \<in> set m. fst e < fst x" and "btree_inv m" by (auto simp: btree_inv_def)
    moreover from this have "k < fst e \<Longrightarrow> filter (\<lambda>e. k < fst e) m = m"
      by (auto simp: filter_id_conv dest: order.strict_trans)
    ultimately show ?case using Cons(2) by (auto simp: not_less) }
qed simp_all

lemma btree_insert_filter:
  "btree_inv m \<Longrightarrow>
     btree_insert k v m = filter (\<lambda>e. fst e < k) m @ (k, v) # filter (\<lambda>e. k < fst e) m"
  by (simp add: btree_insert_def sorted_fst_split)

lemma map_of_filter_key:
  "map_of (filter (\<lambda>e. P (fst e)) m) x = (if P x then map_of m x else None)"
  by (induction m) auto

lemma btree_inv_insert: "btree_inv m \<Longrightarrow> btree_inv (btree_insert k v m)"
  by (auto simp: btree_insert_filter btree_inv_def sorted_wrt_append sorted_wrt_map sorted_wrt_filter)

lemma map_of_btree_insert: "btree_inv m \<Longrightarrow> map_of (btree_insert k v m) = (map_of m)(k \<mapsto> v)"
  using map_of_filter_key [of "\<lambda>x. x < k" m] map_of_filter_key [of "\<lambda>x. k < x" m]
  by (auto simp: btree_insert_filter map_add_def fun_eq_iff not_less split: option.splits)

interpretation btree: keyed_store map_of btree_insert btree_inv
  by unfold_locales (rule map_of_btree_insert btree_inv_insert, assumption)+

lemma btree_inv_Nil [simp]: "btree_inv []"
  by (simp add: btree_inv_def)

lemma btree_inv_distinct: "btree_inv m \<Longrightarrow> distinct (map fst m)"
  by (simp add: btree_inv_def strict_sorted_iff)

lemma set_btree_insert: "btree_inv m \<Longrightarrow> set (btree_insert k v m) = insert (k, v) {e \<in> set m. fst e \<noteq> k}"
  by (auto simp: btree_insert_filter)

lemma fst_set_btree_insert: "btree_inv m \<Longrightarrow> fst ` set (btree_insert k v m) = insert k (fst ` set m)"
  by (auto simp: set_btree_insert image_iff)

lemma btree_insert_ne [simp]: "btree_insert k v m \<noteq> []"
  by (simp add: btree_insert_def)

lemma fold_insert_ne: "m \<noteq> [] \<Longrightarrow> fold (\<lambda>e. btree_insert (fst e) (snd e)) es m \<noteq> []"
  by (induction es arbitrary: m) simp_all

lemma extend_ne: "m \<noteq> [] \<or> es \<noteq> [] \<Longrightarrow> btree_extend m es \<noteq> []"
  unfolding btree_extend_def case_prod_beta
  by (cases es) (simp_all add: fold_insert_ne)

end
