(* ===== verification/Price_Sources.thy ===== *)
theory Price_Sources
  imports Exchange_Rate Hook_Executor Ordered_Map "HOL-Library.Sublist"
begin

text \<open>
  Where prices come from (\<open>periodic/src/price_source\<close>): seven exchanges and rate services behind
  HTTP, and the Chainlink aggregators of the connected chains. The bodies of HTTP answers, the
  contracts' answers, \<open>parse_ether\<close> and the printing and multiplication of floating-point
  numbers are arguments; how an answer becomes a table of prices by symbol is the code's own.
\<close>

section \<open>Answers of the sources\<close>

type_synonym f64 = "64 word"

type_synonym tickers = "(string \<times> PriceResponse) list"

record BinanceResponse =
  bn_symbol :: string
  bn_lastPrice :: string
  bn_volume :: string

record GateioResponse =
  gt_currency_pair :: string
  gt_last :: string
  gt_base_volume :: string

record KucoinResponse =
  kc_last :: string
  kc_vol :: string

record CoinbaseResponse =
  cb_volume :: string
  cb_price :: string

text \<open>Upbit and Bithumb answer with records of the same shape; numbers are given by their bits.\<close>

record UpbitResponse =
  up_market :: string
  up_trade_price :: f64
  up_acc_trade_volume_24h :: f64

type_synonym BithumbResponse = UpbitResponse

record PriceEnv =
  px_parse_ether :: "string \<Rightarrow> u256 option"
  px_radix :: "string \<Rightarrow> u256 option"
  px_f64_to_string :: "f64 \<Rightarrow> string"
  px_f64_mul :: "f64 \<Rightarrow> f64 \<Rightarrow> f64"
  px_rates :: "string \<Rightarrow> json option"
  px_binance :: "string list \<Rightarrow> BinanceResponse list option"
  px_binance_one :: "string \<Rightarrow> BinanceResponse option"
  px_gateio :: "GateioResponse list option"
  px_gateio_pair :: "string \<Rightarrow> GateioResponse list option"
  px_kucoin :: "string \<Rightarrow> KucoinResponse option"
  px_coinbase :: "string \<Rightarrow> CoinbaseResponse option"
  px_upbit :: "string list \<Rightarrow> UpbitResponse list option"
  px_bithumb :: "string list \<Rightarrow> BithumbResponse list option"
  px_latest_round :: "chain_id \<Rightarrow> address \<Rightarrow> (u256 \<times> u256) res"
  px_decimals :: "chain_id \<Rightarrow> address \<Rightarrow> u8 res"
  px_now :: u64

definition parse_ether :: "PriceEnv \<Rightarrow> string \<Rightarrow> u256 res" where
  "parse_ether env s = ok_or (px_parse_ether env s) PriceUnavailable"

text \<open>\<open>str::replace\<close> and \<open>str::strip_prefix\<close> of the standard library.\<close>

function str_replace :: "string \<Rightarrow> string \<Rightarrow> string \<Rightarrow> string" where
  "str_replace pat new s =
     (if s = [] then []
      else if pat \<noteq> [] \<and> prefix pat s then new @ str_replace pat new (drop (length pat) s)
      else hd s # str_replace pat new (tl s))"
  by pat_completeness auto
termination
  by (relation "measure (\<lambda>(pat, new, s). length s)") auto

declare str_replace.simps [simp del]

definition str_strip_prefix :: "string \<Rightarrow> string \<Rightarrow> string option" where
  "str_strip_prefix pat s = (if prefix pat s then Some (drop (length pat) s) else None)"

section \<open>Modes\<close>

datatype FetchMode = Mode_Standard | Mode_Dedicated string

datatype PriceSource =
    Src_Binance | Src_Bithumb | Src_Chainlink | Src_Gateio | Src_Kucoin | Src_Upbit | Src_Coinbase
  | Src_ExchangeRate

datatype PriceFetchers =
    Binance | Bithumb | Chainlink "EthClient option" FetchMode | Gateio | Kucoin | Upbit | Coinbase
  | ExchangeRate FetchMode

definition PriceFetchers_new :: "PriceSource \<Rightarrow> EthClient option \<Rightarrow> FetchMode \<Rightarrow> PriceFetchers res" where
  "PriceFetchers_new exchange eth_client mode =
     (case exchange of
        Src_Binance \<Rightarrow> Ok Binance
      | Src_Bithumb \<Rightarrow> Ok Bithumb
      | Src_Chainlink \<Rightarrow> Ok (Chainlink eth_client mode)
      | Src_Gateio \<Rightarrow> Ok Gateio
      | Src_Kucoin \<Rightarrow> Ok Kucoin
      | Src_Upbit \<Rightarrow> Ok Upbit
      | Src_Coinbase \<Rightarrow> Ok Coinbase
      | Src_ExchangeRate \<Rightarrow> Ok (ExchangeRate mode))"

fun fetcher_mode :: "PriceFetchers \<Rightarrow> FetchMode" where
  "fetcher_mode (Chainlink c mode) = mode"
| "fetcher_mode (ExchangeRate mode) = mode"
| "fetcher_mode _ = Mode_Standard"

section \<open>The exchanges\<close>

definition binance_symbols :: "string list" where
  "binance_symbols = map (\<lambda>s. s @ ''USDT'') [''ETH'', ''BNB'', ''POL'', ''BTC'', ''WBTC'']"

fun binance_collect :: "PriceEnv \<Rightarrow> BinanceResponse list \<Rightarrow> tickers \<Rightarrow> tickers res" where
  "binance_collect env [] acc = Ok acc"
| "binance_collect env (t # ts) acc =
     bind_res (parse_ether env (bn_lastPrice t)) (\<lambda>price.
     bind_res (parse_ether env (bn_volume t)) (\<lambda>volume.
       let p = \<lparr>pr_price = price, pr_volume = volume\<rparr>
       in binance_collect env ts
            (if bn_symbol t = ''BTCUSDT'' then btree_insert ''BTC'' p (btree_insert ''BTCB'' p acc)
             else btree_insert (str_replace ''USDT'' [] (bn_symbol t)) p acc)))"

definition binance_get_tickers :: "PriceEnv \<Rightarrow> tickers res" where
  "binance_get_tickers env =
     bind_res (ok_or (px_binance env binance_symbols) PriceUnavailable) (\<lambda>response.
       binance_collect env response [])"

definition binance_get_ticker_with_symbol :: "PriceEnv \<Rightarrow> string \<Rightarrow> PriceResponse res" where
  "binance_get_ticker_with_symbol env symbol =
     bind_res (ok_or (px_binance_one env (symbol @ ''USDT'')) PriceUnavailable) (\<lambda>r.
     bind_res (parse_ether env (bn_lastPrice r)) (\<lambda>price.
     bind_res (parse_ether env (bn_volume r)) (\<lambda>volume.
       Ok \<lparr>pr_price = price, pr_volume = volume\<rparr>)))"

definition gateio_symbols :: "string list" where
  "gateio_symbols =
     map (\<lambda>s. if sublist ''BIFI'' s then s @ ''F_USDT'' else s @ ''_USDT'')
       [''ETH'', ''BFC'', ''BNB'', ''POL'', ''BIFI'']"

text \<open>Numbers that do not parse are unwrapped, so a malformed answer panics.\<close>

fun gateio_collect :: "PriceEnv \<Rightarrow> GateioResponse list \<Rightarrow> tickers \<Rightarrow> tickers res" where
  "gateio_collect env [] acc = Ok acc"
| "gateio_collect env (t # ts) acc =
     (if gt_currency_pair t \<in> set gateio_symbols
      then bind_res (unwrap (px_parse_ether env (gt_last t))) (\<lambda>price.
           bind_res (unwrap (px_parse_ether env (gt_base_volume t))) (\<lambda>volume.
             gateio_collect env ts
               (btree_insert
                 (str_replace ''_USDT'' [] (str_replace ''BIFIF_USDT'' ''BIFI'' (gt_currency_pair t)))
                 \<lparr>pr_price = price, pr_volume = volume\<rparr> acc)))
      else gateio_collect env ts acc)"

definition gateio_get_tickers :: "PriceEnv \<Rightarrow> tickers res" where
  "gateio_get_tickers env =
     bind_res (ok_or (px_gateio env) PriceUnavailable) (\<lambda>response. gateio_collect env response [])"

definition gateio_get_ticker_with_symbol :: "PriceEnv \<Rightarrow> string \<Rightarrow> PriceResponse res" where
  "gateio_get_ticker_with_symbol env symbol =
     bind_res (ok_or (px_gateio_pair env (symbol @ ''_USDT'')) PriceUnavailable) (\<lambda>response.
     bind_res (vec_index response 0) (\<lambda>r.
     bind_res (unwrap (px_parse_ether env (gt_last r))) (\<lambda>price.
     bind_res (unwrap (px_parse_ether env (gt_base_volume r))) (\<lambda>volume.
       Ok \<lparr>pr_price = price, pr_volume = volume\<rparr>))))"

definition kucoin_symbols :: "string list" where
  "kucoin_symbols = [''ETH'', ''BFC'', ''BNB'', ''POL'']"

definition kucoin_get_ticker_with_symbol :: "PriceEnv \<Rightarrow> string \<Rightarrow> PriceResponse res" where
  "kucoin_get_ticker_with_symbol env symbol =
     bind_res (ok_or (px_kucoin env (symbol @ ''-USDT'')) PriceUnavailable) (\<lambda>r.
     bind_res (parse_ether env (kc_last r)) (\<lambda>price.
     bind_res (parse_ether env (kc_vol r)) (\<lambda>volume.
       Ok \<lparr>pr_price = price, pr_volume = volume\<rparr>)))"

fun kucoin_collect :: "PriceEnv \<Rightarrow> string list \<Rightarrow> tickers \<Rightarrow> tickers res" where
  "kucoin_collect env [] acc = Ok acc"
| "kucoin_collect env (symbol # rest) acc =
     bind_res (kucoin_get_ticker_with_symbol env symbol) (\<lambda>p.
       kucoin_collect env rest (btree_insert symbol p acc))"

definition kucoin_get_tickers :: "PriceEnv \<Rightarrow> tickers res" where
  "kucoin_get_tickers env = kucoin_collect env kucoin_symbols []"

definition coinbase_symbols :: "string list" where
  "coinbase_symbols = [''ETH'', ''BNB'', ''POL'', ''BTC'']"

text \<open>Symbols without a usable answer are skipped.\<close>

definition coinbase_insert :: "PriceEnv \<Rightarrow> string \<Rightarrow> tickers \<Rightarrow> tickers" where
  "coinbase_insert env symbol acc =
     (case px_coinbase env symbol of
        None \<Rightarrow> acc
      | Some r \<Rightarrow>
          (case (px_parse_ether env (cb_price r), px_parse_ether env (cb_volume r)) of
             (Some price, Some volume) \<Rightarrow>
               (let p = \<lparr>pr_price = price, pr_volume = volume\<rparr>
                in if symbol = ''BTC'' then btree_insert ''CBBTC'' p (btree_insert symbol p acc)
                   else btree_insert symbol p acc)
           | _ \<Rightarrow> acc))"

definition coinbase_get_tickers :: "PriceEnv \<Rightarrow> tickers res" where
  "coinbase_get_tickers env = Ok (fold (coinbase_insert env) coinbase_symbols [])"

definition coinbase_get_ticker_with_symbol :: "PriceEnv \<Rightarrow> string \<Rightarrow> PriceResponse res" where
  "coinbase_get_ticker_with_symbol env symbol =
     bind_res (ok_or (px_coinbase env symbol) PriceUnavailable) (\<lambda>r.
     bind_res (parse_ether env (cb_price r)) (\<lambda>price.
     bind_res (parse_ether env (cb_volume r)) (\<lambda>volume.
       Ok \<lparr>pr_price = price, pr_volume = volume\<rparr>)))"

definition upbit_market :: "string \<Rightarrow> string" where
  "upbit_market s = (if sublist ''BFC'' s then ''BTC-'' @ s else ''KRW-'' @ s)"

definition upbit_symbols :: "string list" where
  "upbit_symbols = map upbit_market [''ETH'', ''BFC'', ''POL'', ''BTC'']"

definition krw_to_usd :: "PriceEnv \<Rightarrow> u256 \<Rightarrow> u256 res" where
  "krw_to_usd env = convert_currency_to_usd (px_radix env) (px_rates env) ''krw''"

definition btc_to_krw :: "PriceEnv \<Rightarrow> f64 \<Rightarrow> u256 res" where
  "btc_to_krw env btc_amount =
     bind_res (ok_or (px_upbit env [''KRW-BTC'']) PriceUnavailable) (\<lambda>response.
     bind_res (vec_index response 0) (\<lambda>r.
       parse_ether env (px_f64_to_string env (px_f64_mul env (up_trade_price r) btc_amount))))"

text \<open>A volume is unwrapped only once a USD price is known; an unknown market is \<open>unimplemented!\<close>.\<close>

definition upbit_format_response :: "PriceEnv \<Rightarrow> UpbitResponse \<Rightarrow> (string \<times> PriceResponse) res" where
  "upbit_format_response env r =
     (let finish = (\<lambda>symbol usd.
            bind_res (unwrap (px_parse_ether env (px_f64_to_string env (up_acc_trade_volume_24h r)))) (\<lambda>volume.
              Ok (symbol, \<lparr>pr_price = usd, pr_volume = volume\<rparr>)))
      in if sublist ''KRW-'' (up_market r)
         then bind_res (unwrap (px_parse_ether env (px_f64_to_string env (up_trade_price r)))) (\<lambda>amt.
              bind_res (krw_to_usd env amt) (\<lambda>usd. finish (str_replace ''KRW-'' [] (up_market r)) usd))
         else if sublist ''BTC-'' (up_market r)
         then bind_res (btc_to_krw env (up_trade_price r)) (\<lambda>krw.
              bind_res (krw_to_usd env krw) (\<lambda>usd. finish (str_replace ''BTC-'' [] (up_market r)) usd))
         else Panic)"

text \<open>Responses that do not convert are skipped, panics are not.\<close>

fun collect_ok :: "('r \<Rightarrow> (string \<times> PriceResponse) res) \<Rightarrow> 'r list \<Rightarrow> tickers \<Rightarrow> tickers res" where
  "collect_ok f [] acc = Ok acc"
| "collect_ok f (r # rs) acc =
     (case f r of
        Ok (symbol, p) \<Rightarrow> collect_ok f rs (btree_insert symbol p acc)
      | Err e \<Rightarrow> collect_ok f rs acc
      | Panic \<Rightarrow> Panic)"

definition upbit_get_tickers :: "PriceEnv \<Rightarrow> tickers res" where
  "upbit_get_tickers env =
     bind_res (ok_or (px_upbit env upbit_symbols) PriceUnavailable) (\<lambda>responses.
       collect_ok (upbit_format_response env) responses [])"

definition upbit_get_ticker_with_symbol :: "PriceEnv \<Rightarrow> string \<Rightarrow> PriceResponse res" where
  "upbit_get_ticker_with_symbol env symbol =
     bind_res (ok_or (px_upbit env [upbit_market symbol]) PriceUnavailable) (\<lambda>responses.
     bind_res (vec_index responses 0) (\<lambda>r.
     bind_res (upbit_format_response env r) (\<lambda>(_, p). Ok p)))"

definition bithumb_symbols :: "string list" where
  "bithumb_symbols = map (\<lambda>s. ''KRW-'' @ s) [''BFC'', ''BTC'', ''ETH'', ''BNB'', ''POL'']"

definition bithumb_format_response :: "PriceEnv \<Rightarrow> BithumbResponse \<Rightarrow> (string \<times> PriceResponse) res" where
  "bithumb_format_response env r =
     (let symbol = (case str_strip_prefix ''KRW-'' (up_market r) of Some s \<Rightarrow> s | None \<Rightarrow> up_market r)
      in bind_res (parse_ether env (px_f64_to_string env (up_trade_price r))) (\<lambda>krw_price.
         bind_res (krw_to_usd env krw_price) (\<lambda>usd_price.
         bind_res (parse_ether env (px_f64_to_string env (up_acc_trade_volume_24h r))) (\<lambda>volume.
           Ok (symbol, \<lparr>pr_price = usd_price, pr_volume = volume\<rparr>)))))"

definition bithumb_get_tickers :: "PriceEnv \<Rightarrow> tickers res" where
  "bithumb_get_tickers env =
     bind_res (ok_or (px_bithumb env bithumb_symbols) PriceUnavailable) (\<lambda>responses.
       collect_ok (bithumb_format_response env) responses [])"

definition bithumb_get_ticker_with_symbol :: "PriceEnv \<Rightarrow> string \<Rightarrow> PriceResponse res" where
  "bithumb_get_ticker_with_symbol env symbol =
     bind_res (ok_or (px_bithumb env [''KRW-'' @ symbol]) PriceUnavailable) (\<lambda>responses.
     bind_res (vec_index responses 0) (\<lambda>r.
     bind_res (bithumb_format_response env r) (\<lambda>(_, p). Ok p)))"

section \<open>The exchange-rate source\<close>

definition supported_coins :: "(string \<times> string) list" where
  "supported_coins = [(''JPYC'', ''jpy'')]"

definition get_currency_from_symbol :: "string \<Rightarrow> string res" where
  "get_currency_from_symbol symbol = unwrap (map_of supported_coins symbol)"

definition rate_get_ticker_with_symbol :: "PriceEnv \<Rightarrow> string \<Rightarrow> PriceResponse res" where
  "rate_get_ticker_with_symbol env symbol =
     bind_res (get_currency_from_symbol symbol) (\<lambda>currency.
       case convert_currency_to_usd (px_radix env) (px_rates env) currency (10 ^ 18) of
         Ok price \<Rightarrow> Ok \<lparr>pr_price = price, pr_volume = 0\<rparr>
       | Err e \<Rightarrow> Err PriceUnavailable
       | Panic \<Rightarrow> Panic)"

fun rate_collect :: "PriceEnv \<Rightarrow> string list \<Rightarrow> tickers \<Rightarrow> tickers res" where
  "rate_collect env [] acc = Ok acc"
| "rate_collect env (symbol # rest) acc =
     bind_res (rate_get_ticker_with_symbol env symbol) (\<lambda>p. rate_collect env rest (btree_insert symbol p acc))"

definition rate_get_tickers :: "PriceEnv \<Rightarrow> FetchMode \<Rightarrow> tickers res" where
  "rate_get_tickers env mode =
     (case mode of
        Mode_Standard \<Rightarrow> rate_collect env (map fst supported_coins) []
      | Mode_Dedicated symbol \<Rightarrow> rate_collect env [symbol] [])"

section \<open>Chainlink\<close>

definition CHAINLINK_STALENESS_THRESHOLD_STABLE :: u64 where
  "CHAINLINK_STALENESS_THRESHOLD_STABLE = 86400"

definition get_chainlink_volume_weight :: "string \<Rightarrow> u256 res" where
  "get_chainlink_volume_weight symbol =
     (if symbol \<in> {''USDC'', ''USDT'', ''DAI'', ''JPYC''} then Ok 1
      else if symbol \<in> {''BTC'', ''WBTC'', ''CBBTC''} then Ok (10000 * 10 ^ 18)
      else Err PriceUnavailable)"

definition get_staleness_threshold :: "string \<Rightarrow> u64" where
  "get_staleness_threshold symbol =
     (if symbol \<in> {''USDC'', ''USDT'', ''DAI'', ''JPYC''} then CHAINLINK_STALENESS_THRESHOLD_STABLE
      else CHAINLINK_STALENESS_THRESHOLD_VOLATILE)"

definition chainlink_contract :: "AggregatorContracts \<Rightarrow> string \<Rightarrow> address option" where
  "chainlink_contract a symbol =
     (if symbol = ''USDC'' then chainlink_usdc_usd a
      else if symbol = ''USDT'' then chainlink_usdt_usd a
      else if symbol = ''DAI'' then chainlink_dai_usd a
      else if symbol = ''BTC'' then chainlink_btc_usd a
      else if symbol = ''WBTC'' then chainlink_wbtc_usd a
      else if symbol = ''CBBTC'' then chainlink_cbbtc_usd a
      else if symbol = ''JPYC'' then chainlink_jpy_usd a
      else None)"

text \<open>
  The signed answer is read as its raw bits. The scale \<open>10 ^ (18 - decimals)\<close> is computed with an
  8-bit exponent and in 128 bits; both wrap.
\<close>

definition chainlink_get_ticker_with_symbol ::
    "PriceEnv \<Rightarrow> EthClient option \<Rightarrow> string \<Rightarrow> PriceResponse res" where
  "chainlink_get_ticker_with_symbol env client symbol =
     bind_res (ok_or client PriceUnavailable) (\<lambda>c.
     bind_res (ok_or (chainlink_contract (aggregator_contracts c) symbol) PriceUnavailable) (\<lambda>contract.
     bind_res (px_latest_round env (client_chain_id c) contract) (\<lambda>(price, updated_at).
       let updated_at_secs = (if unat updated_at < 2 ^ 64 then ucast updated_at else 0);
           staleness = saturating_sub (px_now env) updated_at_secs
       in if staleness > get_staleness_threshold symbol then Err PriceUnavailable
          else bind_res (px_decimals env (client_chain_id c) contract) (\<lambda>decimals.
               bind_res (get_chainlink_volume_weight symbol) (\<lambda>volume.
                 Ok \<lparr>pr_price = price * ucast ((10 :: u128) ^ unat (18 - decimals)), pr_volume = volume\<rparr>)))))"

fun chainlink_collect :: "PriceEnv \<Rightarrow> EthClient option \<Rightarrow> string list \<Rightarrow> tickers \<Rightarrow> tickers res" where
  "chainlink_collect env c [] acc = Ok acc"
| "chainlink_collect env c (symbol # rest) acc =
     (case chainlink_get_ticker_with_symbol env c symbol of
        Ok p \<Rightarrow> chainlink_collect env c rest (btree_insert symbol p acc)
      | Err e \<Rightarrow> chainlink_collect env c rest acc
      | Panic \<Rightarrow> Panic)"

definition chainlink_get_tickers :: "PriceEnv \<Rightarrow> EthClient option \<Rightarrow> FetchMode \<Rightarrow> tickers res" where
  "chainlink_get_tickers env c mode =
     bind_res
       (case mode of
          Mode_Standard \<Rightarrow>
            chainlink_collect env c [''USDC'', ''USDT'', ''DAI'', ''BTC'', ''WBTC'', ''CBBTC''] []
        | Mode_Dedicated symbol \<Rightarrow>
            (case chainlink_get_ticker_with_symbol env c symbol of
               Ok p \<Rightarrow> Ok (btree_insert symbol p [])
             | Err e \<Rightarrow> Err PriceUnavailable
             | Panic \<Rightarrow> Panic))
       (\<lambda>found. if found = [] then Err PriceUnavailable else Ok found)"

section \<open>All sources behind one name\<close>

definition get_tickers :: "PriceEnv \<Rightarrow> PriceFetchers \<Rightarrow> tickers res" where
  "get_tickers env f =
     (case f of
        Binance \<Rightarrow> binance_get_tickers env
      | Bithumb \<Rightarrow> bithumb_get_tickers env
      | Chainlink c mode \<Rightarrow> chainlink_get_tickers env c mode
      | Gateio \<Rightarrow> gateio_get_tickers env
      | Kucoin \<Rightarrow> kucoin_get_tickers env
      | Upbit \<Rightarrow> upbit_get_tickers env
      | Coinbase \<Rightarrow> coinbase_get_tickers env
      | ExchangeRate mode \<Rightarrow> rate_get_tickers env mode)"

definition get_ticker_with_symbol :: "PriceEnv \<Rightarrow> PriceFetchers \<Rightarrow> string \<Rightarrow> PriceResponse res" where
  "get_ticker_with_symbol env f symbol =
     (case f of
        Binance \<Rightarrow> binance_get_ticker_with_symbol env symbol
      | Bithumb \<Rightarrow> bithumb_get_ticker_with_symbol env symbol
      | Chainlink c mode \<Rightarrow> chainlink_get_ticker_with_symbol env c symbol
      | Gateio \<Rightarrow> gateio_get_ticker_with_symbol env symbol
      | Kucoin \<Rightarrow> kucoin_get_ticker_with_symbol env symbol
      | Upbit \<Rightarrow> upbit_get_ticker_with_symbol env symbol
      | Coinbase \<Rightarrow> coinbase_get_ticker_with_symbol env symbol
      | ExchangeRate mode \<Rightarrow> rate_get_ticker_with_symbol env symbol)"

section \<open>One ticker and all tickers\<close>

text \<open>
  The sources that ask once per symbol list, for each symbol, the answer to its own query; only
  Coinbase's copy of bitcoin under another name has no query.
\<close>

lemma btree_lookup_insert:
  "btree_inv m \<Longrightarrow> map_of (btree_insert k v m) s = Some p \<Longrightarrow> s = k \<and> p = v \<or> map_of m s = Some p"
  by (simp add: map_of_btree_insert split: if_splits)

text \<open>A loop over symbols that enters the answer to each query, or nothing.\<close>

locale ticker_loop =
  fixes query :: "string \<Rightarrow> PriceResponse res"
    and collect :: "string list \<Rightarrow> tickers \<Rightarrow> tickers res"
  assumes collect_Nil: "collect [] acc = Ok acc"
    and collect_Cons: "collect (k # rest) acc = Ok m \<Longrightarrow>
      collect rest acc = Ok m \<or> (\<exists>q. query k = Ok q \<and> collect rest (btree_insert k q acc) = Ok m)"
begin

lemma lookup:
  assumes "collect symbols acc = Ok m" and "btree_inv acc" and "map_of m s = Some p"
  shows "map_of acc s = Some p \<or> query s = Ok p"
  using assms
proof (induction symbols arbitrary: acc)
  case Nil
  then show ?case by (simp add: collect_Nil)
next
  case (Cons k rest)
  from collect_Cons [OF Cons.prems(1)] show ?case
  proof (elim disjE exE conjE)
    assume "collect rest acc = Ok m"
    then show ?thesis using Cons by blast
  next
    fix q
    assume q: "query k = Ok q" "collect rest (btree_insert k q acc) = Ok m"
    from Cons.IH [OF q(2) btree_inv_insert [OF Cons.prems(2)] Cons.prems(3)] show ?thesis
      using btree_lookup_insert [OF Cons.prems(2)] q(1) by blast
  qed
qed

end

interpretation kucoin: ticker_loop "kucoin_get_ticker_with_symbol env" "kucoin_collect env" for env
  by unfold_locales (auto simp: bind_res_Ok_iff)

interpretation rates: ticker_loop "rate_get_ticker_with_symbol env" "rate_collect env" for env
  by unfold_locales (auto simp: bind_res_Ok_iff)

interpretation feeds: ticker_loop "chainlink_get_ticker_with_symbol env c" "chainlink_collect env c" for env c
  by unfold_locales (auto split: res.splits)

lemma coinbase_insert_cases:
  "coinbase_insert env k acc = acc
   \<or> (\<exists>q. coinbase_get_ticker_with_symbol env k = Ok q
          \<and> coinbase_insert env k acc =
              (if k = ''BTC'' then btree_insert ''CBBTC'' q (btree_insert k q acc) else btree_insert k q acc))"
  by (auto simp: coinbase_insert_def coinbase_get_ticker_with_symbol_def parse_ether_def ok_or_def Let_def
      split: option.splits)

lemma coinbase_insert_lookup:
  assumes "btree_inv acc" and "map_of (coinbase_insert env k acc) s = Some p" and "s \<noteq> ''CBBTC''"
  shows "map_of acc s = Some p \<or> coinbase_get_ticker_with_symbol env s = Ok p"
  using coinbase_insert_cases [of env k acc] assms
  by (elim disjE exE conjE) (simp_all add: map_of_btree_insert btree_inv_insert split: if_splits)

lemma coinbase_insert_inv: "btree_inv acc \<Longrightarrow> btree_inv (coinbase_insert env k acc)"
  using coinbase_insert_cases [of env k acc]
  by (elim disjE exE conjE) (simp_all add: btree_inv_insert split: if_splits)

lemma coinbase_lookup:
  assumes "btree_inv acc" and "map_of (fold (coinbase_insert env) symbols acc) s = Some p" and "s \<noteq> ''CBBTC''"
  shows "map_of acc s = Some p \<or> coinbase_get_ticker_with_symbol env s = Ok p"
  using assms
proof (induction symbols arbitrary: acc)
  case (Cons k rest)
  have "map_of (coinbase_insert env k acc) s = Some p \<or> coinbase_get_ticker_with_symbol env s = Ok p"
    using Cons.IH [OF coinbase_insert_inv [OF Cons.prems(1)] _ Cons.prems(3)] Cons.prems(2) by simp
  then show ?case
    using coinbase_insert_lookup [OF Cons.prems(1) _ Cons.prems(3)] by (elim disjE) simp_all
qed simp

lemma chainlink_lookup:
  assumes "chainlink_get_tickers env c mode = Ok m" and "map_of m s = Some p"
  shows "chainlink_get_ticker_with_symbol env c s = Ok p"
proof (cases mode)
  case Mode_Standard
  then have "chainlink_collect env c [''USDC'', ''USDT'', ''DAI'', ''BTC'', ''WBTC'', ''CBBTC''] [] = Ok m"
    using assms(1) unfolding chainlink_get_tickers_def bind_res_Ok_iff
    by (simp only: FetchMode.case) (metis res.distinct(1) res.inject(1))
  from feeds.lookup [OF this btree_inv_Nil assms(2)] show ?thesis by simp
next
  case (Mode_Dedicated symbol)
  then obtain q where "chainlink_get_ticker_with_symbol env c symbol = Ok q" and "m = btree_insert symbol q []"
    using assms(1) unfolding chainlink_get_tickers_def
    by (cases "chainlink_get_ticker_with_symbol env c symbol") simp_all
  then show ?thesis
    using assms(2) by (simp add: map_of_btree_insert split: if_splits)
qed

lemma tickers_agree:
  assumes "get_tickers env f = Ok m" and "map_of m s = Some p"
    and "f = Kucoin \<or> f = Coinbase \<and> s \<noteq> ''CBBTC'' \<or> f = Chainlink c mode \<or> f = ExchangeRate mode"
  shows "get_ticker_with_symbol env f s = Ok p"
  using assms(3)
proof (elim disjE conjE)
  assume "f = Kucoin"
  then show ?thesis
    using assms(1,2) kucoin.lookup [of env kucoin_symbols "[]" m s p]
    by (simp add: get_tickers_def kucoin_get_tickers_def get_ticker_with_symbol_def)
next
  assume "f = Coinbase" and "s \<noteq> ''CBBTC''"
  then show ?thesis
    using assms(1,2) coinbase_lookup [of "[]" env coinbase_symbols s p]
    by (simp add: get_tickers_def coinbase_get_tickers_def get_ticker_with_symbol_def)
next
  assume f: "f = Chainlink c mode"
  then have "chainlink_get_tickers env c mode = Ok m" using assms(1) by (simp add: get_tickers_def)
  then have "chainlink_get_ticker_with_symbol env c s = Ok p"
    by (rule chainlink_lookup [OF _ assms(2)])
  with f show ?thesis by (simp add: get_ticker_with_symbol_def)
next
  assume f: "f = ExchangeRate mode"
  show ?thesis
    using assms(1,2) f rates.lookup [of env "map fst supported_coins" "[]" m s p]
      rates.lookup [of env "[x]" "[]" m s p for x]
    by (cases mode) (simp_all add: get_tickers_def rate_get_tickers_def get_ticker_with_symbol_def
        del: rate_collect.simps(2))
qed

section \<open>Answers that are not checked\<close>

text \<open>
  A negative answer of an aggregator is read as a huge price, and a malformed number of Gate.io
  panics instead of being skipped.
\<close>

lemma chainlink_negative_answer:
  assumes "chainlink_contract (aggregator_contracts c) ''BTC'' = Some a"
    and "px_latest_round env (client_chain_id c) a = Ok (- 1, updated_at)"
    and "unat updated_at < 2 ^ 64" and "saturating_sub (px_now env) (ucast updated_at) \<le> 3600"
    and "px_decimals env (client_chain_id c) a = Ok 18"
  shows "chainlink_get_ticker_with_symbol env (Some c) ''BTC'' = Ok \<lparr>pr_price = - 1, pr_volume = 10000 * 10 ^ 18\<rparr>"
  using assms
  by (simp add: chainlink_get_ticker_with_symbol_def ok_or_def Let_def not_less
      get_staleness_threshold_def CHAINLINK_STALENESS_THRESHOLD_VOLATILE_def get_chainlink_volume_weight_def)

lemma gateio_malformed_panics:
  assumes "px_gateio env = Some [\<lparr>gt_currency_pair = ''ETH_USDT'', gt_last = x, gt_base_volume = y\<rparr>]"
    and "px_parse_ether env x = None"
  shows "gateio_get_tickers env = Panic"
  using assms by (simp add: gateio_get_tickers_def gateio_symbols_def ok_or_def sublist_code)

end
