(* ===== verification/Price_Oracle.thy ===== *)
theory Price_Oracle
  imports Price_Sources
begin

text \<open>
  The price workers (\<open>periodic/src/price_feeder.rs\<close>, \<open>price_deviation_checker.rs\<close>): both average
  the prices of the sources by traded volume; the feeder writes all prices to the oracle on a
  schedule, the checker only those that moved away from the price on chain.
\<close>

section \<open>Assets\<close>

definition asset_oid :: "nat \<Rightarrow> b256" where
  "asset_oid n = 0x0100010000000000000000000000000000000000000000000000000000000000 + word_of_nat n"

definition get_asset_oids :: "(string \<times> b256) list" where
  "get_asset_oids =
     [(''BFC'', asset_oid 1), (''BIFI'', asset_oid 2), (''BTC'', asset_oid 3), (''ETH'', asset_oid 4),
      (''BNB'', asset_oid 5), (''POL'', asset_oid 6), (''USDC'', asset_oid 8), (''USDT'', asset_oid 10),
      (''DAI'', asset_oid 11), (''BTCB'', asset_oid 12), (''WBTC'', asset_oid 13),
      (''CBBTC'', asset_oid 14), (''JPYC'', asset_oid 15)]"

section \<open>State and surroundings\<close>

record OraclePriceFeeder =
  dedicated_source :: "PriceFetchers option"
  market_sources :: "PriceFetchers list"

record OracleEnv =
  ov_client :: EthClient
  ov_clients :: "EthClient list"
  ov_selected :: "address \<Rightarrow> bool res"
  ov_prices :: PriceEnv
  ov_orc_manager :: "address option"
  ov_last_oracle_data :: "b256 \<Rightarrow> u256 option"
  ov_sync_answer :: "unit res"

definition exchange_sources :: "PriceSource list" where
  "exchange_sources = [Src_Binance, Src_Bithumb, Src_Gateio, Src_Kucoin, Src_Upbit, Src_Coinbase]"

definition add_source :: "PriceSource \<Rightarrow> EthClient option \<Rightarrow> FetchMode \<Rightarrow> PriceFetchers list" where
  "add_source exchange c mode =
     (case PriceFetchers_new exchange c mode of Ok f \<Rightarrow> [f] | _ \<Rightarrow> [])"

definition has_any_chainlink_feeds :: "AggregatorContracts \<Rightarrow> bool" where
  "has_any_chainlink_feeds a \<longleftrightarrow>
     (\<exists>s \<in> {''USDC'', ''USDT'', ''DAI'', ''BTC'', ''WBTC'', ''CBBTC''}. chainlink_contract a s \<noteq> None)"

definition has_chainlink_feed :: "AggregatorContracts \<Rightarrow> string \<Rightarrow> bool" where
  "has_chainlink_feed a symbol \<longleftrightarrow> chainlink_contract a symbol \<noteq> None"

definition initialize_fetchers :: "OracleEnv \<Rightarrow> OraclePriceFeeder \<Rightarrow> OraclePriceFeeder" where
  "initialize_fetchers env st =
     \<lparr>dedicated_source =
        (case PriceFetchers_new Src_ExchangeRate None (Mode_Dedicated ''JPYC'') of
           Ok f \<Rightarrow> Some f | _ \<Rightarrow> dedicated_source st),
      market_sources =
        market_sources st
        @ concat (map (\<lambda>s. add_source s None Mode_Standard) exchange_sources)
        @ concat (map (\<lambda>c.
            (if has_any_chainlink_feeds (aggregator_contracts c)
             then add_source Src_Chainlink (Some c) Mode_Standard else [])
            @ (if has_chainlink_feed (aggregator_contracts c) ''JPYC''
               then add_source Src_Chainlink (Some c) (Mode_Dedicated ''JPYC'') else []))
            (ov_clients env))\<rparr>"

section \<open>Volume-weighted averages\<close>

text \<open>Failed sources are left out; \<open>join_all\<close> does not survive a panic of one.\<close>

fun gather :: "PriceEnv \<Rightarrow> PriceFetchers list \<Rightarrow> tickers list res" where
  "gather env [] = Ok []"
| "gather env (f # fs) =
     (case get_tickers env f of
        Ok t \<Rightarrow> bind_res (gather env fs) (\<lambda>ts. Ok (t # ts))
      | Err e \<Rightarrow> gather env fs
      | Panic \<Rightarrow> Panic)"

definition vwap_add ::
    "string \<times> PriceResponse \<Rightarrow> (string \<times> u256 \<times> u256) list \<Rightarrow> (string \<times> u256 \<times> u256) list" where
  "vwap_add = (\<lambda>(symbol, r) acc.
     if pr_volume r = 0 then acc
     else case map_of acc symbol of
            Some (weighted, total_volume) \<Rightarrow>
              btree_insert symbol (weighted + pr_price r * pr_volume r, total_volume + pr_volume r) acc
          | None \<Rightarrow> btree_insert symbol (pr_price r * pr_volume r, pr_volume r) acc)"

definition vwap_accumulate :: "tickers list \<Rightarrow> (string \<times> u256 \<times> u256) list" where
  "vwap_accumulate ts = fold vwap_add (concat ts) []"

text \<open>The division panics for a total of zero, which a wrapped sum could be.\<close>

definition vwap_divide :: "(string \<times> u256 \<times> u256) list \<Rightarrow> tickers res" where
  "vwap_divide = traverse_res (\<lambda>(symbol, weighted, total_volume).
     if total_volume = 0 then Panic else Ok (symbol, \<lparr>pr_price = weighted div total_volume, pr_volume = total_volume\<rparr>))"

definition stable_default ::
    "PriceEnv \<Rightarrow> string \<Rightarrow> (string \<times> u256 \<times> u256) list \<Rightarrow> (string \<times> u256 \<times> u256) list res" where
  "stable_default env symbol acc =
     (if map_of acc symbol \<noteq> None then Ok acc
      else bind_res (unwrap (px_parse_ether env ''1'')) (\<lambda>one. Ok (btree_insert symbol (one, 1) acc)))"

definition feeder_fetch_vwap_prices :: "OracleEnv \<Rightarrow> OraclePriceFeeder \<Rightarrow> FetchMode \<Rightarrow> tickers res" where
  "feeder_fetch_vwap_prices env st mode =
     bind_res (gather (ov_prices env) (filter (\<lambda>f. fetcher_mode f = mode) (market_sources st))) (\<lambda>results.
       let volume_weighted = vwap_accumulate results
       in if volume_weighted = [] then Err PriceUnavailable
          else bind_res
            (case mode of
               Mode_Standard \<Rightarrow>
                 bind_res (stable_default (ov_prices env) ''USDC'' volume_weighted) (\<lambda>a.
                 bind_res (stable_default (ov_prices env) ''USDT'' a)
                   (stable_default (ov_prices env) ''DAI''))
             | Mode_Dedicated _ \<Rightarrow> Ok volume_weighted)
            vwap_divide)"

section \<open>The feeder\<close>

definition feed_request :: "OracleEnv \<Rightarrow> b256 list \<Rightarrow> b256 list \<Rightarrow> TxRequest" where
  "feed_request env oids prices =
     \<lparr>tx_to = socket (protocol_contracts (ov_client env)), tx_from = None,
      tx_call = OracleAggregateFeeding oids prices, tx_gas_limit = None\<rparr>"

definition build_and_send_transaction :: "OracleEnv \<Rightarrow> tickers \<Rightarrow> (effect, unit) eff" where
  "build_and_send_transaction env price_responses =
     (let fed = filter (\<lambda>(symbol, r). pr_price r \<noteq> 0) price_responses
      in bind_eff (lift (traverse_res (\<lambda>(symbol, r). unwrap (map_of get_asset_oids symbol)) fed)) (\<lambda>oids.
           send_transaction (ov_client env) (feed_request env oids (map (\<lambda>(symbol, r). pr_price r) fed))
             (PriceFeed price_responses)))"

definition dedicated_prices :: "OracleEnv \<Rightarrow> OraclePriceFeeder \<Rightarrow> tickers res" where
  "dedicated_prices env st =
     (case dedicated_source st of
        None \<Rightarrow> Ok []
      | Some source \<Rightarrow>
          (case get_tickers (ov_prices env) source of
             Ok prices \<Rightarrow> Ok prices
           | Err e \<Rightarrow>
               (case feeder_fetch_vwap_prices env st (fetcher_mode source) of
                  Ok prices \<Rightarrow> Ok prices
                | Err e \<Rightarrow> Ok []
                | Panic \<Rightarrow> Panic)
           | Panic \<Rightarrow> Panic))"

definition fetch_and_feed :: "OracleEnv \<Rightarrow> OraclePriceFeeder \<Rightarrow> (effect, unit) eff" where
  "fetch_and_feed env st =
     bind_eff (lift (case feeder_fetch_vwap_prices env st Mode_Standard of
                       Ok prices \<Rightarrow> Ok prices | Err e \<Rightarrow> Ok [] | Panic \<Rightarrow> Panic)) (\<lambda>standard.
     bind_eff (lift (dedicated_prices env st)) (\<lambda>dedicated.
       let all_prices = btree_extend (btree_extend [] standard) dedicated
       in if all_prices = [] then ret () else build_and_send_transaction env all_prices))"

text \<open>One turn of \<open>run\<close> between two waits.\<close>

definition feeder_tick :: "OracleEnv \<Rightarrow> OraclePriceFeeder \<Rightarrow> (effect, unit) eff" where
  "feeder_tick env st =
     bind_eff (lift (client_is_selected_relayer (ov_selected env) (ov_client env))) (\<lambda>selected.
       if selected then (if market_sources st = [] then lift Panic else fetch_and_feed env st)
       else ret ())"

section \<open>The deviation checker\<close>

definition DEFAULT_PRICE_DEVIATION_THRESHOLD_BPS :: u64 where
  "DEFAULT_PRICE_DEVIATION_THRESHOLD_BPS = 200"

definition get_deviation_threshold_bps :: "string \<Rightarrow> u64" where
  "get_deviation_threshold_bps symbol = DEFAULT_PRICE_DEVIATION_THRESHOLD_BPS"

record PriceDeviationChecker =
  dc_dedicated_source :: "PriceFetchers option"
  dc_market_sources :: "PriceFetchers list"
  dc_oracle_manager :: "address option"

definition dc_initialize :: "OracleEnv \<Rightarrow> PriceDeviationChecker \<Rightarrow> PriceDeviationChecker" where
  "dc_initialize env st =
     \<lparr>dc_dedicated_source =
        (case PriceFetchers_new Src_ExchangeRate None (Mode_Dedicated ''JPYC'') of
           Ok f \<Rightarrow> Some f | _ \<Rightarrow> dc_dedicated_source st),
      dc_market_sources =
        dc_market_sources st
        @ concat (map (\<lambda>s. add_source s None Mode_Standard) exchange_sources)
        @ concat (map (\<lambda>c.
            add_source Src_Chainlink (Some c) Mode_Standard
            @ (if chainlink_jpy_usd (aggregator_contracts c) \<noteq> None
               then add_source Src_Chainlink (Some c) (Mode_Dedicated ''JPYC'') else []))
            (ov_clients env)),
      dc_oracle_manager =
        (case ov_orc_manager env of Some a \<Rightarrow> Some a | None \<Rightarrow> dc_oracle_manager st)\<rparr>"

definition dc_fetch_vwap_prices :: "OracleEnv \<Rightarrow> PriceDeviationChecker \<Rightarrow> FetchMode \<Rightarrow> tickers res" where
  "dc_fetch_vwap_prices env st mode =
     bind_res (gather (ov_prices env) (filter (\<lambda>f. fetcher_mode f = mode) (dc_market_sources st))) (\<lambda>results.
       let volume_weighted = vwap_accumulate results
       in if volume_weighted = [] then Err PriceUnavailable else vwap_divide volume_weighted)"

definition deviation_bps :: "u256 \<Rightarrow> u256 \<Rightarrow> u256" where
  "deviation_bps market on_chain =
     (if market > on_chain then (market - on_chain) * 10000 div on_chain
      else (on_chain - market) * 10000 div on_chain)"

definition deviated :: "OracleEnv \<Rightarrow> string \<times> PriceResponse \<Rightarrow> (b256 \<times> string \<times> PriceResponse) option" where
  "deviated env = (\<lambda>(symbol, r).
     case map_of get_asset_oids symbol of
       None \<Rightarrow> None
     | Some oid \<Rightarrow>
         if pr_price r = 0 then None
         else case ov_last_oracle_data env oid of
                None \<Rightarrow> None
              | Some on_chain_price \<Rightarrow>
                  if on_chain_price = 0 then None
                  else if deviation_bps (pr_price r) on_chain_price > ucast (get_deviation_threshold_bps symbol)
                  then Some (oid, symbol, r) else None)"

definition finalize_prices :: "OracleEnv \<Rightarrow> address \<Rightarrow> b256 list \<Rightarrow> (effect, unit) eff" where
  "finalize_prices env oracle_manager oids =
     for_each (\<lambda>oid. send_transaction (ov_client env)
         \<lparr>tx_to = oracle_manager, tx_from = None, tx_call = LatestOracleData oid, tx_gas_limit = None\<rparr>
         (PriceFeed [])) oids"

definition dc_market_prices :: "OracleEnv \<Rightarrow> PriceDeviationChecker \<Rightarrow> tickers \<Rightarrow> tickers res" where
  "dc_market_prices env st standard =
     (case dc_dedicated_source st of
        None \<Rightarrow> Ok standard
      | Some source \<Rightarrow>
          (case get_tickers (ov_prices env) source of
             Ok prices \<Rightarrow> Ok (btree_extend standard prices)
           | Err e \<Rightarrow>
               (case dc_fetch_vwap_prices env st (Mode_Dedicated ''JPYC'') of
                  Ok prices \<Rightarrow> Ok (btree_extend standard prices)
                | Err e \<Rightarrow> Ok standard
                | Panic \<Rightarrow> Panic)
           | Panic \<Rightarrow> Panic))"

text \<open>The outcome of the synchronous feed is logged only.\<close>

definition check_and_feed :: "OracleEnv \<Rightarrow> PriceDeviationChecker \<Rightarrow> (effect, unit) eff" where
  "check_and_feed env st =
     (case dc_oracle_manager st of
        None \<Rightarrow> ret ()
      | Some oracle_manager \<Rightarrow>
          (case dc_fetch_vwap_prices env st Mode_Standard of
             Err e \<Rightarrow> ret ()
           | Panic \<Rightarrow> lift Panic
           | Ok standard \<Rightarrow>
               bind_eff (lift (dc_market_prices env st standard)) (\<lambda>market_prices.
                 let hits = List.map_filter (deviated env) market_prices;
                     oids = map fst hits
                 in if oids = [] then ret ()
                    else
                      bind_eff
                        (log_err (bind_eff
                          (send_transaction (ov_client env)
                            (feed_request env oids (map (\<lambda>(oid, symbol, r). pr_price r) hits))
                            (PriceFeed (btree_extend [] (map snd hits))))
                          (\<lambda>_. lift (ov_sync_answer env))))
                        (\<lambda>_. finalize_prices env oracle_manager oids))))"

definition checker_tick :: "OracleEnv \<Rightarrow> PriceDeviationChecker \<Rightarrow> (effect, unit) eff" where
  "checker_tick env st =
     bind_eff (lift (client_is_selected_relayer (ov_selected env) (ov_client env))) (\<lambda>selected.
       if selected then check_and_feed env st else ret ())"

definition feeder_new :: OraclePriceFeeder where
  "feeder_new = \<lparr>dedicated_source = None, market_sources = []\<rparr>"

section \<open>A concrete setting\<close>

definition ex_price_env :: PriceEnv where
  "ex_price_env =
     \<lparr>px_parse_ether = (\<lambda>s. Some (word_of_nat (digits_value s) * 10 ^ 18)), px_radix = ex_radix,
      px_f64_to_string = (\<lambda>_. ''1''), px_f64_mul = (\<lambda>_ _. 0), px_rates = (\<lambda>_. None),
      px_binance = (\<lambda>_. Some [\<lparr>bn_symbol = ''ETHUSDT'', bn_lastPrice = ''3000'', bn_volume = ''2''\<rparr>]),
      px_binance_one = (\<lambda>_. None), px_gateio = None, px_gateio_pair = (\<lambda>_. None), px_kucoin = (\<lambda>_. None),
      px_coinbase = (\<lambda>s. if s = ''ETH'' then Some \<lparr>cb_volume = ''1'', cb_price = ''3030''\<rparr> else None),
      px_upbit = (\<lambda>_. None), px_bithumb = (\<lambda>_. None),
      px_latest_round = (\<lambda>_ _. Err RpcError), px_decimals = (\<lambda>_ _. Err RpcError), px_now = 0\<rparr>"

definition ex_oracle_env :: OracleEnv where
  "ex_oracle_env =
     \<lparr>ov_client = ex_client 3068 True, ov_clients = [], ov_selected = (\<lambda>_. Ok True),
      ov_prices = ex_price_env, ov_orc_manager = Some 21,
      ov_last_oracle_data = (\<lambda>_. Some (2900 * 10 ^ 18)), ov_sync_answer = Err RpcError\<rparr>"

definition ex_feeder :: OraclePriceFeeder where
  "ex_feeder = \<lparr>dedicated_source = None, market_sources = [Binance, Coinbase]\<rparr>"

definition ex_checker :: PriceDeviationChecker where
  "ex_checker = \<lparr>dc_dedicated_source = None, dc_market_sources = [Binance, Coinbase], dc_oracle_manager = Some 21\<rparr>"

definition ex_results :: "tickers list" where
  "ex_results = [[(''ETH'', \<lparr>pr_price = 3000 * 10 ^ 18, pr_volume = 2 * 10 ^ 18\<rparr>)],
                 [(''ETH'', \<lparr>pr_price = 3030 * 10 ^ 18, pr_volume = 10 ^ 18\<rparr>)]]"

section \<open>The average as arithmetic\<close>

text \<open>The quotes that count for a symbol, and their average over natural numbers.\<close>

definition quotes :: "tickers list \<Rightarrow> string \<Rightarrow> PriceResponse list" where
  "quotes results s = map snd (filter (\<lambda>(symbol, r). symbol = s \<and> pr_volume r \<noteq> 0) (concat results))"

definition weighted_sum :: "PriceResponse list \<Rightarrow> nat" where
  "weighted_sum q = sum_list (map (\<lambda>r. unat (pr_price r) * unat (pr_volume r)) q)"

definition volume_sum :: "PriceResponse list \<Rightarrow> nat" where
  "volume_sum q = sum_list (map (\<lambda>r. unat (pr_volume r)) q)"

definition reference_price :: "PriceResponse list \<Rightarrow> PriceResponse" where
  "reference_price q =
     \<lparr>pr_price = word_of_nat (weighted_sum q div volume_sum q), pr_volume = word_of_nat (volume_sum q)\<rparr>"

definition reference_vwap :: "u256 \<Rightarrow> FetchMode \<Rightarrow> tickers list \<Rightarrow> string \<Rightarrow> PriceResponse option" where
  "reference_vwap one mode results s =
     (if quotes results s \<noteq> [] then Some (reference_price (quotes results s))
      else if mode = Mode_Standard \<and> s \<in> {''USDC'', ''USDT'', ''DAI''}
      then Some \<lparr>pr_price = one, pr_volume = 1\<rparr> else None)"

lemma quotes_Nil [simp]: "quotes [[]] s = []"
  by (simp add: quotes_def)

lemma quotes_concat: "quotes [concat results] s = quotes results s"
  by (simp add: quotes_def)

lemma quotes_Cons:
  "quotes [(symbol, r) # es] s =
     (if symbol = s \<and> pr_volume r \<noteq> 0 then r # quotes [es] s else quotes [es] s)"
  by (simp add: quotes_def)

definition word_sums :: "PriceResponse list \<Rightarrow> u256 \<times> u256" where
  "word_sums q = (word_of_nat (weighted_sum q), word_of_nat (volume_sum q))"

lemma word_sums_simps:
  "word_sums [] = (0, 0)"
  "word_sums (r # q) = (pr_price r * pr_volume r + fst (word_sums q), pr_volume r + snd (word_sums q))"
  by (simp_all add: word_sums_def weighted_sum_def volume_sum_def)

lemma vwap_add_inv: "btree_inv acc \<Longrightarrow> btree_inv (vwap_add e acc)"
  by (auto simp: vwap_add_def btree_inv_insert split: option.splits prod.splits)

lemma fold_vwap_add_inv: "btree_inv acc \<Longrightarrow> btree_inv (fold vwap_add es acc)"
  by (induction es arbitrary: acc) (auto simp: vwap_add_inv)

lemma map_of_vwap_add:
  "btree_inv acc \<Longrightarrow> map_of (vwap_add (symbol, r) acc) s =
     (if symbol = s \<and> pr_volume r \<noteq> 0
      then Some (case map_of acc s of
                   None \<Rightarrow> (pr_price r * pr_volume r, pr_volume r)
                 | Some (w, t) \<Rightarrow> (w + pr_price r * pr_volume r, t + pr_volume r))
      else map_of acc s)"
  by (auto simp: vwap_add_def map_of_btree_insert split: option.splits)

lemma fold_vwap_add:
  "btree_inv acc \<Longrightarrow> map_of (fold vwap_add es acc) s =
     (if quotes [es] s = [] then map_of acc s
      else case map_of acc s of
             None \<Rightarrow> Some (word_sums (quotes [es] s))
           | Some (w, t) \<Rightarrow> Some (w + fst (word_sums (quotes [es] s)), t + snd (word_sums (quotes [es] s))))"
proof (induction es arbitrary: acc)
  case (Cons e es)
  obtain symbol r where e: "e = (symbol, r)" by (cases e)
  show ?case
    using Cons.IH [OF vwap_add_inv [OF Cons.prems, of e]] map_of_vwap_add [OF Cons.prems, of symbol r s]
    by (auto simp: e quotes_Cons word_sums_simps algebra_simps split: option.splits prod.splits)
qed simp

lemma vwap_accumulate_sums:
  "btree_inv (vwap_accumulate results)"
  "map_of (vwap_accumulate results) s =
     (if quotes results s = [] then None else Some (word_sums (quotes results s)))"
  by (simp_all add: vwap_accumulate_def fold_vwap_add_inv fold_vwap_add quotes_concat)

lemma volume_sum_pos: "quotes results s \<noteq> [] \<Longrightarrow> 0 < volume_sum (quotes results s)"
proof -
  assume "quotes results s \<noteq> []"
  then obtain r where "r \<in> set (quotes results s)" by (cases "quotes results s") auto
  moreover from this have "pr_volume r \<noteq> 0" by (auto simp: quotes_def)
  moreover from calculation(1) have "unat (pr_volume r) \<le> volume_sum (quotes results s)"
    by (simp add: volume_sum_def member_le_sum_list)
  ultimately show ?thesis by (simp add: unat_gt_0 [symmetric])
qed

definition divided :: "string \<times> u256 \<times> u256 \<Rightarrow> string \<times> PriceResponse" where
  "divided = (\<lambda>(s, w, t). (s, \<lparr>pr_price = w div t, pr_volume = t\<rparr>))"

lemma vwap_divide_ok:
  "(\<And>s w t. (s, w, t) \<in> set vw \<Longrightarrow> t \<noteq> 0) \<Longrightarrow> vwap_divide vw = Ok (map divided vw)"
  unfolding vwap_divide_def by (intro traverse_res_map) (auto simp: divided_def)

lemma map_of_divided:
  "map_of (map divided vw) s = map_option (\<lambda>(w, t). \<lparr>pr_price = w div t, pr_volume = t\<rparr>) (map_of vw s)"
  by (induction vw) (auto simp: divided_def)

lemma unat_word_of_nat: "n < 2 ^ 256 \<Longrightarrow> unat (word_of_nat n :: u256) = n"
  by (simp add: unsigned_of_nat take_bit_nat_eq_self)

lemma reference_price_words:
  assumes "weighted_sum q < 2 ^ 256" and "volume_sum q < 2 ^ 256"
  shows "reference_price q = \<lparr>pr_price = fst (word_sums q) div snd (word_sums q), pr_volume = snd (word_sums q)\<rparr>"
proof -
  have "weighted_sum q div volume_sum q < 2 ^ 256"
    using assms(1) div_le_dividend le_less_trans by blast
  then have "unat (word_of_nat (weighted_sum q) div word_of_nat (volume_sum q) :: u256)
      = unat (word_of_nat (weighted_sum q div volume_sum q) :: u256)"
    by (simp only: unat_div unat_word_of_nat assms)
  then have "word_of_nat (weighted_sum q) div word_of_nat (volume_sum q)
      = (word_of_nat (weighted_sum q div volume_sum q) :: u256)"
    by (rule unsigned_word_eqI)
  then show ?thesis by (simp add: reference_price_def word_sums_def)
qed

definition with_default :: "'v \<Rightarrow> 'k set \<Rightarrow> ('k \<rightharpoonup> 'v) \<Rightarrow> 'k \<rightharpoonup> 'v" where
  "with_default d S m = (\<lambda>s. if s \<in> S \<and> m s = None then Some d else m s)"

lemma with_default_twice: "with_default d S (with_default d T m) = with_default d (S \<union> T) m"
  by (auto simp: with_default_def fun_eq_iff)

lemma stable_default_ok:
  assumes "px_parse_ether env ''1'' = Some one" and "btree_inv acc"
  obtains acc' where "stable_default env symbol acc = Ok acc'" and "btree_inv acc'"
    and "map_of acc' = with_default (one, 1) {symbol} (map_of acc)"
proof (cases "map_of acc symbol = None")
  case True
  then have "stable_default env symbol acc = Ok (btree_insert symbol (one, 1) acc)"
    using assms(1) by (simp add: stable_default_def)
  with True assms(2) show thesis
    by (intro that [of "btree_insert symbol (one, 1) acc"])
      (auto simp: btree_inv_insert map_of_btree_insert with_default_def)
next
  case False
  then show thesis
    using assms(2) by (intro that [of acc]) (auto simp: stable_default_def with_default_def fun_eq_iff)
qed

lemma all_stable_defaults:
  assumes "px_parse_ether env ''1'' = Some one" and "btree_inv acc"
  obtains acc' where
      "bind_res (stable_default env ''USDC'' acc) (\<lambda>a. bind_res (stable_default env ''USDT'' a)
         (stable_default env ''DAI'')) = Ok acc'"
    and "btree_inv acc'"
    and "map_of acc' = with_default (one, 1) {''USDC'', ''USDT'', ''DAI''} (map_of acc)"
proof -
  obtain a1 where a1: "stable_default env ''USDC'' acc = Ok a1" "btree_inv a1"
    "map_of a1 = with_default (one, 1) {''USDC''} (map_of acc)"
    by (rule stable_default_ok [OF assms])
  obtain a2 where a2: "stable_default env ''USDT'' a1 = Ok a2" "btree_inv a2"
    "map_of a2 = with_default (one, 1) {''USDT''} (map_of a1)"
    by (rule stable_default_ok [OF assms(1) a1(2)])
  obtain a3 where a3: "stable_default env ''DAI'' a2 = Ok a3" "btree_inv a3"
    "map_of a3 = with_default (one, 1) {''DAI''} (map_of a2)"
    by (rule stable_default_ok [OF assms(1) a2(2)])
  have "map_of a3 = with_default (one, 1) {''USDC'', ''USDT'', ''DAI''} (map_of acc)"
    unfolding a3(3) a2(3) a1(3) with_default_twice by (rule arg_cong [where f = "\<lambda>S. with_default _ S _"]) blast
  with a3(2) show thesis
    by (intro that [of a3]) (simp_all only: a1(1) a2(1) a3(1) bind_res.simps)
qed

lemma feeder_average:
  assumes gather: "gather (ov_prices env) (filter (\<lambda>f. fetcher_mode f = mode) (market_sources st)) = Ok results"
    and one: "px_parse_ether (ov_prices env) ''1'' = Some one"
    and some: "quotes results s0 \<noteq> []"
    and small: "\<And>s. weighted_sum (quotes results s) < 2 ^ 256" "\<And>s. volume_sum (quotes results s) < 2 ^ 256"
  obtains prices where "feeder_fetch_vwap_prices env st mode = Ok prices"
    and "map_of prices = reference_vwap one mode results"
proof -
  let ?vw = "vwap_accumulate results"
  have ne: "?vw \<noteq> []"
    using some vwap_accumulate_sums(2) [of results s0] by auto
  have sums: "map_of ?vw s = (if quotes results s = [] then None else Some (word_sums (quotes results s)))" for s
    by (rule vwap_accumulate_sums)
  define stable where "stable = (\<lambda>s. mode = Mode_Standard \<and> s \<in> {''USDC'', ''USDT'', ''DAI''})"
  obtain vw where vw: "(case mode of
               Mode_Standard \<Rightarrow>
                 bind_res (stable_default (ov_prices env) ''USDC'' ?vw) (\<lambda>a.
                 bind_res (stable_default (ov_prices env) ''USDT'' a)
                   (stable_default (ov_prices env) ''DAI''))
             | Mode_Dedicated _ \<Rightarrow> Ok ?vw) = Ok vw"
    and inv: "btree_inv vw"
    and map: "map_of vw = with_default (one, 1) {s. stable s} (map_of ?vw)"
  proof (cases mode)
    case Mode_Standard
    obtain acc' where "bind_res (stable_default (ov_prices env) ''USDC'' ?vw) (\<lambda>a.
        bind_res (stable_default (ov_prices env) ''USDT'' a) (stable_default (ov_prices env) ''DAI'')) = Ok acc'"
      "btree_inv acc'"
      "map_of acc' = with_default (one, 1) {''USDC'', ''USDT'', ''DAI''} (map_of ?vw)"
      by (rule all_stable_defaults [OF one vwap_accumulate_sums(1)])
    moreover have "{s. stable s} = {''USDC'', ''USDT'', ''DAI''}"
      unfolding stable_def using Mode_Standard by blast
    ultimately show thesis using Mode_Standard by (intro that [of acc']) simp_all
  next
    case (Mode_Dedicated x)
    then show thesis
      using vwap_accumulate_sums(1) [of results] by (intro that [of ?vw]) (simp_all add: stable_def with_default_def)
  qed
  have nz: "t \<noteq> 0" if "(s, w, t) \<in> set vw" for s w t
  proof -
    have "map_of vw s = Some (w, t)"
      using that btree_inv_distinct [OF inv] by simp
    then have "(w, t) = (one, 1) \<or> quotes results s \<noteq> [] \<and> (w, t) = word_sums (quotes results s)"
      by (auto simp: map sums with_default_def split: if_splits)
    moreover have "snd (word_sums (quotes results s)) \<noteq> 0" if "quotes results s \<noteq> []"
    proof
      assume "snd (word_sums (quotes results s)) = 0"
      then have "unat (word_of_nat (volume_sum (quotes results s)) :: u256) = 0"
        by (simp add: word_sums_def)
      with volume_sum_pos [OF that] show False by (simp only: unat_word_of_nat [OF small(2)])
    qed
    ultimately show ?thesis by (metis one_neq_zero snd_conv)
  qed
  have "feeder_fetch_vwap_prices env st mode = Ok (map divided vw)"
    using gather ne vw vwap_divide_ok [OF nz] by (simp add: feeder_fetch_vwap_prices_def)
  moreover have "map_of (map divided vw) = reference_vwap one mode results"
    using reference_price_words [OF small]
    by (simp add: fun_eq_iff map_of_divided map sums with_default_def stable_def reference_vwap_def word_sums_def) blast
  ultimately show thesis by (rule that)
qed

lemma average_within:
  assumes "q \<noteq> []" and "0 < volume_sum q" and "\<And>r. r \<in> set q \<Longrightarrow> lo \<le> unat (pr_price r) \<and> unat (pr_price r) \<le> hi"
  shows "lo \<le> weighted_sum q div volume_sum q \<and> weighted_sum q div volume_sum q \<le> hi"
proof -
  have "lo * volume_sum q \<le> weighted_sum q" "weighted_sum q \<le> hi * volume_sum q"
    using assms(3) by (induction q) (auto simp: weighted_sum_def volume_sum_def distrib_left add_mono)
  then have "lo * volume_sum q div volume_sum q \<le> weighted_sum q div volume_sum q"
    "weighted_sum q div volume_sum q \<le> hi * volume_sum q div volume_sum q"
    by (simp_all only: div_le_mono)
  with assms(2) show ?thesis by simp
qed

section \<open>Deviation\<close>

lemma deviation_threshold:
  assumes "on_chain \<noteq> 0" and "unat on_chain * 10000 < 2 ^ 256" and "unat market * 10000 < 2 ^ 256"
  shows "deviation_bps market on_chain > 200 \<longleftrightarrow>
    201 * int (unat on_chain) \<le> 10000 * \<bar>int (unat market) - int (unat on_chain)\<bar>"
proof -
  define d where "d = (if market > on_chain then market - on_chain else on_chain - market)"
  have n: "unat d = (if unat on_chain < unat market then unat market - unat on_chain
                     else unat on_chain - unat market)"
    by (auto simp: d_def unat_sub word_less_nat_alt word_le_nat_alt not_less)
  have d: "int (unat d) = \<bar>int (unat market) - int (unat on_chain)\<bar>"
  proof (cases "unat on_chain < unat market")
    case True
    then have "unat d = unat market - unat on_chain" using n by (simp only: if_True)
    with True show ?thesis by linarith
  next
    case False
    then have "unat d = unat on_chain - unat market" using n by (simp only: if_False)
    with False show ?thesis by linarith
  qed
  have "unat d \<le> max (unat market) (unat on_chain)"
    using n by (auto simp: max_def)
  then have small: "unat d * 10000 < 2 ^ 256" using assms(2,3) by (auto simp: max_def split: if_splits)
  then have m: "unat (d * 10000) = unat d * 10000"
    by (simp add: unat_word_ariths)
  have "deviation_bps market on_chain = d * 10000 div on_chain"
    by (simp add: deviation_bps_def d_def)
  then have "unat (deviation_bps market on_chain) = unat d * 10000 div unat on_chain"
    by (simp only: unat_div m)
  then have "deviation_bps market on_chain > 200 \<longleftrightarrow> 201 \<le> unat d * 10000 div unat on_chain"
    by (simp add: word_less_nat_alt) arith
  also have "\<dots> \<longleftrightarrow> 201 * unat on_chain \<le> unat d * 10000"
    using assms(1) by (simp add: less_eq_div_iff_mult_less_eq unat_gt_0)
  also have "\<dots> \<longleftrightarrow> 201 * int (unat on_chain) \<le> 10000 * int (unat d)"
    by (rule iffI; linarith)
  finally show ?thesis by (simp only: d)
qed

section \<open>Known symbols\<close>

text \<open>What the exchanges are expected to do: to answer for the markets they were asked for.\<close>

definition answers_asked :: "PriceEnv \<Rightarrow> bool" where
  "answers_asked env \<longleftrightarrow>
     (\<forall>rs. px_binance env binance_symbols = Some rs \<longrightarrow> (\<forall>r \<in> set rs. bn_symbol r \<in> set binance_symbols))
     \<and> (\<forall>rs. px_upbit env upbit_symbols = Some rs \<longrightarrow> (\<forall>r \<in> set rs. up_market r \<in> set upbit_symbols))
     \<and> (\<forall>rs. px_bithumb env bithumb_symbols = Some rs \<longrightarrow> (\<forall>r \<in> set rs. up_market r \<in> set bithumb_symbols))"

definition known_symbols :: "string set" where
  "known_symbols = fst ` set get_asset_oids"

definition priced :: "(string \<times> 'v) list \<Rightarrow> bool" where
  "priced m \<longleftrightarrow> btree_inv m \<and> fst ` set m \<subseteq> known_symbols"

definition own_fetcher :: "PriceFetchers \<Rightarrow> bool" where
  "own_fetcher f \<longleftrightarrow> fetcher_mode f \<in> {Mode_Standard, Mode_Dedicated ''JPYC''}"

lemma priced_Nil [simp]: "priced []"
  by (simp add: priced_def)

lemma priced_insert [intro]: "priced m \<Longrightarrow> k \<in> known_symbols \<Longrightarrow> priced (btree_insert k v m)"
  by (auto simp: priced_def btree_inv_insert fst_set_btree_insert)

lemma known_symbols_simps [simp]:
  "''BFC'' \<in> known_symbols" "''BIFI'' \<in> known_symbols" "''BTC'' \<in> known_symbols" "''ETH'' \<in> known_symbols"
  "''BNB'' \<in> known_symbols" "''POL'' \<in> known_symbols" "''USDC'' \<in> known_symbols" "''USDT'' \<in> known_symbols"
  "''DAI'' \<in> known_symbols" "''BTCB'' \<in> known_symbols" "''WBTC'' \<in> known_symbols"
  "''CBBTC'' \<in> known_symbols" "''JPYC'' \<in> known_symbols"
  by (simp_all add: known_symbols_def get_asset_oids_def)

lemma exchange_names:
  "list_all (\<lambda>s. str_replace ''USDT'' [] s \<in> known_symbols) binance_symbols"
  "list_all (\<lambda>s. str_replace ''_USDT'' [] (str_replace ''BIFIF_USDT'' ''BIFI'' s) \<in> known_symbols)
     gateio_symbols"
  "list_all (\<lambda>s. (if sublist ''KRW-'' s then str_replace ''KRW-'' [] s
                  else str_replace ''BTC-'' [] s) \<in> known_symbols
               \<and> (sublist ''KRW-'' s \<or> sublist ''BTC-'' s)) upbit_symbols"
  "list_all (\<lambda>s. prefix ''KRW-'' s \<and> drop 4 s \<in> known_symbols) bithumb_symbols"
  by (simp_all add: binance_symbols_def gateio_symbols_def upbit_symbols_def upbit_market_def bithumb_symbols_def
      str_replace.simps sublist_code)

lemma binance_priced:
  "binance_collect env ts acc = Ok m \<Longrightarrow> priced acc \<Longrightarrow> (\<And>t. t \<in> set ts \<Longrightarrow> bn_symbol t \<in> set binance_symbols)
     \<Longrightarrow> priced m"
proof (induction ts arbitrary: acc)
  case (Cons t ts)
  have "bn_symbol t \<in> set binance_symbols" using Cons.prems(3) by simp
  then have "str_replace ''USDT'' [] (bn_symbol t) \<in> known_symbols"
    using exchange_names(1) by (simp add: list_all_iff)
  with Cons show ?case
    by (auto simp: bind_res_Ok_iff Let_def priced_insert split: if_splits)
qed simp

lemma gateio_priced: "gateio_collect env ts acc = Ok m \<Longrightarrow> priced acc \<Longrightarrow> priced m"
proof (induction ts arbitrary: acc)
  case (Cons t ts)
  have "gt_currency_pair t \<in> set gateio_symbols \<Longrightarrow>
      str_replace ''_USDT'' [] (str_replace ''BIFIF_USDT'' ''BIFI'' (gt_currency_pair t)) \<in> known_symbols"
    using exchange_names(2) by (simp add: list_all_iff)
  with Cons show ?case
    by (auto simp: bind_res_Ok_iff priced_insert split: if_splits)
qed simp

lemma kucoin_priced:
  "kucoin_collect env symbols acc = Ok m \<Longrightarrow> priced acc \<Longrightarrow> set symbols \<subseteq> known_symbols \<Longrightarrow> priced m"
  by (induction symbols arbitrary: acc) (auto simp: bind_res_Ok_iff priced_insert)

lemma coinbase_priced:
  "priced acc \<Longrightarrow> set symbols \<subseteq> known_symbols \<Longrightarrow> priced (fold (coinbase_insert env) symbols acc)"
proof (induction symbols arbitrary: acc)
  case (Cons s symbols)
  then have "priced (coinbase_insert env s acc)"
    by (auto simp: coinbase_insert_def Let_def priced_insert split: option.splits)
  with Cons show ?case by simp
qed simp

lemma collect_ok_priced:
  "collect_ok f rs acc = Ok m \<Longrightarrow> priced acc
     \<Longrightarrow> (\<forall>r \<in> set rs. \<forall>s p. f r = Ok (s, p) \<longrightarrow> s \<in> known_symbols) \<Longrightarrow> priced m"
proof (induction rs arbitrary: acc)
  case (Cons r rs)
  show ?case
  proof (cases "f r")
    case (Ok x)
    obtain s p where x: "x = (s, p)" by (cases x)
    have "s \<in> known_symbols" using Cons.prems(3) Ok x by simp
    then show ?thesis
      using Cons.IH [of "btree_insert s p acc"] Cons.prems Ok x by (simp add: priced_insert)
  qed (use Cons in auto)
qed simp

lemma rate_priced:
  "rate_collect env symbols acc = Ok m \<Longrightarrow> priced acc \<Longrightarrow> set symbols \<subseteq> known_symbols \<Longrightarrow> priced m"
  by (induction symbols arbitrary: acc) (auto simp: bind_res_Ok_iff priced_insert)

lemma chainlink_priced:
  "chainlink_collect env c symbols acc = Ok m \<Longrightarrow> priced acc \<Longrightarrow> set symbols \<subseteq> known_symbols \<Longrightarrow> priced m"
  by (induction symbols arbitrary: acc) (auto simp: priced_insert split: res.splits)

lemma upbit_symbol:
  assumes "upbit_format_response env r = Ok (s, p)" and "up_market r \<in> set upbit_symbols"
  shows "s \<in> known_symbols"
proof -
  have "s = (if sublist ''KRW-'' (up_market r) then str_replace ''KRW-'' [] (up_market r)
             else str_replace ''BTC-'' [] (up_market r))"
    using assms(1) by (auto simp: upbit_format_response_def Let_def bind_res_Ok_iff split: if_splits)
  then show ?thesis using exchange_names(3) assms(2) by (auto simp: list_all_iff)
qed

lemma bithumb_symbol:
  assumes "bithumb_format_response env r = Ok (s, p)" and "up_market r \<in> set bithumb_symbols"
  shows "s \<in> known_symbols"
proof -
  have "prefix ''KRW-'' (up_market r)" "drop 4 (up_market r) \<in> known_symbols"
    using exchange_names(4) assms(2) by (auto simp: list_all_iff)
  with assms(1) show ?thesis
    by (auto simp: bithumb_format_response_def str_strip_prefix_def Let_def bind_res_Ok_iff eval_nat_numeral)
qed

lemma get_tickers_priced:
  assumes "get_tickers env f = Ok m" and "own_fetcher f" and ask: "answers_asked env"
  shows "priced m"
proof (cases f)
  case Binance
  with assms show ?thesis
    by (auto simp: get_tickers_def binance_get_tickers_def answers_asked_def bind_res_Ok_iff intro: binance_priced)
next
  case Bithumb
  with assms obtain rs where rs: "collect_ok (bithumb_format_response env) rs [] = Ok m"
      "\<And>r. r \<in> set rs \<Longrightarrow> up_market r \<in> set bithumb_symbols"
    by (auto simp: get_tickers_def bithumb_get_tickers_def answers_asked_def bind_res_Ok_iff)
  show ?thesis
    using bithumb_symbol rs(2) by (intro collect_ok_priced [OF rs(1)]) auto
next
  case (Chainlink c mode)
  have "priced m" if "mode = Mode_Standard"
    using assms(1) that Chainlink
    by (auto simp: get_tickers_def chainlink_get_tickers_def bind_res_Ok_iff split: if_splits
        intro!: chainlink_priced [of env c "[''USDC'', ''USDT'', ''DAI'', ''BTC'', ''WBTC'', ''CBBTC'']" "[]" m])
  moreover have "priced m" if "mode = Mode_Dedicated ''JPYC''"
    using assms(1) that Chainlink
    by (auto simp: get_tickers_def chainlink_get_tickers_def bind_res_Ok_iff priced_insert
        split: if_splits res.splits)
  ultimately show ?thesis using assms(2) Chainlink by (auto simp: own_fetcher_def)
next
  case Gateio
  with assms show ?thesis
    by (auto simp: get_tickers_def gateio_get_tickers_def bind_res_Ok_iff intro: gateio_priced)
next
  case Kucoin
  with assms show ?thesis
    by (auto simp: get_tickers_def kucoin_get_tickers_def kucoin_symbols_def simp del: kucoin_collect.simps
        intro!: kucoin_priced [of env "[''ETH'', ''BFC'', ''BNB'', ''POL'']" "[]" m])
next
  case Upbit
  with assms obtain rs where rs: "collect_ok (upbit_format_response env) rs [] = Ok m"
      "\<And>r. r \<in> set rs \<Longrightarrow> up_market r \<in> set upbit_symbols"
    by (auto simp: get_tickers_def upbit_get_tickers_def answers_asked_def bind_res_Ok_iff)
  show ?thesis
    using upbit_symbol rs(2) by (intro collect_ok_priced [OF rs(1)]) auto
next
  case Coinbase
  with assms(1) show ?thesis
    using coinbase_priced [of "[]" coinbase_symbols env]
    by (simp add: get_tickers_def coinbase_get_tickers_def) (simp add: coinbase_symbols_def)
next
  case (ExchangeRate mode)
  with assms(1,2) show ?thesis
    by (auto simp: get_tickers_def rate_get_tickers_def own_fetcher_def supported_coins_def
        simp del: rate_collect.simps intro: rate_priced)
qed

lemma gather_priced:
  "gather env fs = Ok results \<Longrightarrow> (\<forall>f \<in> set fs. own_fetcher f) \<Longrightarrow> answers_asked env \<Longrightarrow> (\<forall>t \<in> set results. priced t)"
  by (induction fs arbitrary: results)
    (auto simp: bind_res_Ok_iff get_tickers_priced split: res.splits)

lemma vwap_add_priced: "priced acc \<Longrightarrow> fst e \<in> known_symbols \<Longrightarrow> priced (vwap_add e acc)"
  by (cases e) (auto simp: vwap_add_def priced_insert split: option.splits)

lemma fold_vwap_priced:
  "priced acc \<Longrightarrow> fst ` set es \<subseteq> known_symbols \<Longrightarrow> priced (fold vwap_add es acc)"
  by (induction es arbitrary: acc) (auto simp: vwap_add_priced)

lemma vwap_divide_keys: "vwap_divide vw = Ok prices \<Longrightarrow> map fst prices = map fst vw"
  unfolding vwap_divide_def
  by (induction vw arbitrary: prices) (auto simp: bind_res_Ok_iff split: if_splits)

lemma priced_keys: "map fst m = map fst m' \<Longrightarrow> priced m \<longleftrightarrow> priced m'"
  unfolding priced_def btree_inv_def by (metis set_map)

lemma stable_default_priced:
  "stable_default env symbol acc = Ok a \<Longrightarrow> priced acc \<Longrightarrow> symbol \<in> known_symbols \<Longrightarrow> priced a"
  by (auto simp: stable_default_def bind_res_Ok_iff priced_insert split: if_splits)

lemma feeder_fetch_priced:
  assumes "feeder_fetch_vwap_prices env st mode = Ok prices" and "\<forall>f \<in> set (market_sources st). own_fetcher f"
    and "answers_asked (ov_prices env)"
  shows "priced prices \<and> prices \<noteq> []"
proof -
  let ?fs = "filter (\<lambda>f. fetcher_mode f = mode) (market_sources st)"
  obtain results vw where g: "gather (ov_prices env) ?fs = Ok results" and ne: "vwap_accumulate results \<noteq> []"
    and vw: "(case mode of
               Mode_Standard \<Rightarrow>
                 bind_res (stable_default (ov_prices env) ''USDC'' (vwap_accumulate results)) (\<lambda>a.
                 bind_res (stable_default (ov_prices env) ''USDT'' a)
                   (stable_default (ov_prices env) ''DAI''))
             | Mode_Dedicated _ \<Rightarrow> Ok (vwap_accumulate results)) = Ok vw"
    and d: "vwap_divide vw = Ok prices"
    using assms(1) by (auto simp: feeder_fetch_vwap_prices_def bind_res_Ok_iff Let_def split: if_splits)
  have "\<forall>t \<in> set results. priced t" using gather_priced [OF g] assms(2,3) by simp
  then have acc: "priced (vwap_accumulate results)"
    unfolding vwap_accumulate_def by (intro fold_vwap_priced) (auto simp: priced_def)
  have "priced vw"
    using vw acc
    by (cases mode) (auto simp: bind_res_Ok_iff dest!: stable_default_priced)
  moreover have "vw \<noteq> []"
  proof -
    have step: "stable_default (ov_prices env) x acc = Ok [] \<Longrightarrow> acc = []" for x acc
      by (auto simp: stable_default_def bind_res_Ok_iff btree_insert_def split: if_splits)
    show ?thesis
      using vw ne by (cases mode) (auto simp: bind_res_Ok_iff dest!: step)
  qed
  ultimately show ?thesis
    using priced_keys [OF vwap_divide_keys [OF d]] vwap_divide_keys [OF d] by auto
qed

lemma extend_priced: "priced m \<Longrightarrow> fst ` set es \<subseteq> known_symbols \<Longrightarrow> priced (btree_extend m es)"
  unfolding btree_extend_def by (induction es arbitrary: m) (auto simp: priced_insert)

definition own_sources :: "OraclePriceFeeder \<Rightarrow> bool" where
  "own_sources st \<longleftrightarrow>
     (\<forall>f \<in> set (market_sources st). own_fetcher f) \<and> (\<forall>f. dedicated_source st = Some f \<longrightarrow> own_fetcher f)"

lemma add_source_own:
  "mode \<in> {Mode_Standard, Mode_Dedicated ''JPYC''} \<Longrightarrow> f \<in> set (add_source x c mode) \<Longrightarrow> own_fetcher f"
  by (auto simp: add_source_def PriceFetchers_new_def own_fetcher_def split: PriceSource.splits)

lemma initialize_own: "own_sources st \<Longrightarrow> own_sources (initialize_fetchers env st)"
proof -
  assume own: "own_sources st"
  have rate: "own_fetcher (ExchangeRate (Mode_Dedicated ''JPYC''))"
    by (simp add: own_fetcher_def)
  show ?thesis
    using own rate unfolding own_sources_def initialize_fetchers_def
    by (auto simp: PriceFetchers_new_def dest: add_source_own [rotated] split: if_splits)
qed

lemma restarts_own: "own_sources (((initialize_fetchers env) ^^ n) feeder_new)"
proof (induction n)
  case 0
  show ?case by (simp add: own_sources_def feeder_new_def)
qed (simp add: initialize_own)

lemma initialize_ne: "market_sources (initialize_fetchers env st) \<noteq> []"
  by (simp add: initialize_fetchers_def exchange_sources_def add_source_def PriceFetchers_new_def)

lemma restarts_repeat_sources:
  "length (market_sources (((initialize_fetchers env) ^^ n) feeder_new)) =
     n * length (market_sources (initialize_fetchers env feeder_new))"
  by (induction n) (simp_all add: feeder_new_def initialize_fetchers_def)

lemma dedicated_priced:
  assumes "dedicated_prices env st = Ok prices" and "own_sources st" and "answers_asked (ov_prices env)"
  shows "priced prices"
  using assms
  by (auto simp: dedicated_prices_def own_sources_def get_tickers_priced feeder_fetch_priced
      split: option.splits res.splits)

lemma ex_binance: "binance_get_tickers ex_price_env = Ok (ex_results ! 0)"
  by (simp add: binance_get_tickers_def ex_price_env_def parse_ether_def ok_or_def ex_results_def
      str_replace.simps btree_insert_def digits_value_def)

lemma ex_coinbase: "coinbase_get_tickers ex_price_env = Ok (ex_results ! 1)"
  by (simp add: coinbase_get_tickers_def coinbase_symbols_def coinbase_insert_def ex_price_env_def ex_results_def
      btree_insert_def digits_value_def)

lemma ex_gather: "gather ex_price_env [Binance, Coinbase] = Ok ex_results"
  using ex_binance ex_coinbase by (simp add: get_tickers_def) (simp add: ex_results_def)

lemma ex_failing:
  "bithumb_get_tickers ex_price_env = Err PriceUnavailable"
  "gateio_get_tickers ex_price_env = Err PriceUnavailable"
  "kucoin_get_tickers ex_price_env = Err PriceUnavailable"
  "upbit_get_tickers ex_price_env = Err PriceUnavailable"
  "rate_get_tickers ex_price_env (Mode_Dedicated ''JPYC'') = Err PriceUnavailable"
  by (simp_all add: bithumb_get_tickers_def gateio_get_tickers_def kucoin_get_tickers_def kucoin_symbols_def
      kucoin_get_ticker_with_symbol_def upbit_get_tickers_def rate_get_tickers_def rate_get_ticker_with_symbol_def
      get_currency_from_symbol_def supported_coins_def convert_currency_to_usd_def fetch_exchange_rate_def
      ex_price_env_def ok_or_def)

lemma ex_all_sources:
  "market_sources (initialize_fetchers ex_oracle_env feeder_new) = [Binance, Bithumb, Gateio, Kucoin, Upbit, Coinbase]"
  "dedicated_source (initialize_fetchers ex_oracle_env feeder_new) = Some (ExchangeRate (Mode_Dedicated ''JPYC''))"
  by (simp_all add: initialize_fetchers_def feeder_new_def exchange_sources_def add_source_def
      PriceFetchers_new_def ex_oracle_env_def)

lemma ex_gather_all: "gather ex_price_env [Binance, Bithumb, Gateio, Kucoin, Upbit, Coinbase] = Ok ex_results"
  using ex_binance ex_coinbase by (simp add: get_tickers_def ex_failing) (simp add: ex_results_def)

lemma ex_quotes:
  "quotes ex_results s = (if s = ''ETH'' then map (\<lambda>t. snd (hd t)) ex_results else [])"
  by (simp add: quotes_def ex_results_def)

lemma ex_sums:
  "weighted_sum (quotes ex_results s) < 2 ^ 256" "volume_sum (quotes ex_results s) < 2 ^ 256"
  unfolding ex_quotes by (simp_all add: weighted_sum_def volume_sum_def ex_results_def)

lemma ex_quotes_ne: "quotes ex_results ''ETH'' \<noteq> []"
  unfolding ex_quotes by (simp add: ex_results_def)

lemma ex_one: "px_parse_ether ex_price_env ''1'' = Some (10 ^ 18)"
  by (simp add: ex_price_env_def digits_value_def)

lemma ex_prices: "ov_prices ex_oracle_env = ex_price_env"
  by (simp add: ex_oracle_env_def)

section \<open>Properties\<close>

text \<open>The entries of a table of prices that are written to the oracle, and how.\<close>

definition fed_entries :: "tickers \<Rightarrow> tickers" where
  "fed_entries prices = filter (\<lambda>(symbol, r). pr_price r \<noteq> 0) prices"

definition oid_of :: "string \<Rightarrow> b256" where
  "oid_of symbol = the (map_of get_asset_oids symbol)"

text \<open>A price that is at least 2.01 per cent away from the one on chain.\<close>

definition moved_away :: "OracleEnv \<Rightarrow> string \<times> PriceResponse \<Rightarrow> bool" where
  "moved_away env = (\<lambda>(symbol, r).
     \<exists>oid on_chain. map_of get_asset_oids symbol = Some oid \<and> ov_last_oracle_data env oid = Some on_chain
       \<and> on_chain \<noteq> 0 \<and> pr_price r \<noteq> 0
       \<and> 201 * int (unat on_chain) \<le> 10000 * \<bar>int (unat (pr_price r)) - int (unat on_chain)\<bar>)"

lemma known_oid: "s \<in> known_symbols \<Longrightarrow> map_of get_asset_oids s = Some (oid_of s)"
proof -
  assume "s \<in> known_symbols"
  then have "map_of get_asset_oids s \<noteq> None"
    by (simp add: known_symbols_def map_of_eq_None_iff)
  then show ?thesis by (auto simp: oid_of_def)
qed

lemma build_and_send_priced:
  assumes "priced prices"
  shows "build_and_send_transaction env prices =
    send_transaction (ov_client env)
      (feed_request env (map (\<lambda>(s, r). oid_of s) (fed_entries prices)) (map (\<lambda>(s, r). pr_price r) (fed_entries prices)))
      (PriceFeed prices)"
proof -
  have "traverse_res (\<lambda>(s, r). unwrap (map_of get_asset_oids s)) (fed_entries prices)
      = Ok (map (\<lambda>(s, r). oid_of s) (fed_entries prices))"
    using assms by (intro traverse_res_map) (auto simp: fed_entries_def priced_def known_oid image_subset_iff)
  then show ?thesis
    by (simp add: build_and_send_transaction_def fed_entries_def [symmetric] Let_def)
qed

lemma deviated_iff:
  assumes "unat (pr_price r) * 10000 < 2 ^ 256"
    and "\<And>o1. ov_last_oracle_data env (oid_of symbol) = Some o1 \<Longrightarrow> unat o1 * 10000 < 2 ^ 256"
  shows "deviated env (symbol, r) = (if moved_away env (symbol, r) then Some (oid_of symbol, symbol, r) else None)"
proof (cases "map_of get_asset_oids symbol")
  case (Some oid)
  then have oid: "oid = oid_of symbol" by (simp add: oid_of_def)
  show ?thesis
  proof (cases "ov_last_oracle_data env oid")
    case data: (Some o1)
    have bound: "unat o1 * 10000 < 2 ^ 256" using assms(2) data oid by simp
    have thr: "ucast (get_deviation_threshold_bps symbol) = (200 :: u256)"
      by (simp add: get_deviation_threshold_bps_def DEFAULT_PRICE_DEVIATION_THRESHOLD_BPS_def)
    show ?thesis
      using Some data oid deviation_threshold [OF _ bound assms(1)]
      by (simp add: deviated_def moved_away_def thr del: of_nat_unat)
  qed (use Some in \<open>simp add: deviated_def moved_away_def\<close>)
qed (simp add: deviated_def moved_away_def)

lemma map_filter_if:
  "(\<And>x. x \<in> set xs \<Longrightarrow> g x = (if P x then Some (f x) else None))
     \<Longrightarrow> List.map_filter g xs = map f (filter P xs)"
  by (induction xs) (simp_all add: List.map_filter_simps)

lemma finalize_prices_effects:
  "finalize_prices env manager oids =
     (if is_relay_target (metadata (ov_client env))
      then map (\<lambda>oid. SendTx (client_chain_id (ov_client env))
             \<lparr>tx_to = manager, tx_from = None, tx_call = LatestOracleData oid, tx_gas_limit = None\<rparr> (PriceFeed [])) oids
      else [], Ok ())"
proof -
  have "finalize_prices env manager oids = (concat (map (\<lambda>oid. fst (send_transaction (ov_client env)
         \<lparr>tx_to = manager, tx_from = None, tx_call = LatestOracleData oid, tx_gas_limit = None\<rparr> (PriceFeed []))) oids), Ok ())"
    unfolding finalize_prices_def by (rule for_each_all_ok) simp
  then show ?thesis
    by (induction oids) (auto simp: send_transaction_def)
qed

text \<open>
  C12: The average is the one the documentation describes. When no source panics, some source has
  a quote with a volume, and sums of products stay below 256 bits, the feeder's table holds for
  every symbol exactly the volume-weighted average of all its quotes, rounded down, or one USD for
  a stable coin without quotes; every average lies between two of the quotes it is made of.
\<close>

theorem average_equivalence:
  assumes "gather (ov_prices env) (filter (\<lambda>f. fetcher_mode f = mode) (market_sources st)) = Ok results"
    and "px_parse_ether (ov_prices env) ''1'' = Some one"
    and "quotes results s0 \<noteq> []"
    and "\<And>s. weighted_sum (quotes results s) < 2 ^ 256" and "\<And>s. volume_sum (quotes results s) < 2 ^ 256"
  shows "\<exists>prices. feeder_fetch_vwap_prices env st mode = Ok prices
    \<and> map_of prices = reference_vwap one mode results
    \<and> (\<forall>s lo hi. quotes results s \<noteq> []
        \<longrightarrow> (\<forall>q \<in> set (quotes results s). lo \<le> unat (pr_price q) \<and> unat (pr_price q) \<le> hi)
        \<longrightarrow> (\<exists>r. map_of prices s = Some r \<and> lo \<le> unat (pr_price r) \<and> unat (pr_price r) \<le> hi))"
proof -
  obtain prices where prices: "feeder_fetch_vwap_prices env st mode = Ok prices"
    "map_of prices = reference_vwap one mode results"
    by (rule feeder_average [OF assms])
  have "lo \<le> unat (pr_price (reference_price (quotes results s)))
      \<and> unat (pr_price (reference_price (quotes results s))) \<le> hi"
    if q: "quotes results s \<noteq> []"
      and range: "\<forall>q \<in> set (quotes results s). lo \<le> unat (pr_price q) \<and> unat (pr_price q) \<le> hi" for s lo hi
  proof -
    have "weighted_sum (quotes results s) div volume_sum (quotes results s) < 2 ^ 256"
      using assms(4) div_le_dividend le_less_trans by blast
    then have "unat (pr_price (reference_price (quotes results s)))
        = weighted_sum (quotes results s) div volume_sum (quotes results s)"
      by (simp only: reference_price_def PriceResponse.simps unat_word_of_nat)
    with average_within [OF q volume_sum_pos [OF q], of lo hi] range show ?thesis by simp
  qed
  with prices show ?thesis
    by (intro exI [of _ prices]) (auto simp: reference_vwap_def)
qed

theorem average_equivalence_witness:
  "\<exists>prices. feeder_fetch_vwap_prices ex_oracle_env ex_feeder Mode_Standard = Ok prices
     \<and> map_of prices = reference_vwap (10 ^ 18) Mode_Standard ex_results"
proof -
  have "gather (ov_prices ex_oracle_env) (filter (\<lambda>f. fetcher_mode f = Mode_Standard) (market_sources ex_feeder))
      = Ok ex_results"
    using ex_gather by (simp add: ex_feeder_def ex_prices)
  then show ?thesis
    using average_equivalence [of ex_oracle_env Mode_Standard ex_feeder ex_results "10 ^ 18" "''ETH''"]
      ex_one ex_sums ex_quotes_ne by (auto simp: ex_prices)
qed

text \<open>
  C13: A feed writes every price under its asset. For a feeder that was started and restarted any
  number of times, when the exchanges answer for the markets they were asked for and prices could
  be fetched, a turn of a selected relayer does not panic and sends one transaction: for each
  symbol with a price other than zero the identifier of that asset and that price, prices of the
  dedicated source taking precedence.
\<close>

theorem feed_complete:
  assumes "answers_asked (ov_prices env)"
    and "st = ((initialize_fetchers env) ^^ Suc n) feeder_new"
    and "client_is_selected_relayer (ov_selected env) (ov_client env) = Ok True"
    and "feeder_fetch_vwap_prices env st Mode_Standard = Ok standard"
    and "dedicated_prices env st = Ok dedicated"
    and "is_relay_target (metadata (ov_client env))"
  shows "\<exists>prices. feeder_tick env st =
      ([SendTx (client_chain_id (ov_client env))
          (feed_request env (map (\<lambda>(s, r). oid_of s) (fed_entries prices)) (map (\<lambda>(s, r). pr_price r) (fed_entries prices)))
          (PriceFeed prices)], Ok ())
    \<and> map_of prices = map_of (rev standard) ++ map_of (rev dedicated)
    \<and> (\<forall>(s, r) \<in> set prices. map_of get_asset_oids s = Some (oid_of s))"
proof -
  let ?all = "btree_extend (btree_extend [] standard) dedicated"
  have own: "own_sources st" unfolding assms(2) by (rule restarts_own)
  have ne: "market_sources st \<noteq> []" by (simp add: assms(2) initialize_ne)
  have std: "priced standard" "standard \<noteq> []"
    using feeder_fetch_priced [OF assms(4)] own assms(1) by (simp_all add: own_sources_def)
  have ded: "priced dedicated" by (rule dedicated_priced [OF assms(5) own assms(1)])
  have all: "priced ?all"
    using std(1) ded by (intro extend_priced) (simp_all add: priced_def)
  have inv: "btree_inv (btree_extend [] standard)"
    unfolding btree_extend_def by (intro btree.inv_fold) simp
  have lookup: "map_of ?all = map_of (rev standard) ++ map_of (rev dedicated)"
    using btree.lookup_fold [OF inv, of dedicated] btree.lookup_fold [of "[]" standard]
    by (simp add: btree_extend_def)
  have "?all \<noteq> []" using extend_ne [of "btree_extend [] standard" dedicated] extend_ne [of "[]" standard] std(2) by blast
  then have "feeder_tick env st = build_and_send_transaction env ?all"
    using assms(3-5) ne by (simp add: feeder_tick_def fetch_and_feed_def)
  moreover have "\<forall>(s, r) \<in> set ?all. map_of get_asset_oids s = Some (oid_of s)"
    using all by (auto simp: priced_def known_oid image_subset_iff)
  ultimately show ?thesis
    using build_and_send_priced [OF all, of env] lookup assms(6)
    by (intro exI [of _ ?all]) (simp add: send_transaction_def emit_def)
qed

theorem feed_complete_witness:
  "\<exists>prices. feeder_tick ex_oracle_env (initialize_fetchers ex_oracle_env feeder_new) =
      ([SendTx 3068
          (feed_request ex_oracle_env (map (\<lambda>(s, r). oid_of s) (fed_entries prices))
            (map (\<lambda>(s, r). pr_price r) (fed_entries prices)))
          (PriceFeed prices)], Ok ())"
proof -
  let ?st = "initialize_fetchers ex_oracle_env feeder_new"
  have st: "?st = ((initialize_fetchers ex_oracle_env) ^^ Suc 0) feeder_new" by simp
  have g: "gather (ov_prices ex_oracle_env) (filter (\<lambda>f. fetcher_mode f = Mode_Standard) (market_sources ?st))
      = Ok ex_results"
    using ex_gather_all by (simp add: ex_all_sources ex_prices del: gather.simps)
  obtain standard where std: "feeder_fetch_vwap_prices ex_oracle_env ?st Mode_Standard = Ok standard"
    using feeder_average [OF g _ ex_quotes_ne ex_sums] ex_one by (metis ex_prices)
  have ded: "dedicated_prices ex_oracle_env ?st = Ok []"
    using ex_failing(5)
    by (simp add: dedicated_prices_def ex_all_sources get_tickers_def ex_prices feeder_fetch_vwap_prices_def
        vwap_accumulate_def)
  have ask: "answers_asked (ov_prices ex_oracle_env)"
    by (simp add: answers_asked_def ex_prices) (simp add: ex_price_env_def binance_symbols_def)
  have sel: "client_is_selected_relayer (ov_selected ex_oracle_env) (ov_client ex_oracle_env) = Ok True"
    and tgt: "is_relay_target (metadata (ov_client ex_oracle_env))"
    and chain: "client_chain_id (ov_client ex_oracle_env) = 3068"
    by (simp_all add: client_is_selected_relayer_def client_chain_id_def ex_oracle_env_def ex_defs)
  from feed_complete [OF ask st sel std ded tgt] show ?thesis
    unfolding chain by blast
qed



end
