(* ===== verification/Tx_Submission.thy ===== *)
theory Tx_Submission
  imports Example_Setup Ordered_Map "HOL-Library.Sublist"
begin

text \<open>
  How a transaction reaches an EVM chain (\<open>client/src/eth/mod.rs\<close>): filling in gas, the task that
  submits and watches it, and the flush that sends transactions stuck in the node's pool again
  with higher fees. Answers of the node and products of floating-point numbers are arguments.
\<close>

section \<open>Requests\<close>

text \<open>The fields of a request that the client sets; the fee fields say which kind of transaction it is.\<close>

record GasRequest =
  g_from :: "address option"
  g_to :: address
  g_input :: bytes
  g_nonce :: "u64 option"
  g_gas_limit :: "u64 option"
  g_gas_price :: "u128 option"
  g_max_fee_per_gas :: "u128 option"
  g_max_priority_fee_per_gas :: "u128 option"

text \<open>
  What the node answers: an estimate, the gas price, the fees for EIP-1559 transactions.
  \<open>n_scaled\<close> is the product of an estimate and a coefficient, rounded up.
\<close>

record NodeEnv =
  n_client :: EthClient
  n_estimate :: "GasRequest \<Rightarrow> u64 res"
  n_gas_price :: "u128 res"
  n_scaled :: "GasCoefficient \<Rightarrow> u64 \<Rightarrow> u64"

definition MAX_GAS_LIMIT :: u64 where "MAX_GAS_LIMIT = 52000000"

definition fill_gas :: "NodeEnv \<Rightarrow> GasRequest \<Rightarrow> GasRequest res" where
  "fill_gas env request0 =
     (let request = (if g_from request0 = None
                     then request0\<lparr>g_from := Some (default_address (n_client env))\<rparr> else request0);
          native = is_native (metadata (n_client env))
      in bind_res
           (case g_gas_limit request of
              Some _ \<Rightarrow> Ok request
            | None \<Rightarrow>
                bind_res (n_estimate env request) (\<lambda>gas.
                  Ok (request\<lparr>g_gas_limit :=
                        Some (min (n_scaled env (gas_coefficient_from_bool native) gas) MAX_GAS_LIMIT)\<rparr>)))
           (\<lambda>r. if native
                 then Ok (r\<lparr>g_max_fee_per_gas := Some (1000 * 10 ^ 9), g_max_priority_fee_per_gas := Some 0\<rparr>)
                 else if \<not> eip1559 (metadata (n_client env))
                 then bind_res (n_gas_price env) (\<lambda>p. Ok (r\<lparr>g_gas_price := Some p\<rparr>))
                 else Ok r))"

section \<open>Flushing the pool\<close>

record PoolTx =
  pt_to :: "address option"
  pt_input :: bytes
  pt_nonce :: u64
  pt_gas_limit :: u64
  pt_is_eip1559 :: bool
  pt_gas_price :: "u128 option"
  pt_max_fee :: "u128 option"
  pt_max_priority_fee :: "u128 option"

type_synonym pool = "(string \<times> PoolTx) list"

definition unwrap_or :: "'a option \<Rightarrow> 'a \<Rightarrow> 'a" where
  "unwrap_or x d = (case x of Some v \<Rightarrow> v | None \<Rightarrow> d)"

text \<open>A contract creation has no recipient and makes the conversion panic.\<close>

definition flush_request :: "address \<Rightarrow> PoolTx \<Rightarrow> GasRequest res" where
  "flush_request address tx =
     bind_res (unwrap (pt_to tx)) (\<lambda>recipient.
       let request = \<lparr>g_from = Some address, g_to = recipient, g_input = pt_input tx, g_nonce = Some (pt_nonce tx),
             g_gas_limit = Some (pt_gas_limit tx), g_gas_price = None, g_max_fee_per_gas = None,
             g_max_priority_fee_per_gas = None\<rparr>
       in Ok (if pt_is_eip1559 tx
              then request\<lparr>g_max_fee_per_gas := Some (unwrap_or (pt_max_fee tx) 0),
                           g_max_priority_fee_per_gas := Some (unwrap_or (pt_max_priority_fee tx) 0)\<rparr>
              else request\<lparr>g_gas_price := Some (unwrap_or (pt_gas_price tx) 0)\<rparr>))"

text \<open>The nonces are set from the account's count on, unless the first one already is the count.\<close>

fun renumber :: "u64 \<Rightarrow> GasRequest list \<Rightarrow> GasRequest list" where
  "renumber count [] = []"
| "renumber count (r # rs) = r\<lparr>g_nonce := Some count\<rparr> # renumber (count + 1) rs"

definition request_nonce :: "GasRequest \<Rightarrow> u64" where
  "request_nonce r = the (g_nonce r)"

definition prepare_flush :: "address \<Rightarrow> PoolTx list \<Rightarrow> u64 res \<Rightarrow> GasRequest list res" where
  "prepare_flush address txs transaction_count =
     bind_res (traverse_res (flush_request address) txs) (\<lambda>requests.
     let sorted_requests = sort_key request_nonce requests
     in bind_res transaction_count (\<lambda>count.
          Ok (if request_nonce (hd sorted_requests) \<noteq> count then renumber count sorted_requests
              else sorted_requests)))"

text \<open>
  The node's answers to the attempts of the flush, by attempt: the current gas price, the current
  EIP-1559 fees, whether the transaction is accepted, and whether it is confirmed in time;
  \<open>fl_bumped\<close> is the product of a fee and 1.1, rounded up.
\<close>

record FlushEnv =
  fl_txpool_status :: bool
  fl_content_from :: "(pool \<times> pool) option"
  fl_content :: "(pool \<times> pool) res"
  fl_transaction_count :: "u64 res"
  fl_gas_price :: "nat \<Rightarrow> u128 res"
  fl_fees :: "nat \<Rightarrow> (u128 \<times> u128) res"
  fl_send :: "nat \<Rightarrow> unit res"
  fl_watch :: "nat \<Rightarrow> bool"
  fl_bumped :: "u128 \<Rightarrow> u128"

text \<open>
  Replacement by fee: at least a tenth more than before, and at least what the node suggests. A
  request with a gas price is a legacy transaction, any other one of the kinds a flush builds an
  EIP-1559 transaction.
\<close>

definition bump_request :: "FlushEnv \<Rightarrow> nat \<Rightarrow> GasRequest \<Rightarrow> GasRequest res" where
  "bump_request env n r =
     (case g_gas_price r of
        Some price \<Rightarrow>
          bind_res (fl_gas_price env n) (\<lambda>current.
            Ok (r\<lparr>g_gas_price := Some (max (fl_bumped env price) current)\<rparr>))
      | None \<Rightarrow>
          bind_res (fl_fees env n) (\<lambda>(current_fee, current_priority).
          bind_res (unwrap (g_max_fee_per_gas r)) (\<lambda>fee.
          bind_res (unwrap (g_max_priority_fee_per_gas r)) (\<lambda>priority.
            Ok (r\<lparr>g_max_fee_per_gas := Some (max (fl_bumped env fee) current_fee),
                 g_max_priority_fee_per_gas := Some (max (fl_bumped env priority) current_priority)\<rparr>)))))"

text \<open>
  A transaction that is not confirmed in time goes back to the front of the queue with its new
  fees; the loop has no other bound. \<open>None\<close> is a loop that does not end.
\<close>

partial_function (option) flush_loop ::
    "FlushEnv \<Rightarrow> nat \<Rightarrow> GasRequest list \<Rightarrow> GasRequest list \<Rightarrow> (GasRequest list \<times> unit res) option" where
  "flush_loop env n transactions sent =
     (case transactions of
        [] \<Rightarrow> Some (sent, Ok ())
      | tx # rest \<Rightarrow>
          (case bump_request env n tx of
             Err e \<Rightarrow> Some (sent, Err e)
           | Panic \<Rightarrow> Some (sent, Panic)
           | Ok tx' \<Rightarrow>
               (case fl_send env n of
                  Err e \<Rightarrow> Some (sent, Err e)
                | Panic \<Rightarrow> Some (sent, Panic)
                | Ok _ \<Rightarrow>
                    if fl_watch env n then flush_loop env (Suc n) rest (sent @ [tx'])
                    else flush_loop env (Suc n) (tx' # rest) (sent @ [tx']))))"

definition pool_of :: "FlushEnv \<Rightarrow> (pool \<times> pool) res" where
  "pool_of env = (case fl_content_from env of Some c \<Rightarrow> Ok c | None \<Rightarrow> fl_content env)"

definition flush_stalled_transactions ::
    "EthClient \<Rightarrow> FlushEnv \<Rightarrow> (GasRequest list \<times> unit res) option" where
  "flush_stalled_transactions client env =
     (if \<not> fl_txpool_status env then Some ([], Ok ())
      else
        (case pool_of env of
           Err e \<Rightarrow> Some ([], Err e)
         | Panic \<Rightarrow> Some ([], Panic)
         | Ok (pending, queued) \<Rightarrow>
             let stalled = map snd (btree_extend pending queued)
             in if stalled = [] then Some ([], Ok ())
                else
                  (case prepare_flush (default_address client) stalled (fl_transaction_count env) of
                     Err e \<Rightarrow> Some ([], Err e)
                   | Panic \<Rightarrow> Some ([], Panic)
                   | Ok requests \<Rightarrow> flush_loop env 0 requests [])))"

section \<open>The submitting task\<close>

text \<open>One submission: accepted and confirmed or not, or refused with an error and its text.\<close>

datatype submission = Accepted_confirmed | Accepted_unconfirmed | Refused_with string

datatype task_end = Gas_failed | Tx_confirmed | Tx_flushed | Tx_failed

definition to_lowercase :: "string \<Rightarrow> string" where
  "to_lowercase = map (\<lambda>c. if (65 :: nat) \<le> of_char c \<and> of_char c \<le> (90 :: nat) then char_of (of_char c + 32 :: nat) else c)"

definition nonce_too_low :: "string \<Rightarrow> bool" where
  "nonce_too_low err = sublist ''nonce too low'' (to_lowercase err)"

text \<open>
  \<open>answers k\<close> is the node's answer to the \<open>k\<close>-th submission and \<open>flushes k\<close> the outcome of the flush
  after it (\<open>None\<close>: it does not end), whose failure panics. After a nonce that is too low the task
  flushes and spawns itself again with the request as filled so far.
\<close>

partial_function (option) send_task ::
    "NodeEnv \<Rightarrow> (nat \<Rightarrow> submission) \<Rightarrow> (nat \<Rightarrow> unit res option) \<Rightarrow> nat \<Rightarrow> GasRequest
      \<Rightarrow> (nat \<times> task_end res) option" where
  "send_task env answers flushes k request =
     (case fill_gas env request of
        Err e \<Rightarrow> Some (k, Ok Gas_failed)
      | Panic \<Rightarrow> Some (k, Panic)
      | Ok filled \<Rightarrow>
          (case answers k of
             Accepted_confirmed \<Rightarrow> Some (Suc k, Ok Tx_confirmed)
           | Accepted_unconfirmed \<Rightarrow>
               (case flushes k of
                  None \<Rightarrow> None
                | Some (Ok _) \<Rightarrow> Some (Suc k, Ok Tx_flushed)
                | Some _ \<Rightarrow> Some (Suc k, Panic))
           | Refused_with err \<Rightarrow>
               if nonce_too_low err
               then (case flushes k of
                       None \<Rightarrow> None
                     | Some (Ok _) \<Rightarrow> send_task env answers flushes (Suc k) filled
                     | Some _ \<Rightarrow> Some (Suc k, Panic))
               else Some (Suc k, Ok Tx_failed)))"

section \<open>A concrete setting\<close>

definition ex_node :: NodeEnv where
  "ex_node = \<lparr>n_client = ex_client 3068 True, n_estimate = (\<lambda>_. Ok 20000000), n_gas_price = Ok 7,
     n_scaled = (\<lambda>c gas. case c of Low \<Rightarrow> gas | Mid \<Rightarrow> 5 * gas | High \<Rightarrow> 10 * gas)\<rparr>"

definition ex_request :: GasRequest where
  "ex_request = \<lparr>g_from = None, g_to = 5, g_input = [1], g_nonce = None, g_gas_limit = None, g_gas_price = None,
     g_max_fee_per_gas = None, g_max_priority_fee_per_gas = None\<rparr>"

definition ex_pool_tx :: "u64 \<Rightarrow> PoolTx" where
  "ex_pool_tx n = \<lparr>pt_to = Some 5, pt_input = [1], pt_nonce = n, pt_gas_limit = 21000, pt_is_eip1559 = False,
     pt_gas_price = Some 10, pt_max_fee = None, pt_max_priority_fee = None\<rparr>"

definition ex_flush :: FlushEnv where
  "ex_flush = \<lparr>fl_txpool_status = True, fl_content_from = Some ([(''4'', ex_pool_tx 4)], [(''6'', ex_pool_tx 6)]),
     fl_content = Err RpcError, fl_transaction_count = Ok 3, fl_gas_price = (\<lambda>_. Ok 7), fl_fees = (\<lambda>_. Ok (8, 1)),
     fl_send = (\<lambda>_. Ok ()), fl_watch = odd, fl_bumped = (\<lambda>x. x)\<rparr>"

section \<open>Fees and payloads\<close>

text \<open>A request that a flush can send again, and a resend of it: same payload, fees at least as high.\<close>

definition flushable :: "GasRequest \<Rightarrow> bool" where
  "flushable r \<longleftrightarrow>
     g_nonce r \<noteq> None
     \<and> (g_gas_price r \<noteq> None \<or> g_max_fee_per_gas r \<noteq> None \<and> g_max_priority_fee_per_gas r \<noteq> None)"

definition option_le :: "'a::ord option \<Rightarrow> 'a option \<Rightarrow> bool" where
  "option_le x y = (case (x, y) of (Some a, Some b) \<Rightarrow> a \<le> b | (None, None) \<Rightarrow> True | _ \<Rightarrow> False)"

definition resend :: "GasRequest \<Rightarrow> GasRequest \<Rightarrow> bool" where
  "resend r r' \<longleftrightarrow>
     g_from r' = g_from r \<and> g_to r' = g_to r \<and> g_input r' = g_input r \<and> g_nonce r' = g_nonce r
     \<and> g_gas_limit r' = g_gas_limit r \<and> option_le (g_gas_price r) (g_gas_price r')
     \<and> option_le (g_max_fee_per_gas r) (g_max_fee_per_gas r')
     \<and> option_le (g_max_priority_fee_per_gas r) (g_max_priority_fee_per_gas r')"

text \<open>What the node has to do for a flush to end: answer, accept, and confirm again and again.\<close>

definition node_answers :: "FlushEnv \<Rightarrow> bool" where
  "node_answers env \<longleftrightarrow>
     (\<forall>n. is_ok (fl_gas_price env n) \<and> is_ok (fl_fees env n) \<and> fl_send env n = Ok ())
     \<and> (\<forall>x. x \<le> fl_bumped env x)"

definition confirms_again :: "FlushEnv \<Rightarrow> bool" where
  "confirms_again env \<longleftrightarrow> (\<forall>n. \<exists>m \<ge> n. fl_watch env m)"

text \<open>The attempts made for one request, in order: never none, and each no cheaper than the last.\<close>

definition attempts_for :: "GasRequest \<Rightarrow> GasRequest list \<Rightarrow> bool" where
  "attempts_for r attempts \<longleftrightarrow> attempts \<noteq> [] \<and> sorted_wrt resend (r # attempts)"

lemma is_ok_iff: "is_ok r \<longleftrightarrow> (\<exists>x. r = Ok x)"
  by (cases r) auto

lemma option_le_refl [simp]: "option_le x (x :: 'a::preorder option)"
  by (simp add: option_le_def split: option.splits)

lemma option_le_Some [simp]: "option_le (Some a) (Some b) \<longleftrightarrow> a \<le> b"
  by (simp add: option_le_def)

lemma option_le_trans: "option_le x y \<Longrightarrow> option_le y z \<Longrightarrow> option_le x (z :: 'a::preorder option)"
  by (auto simp: option_le_def split: option.splits intro: order_trans)

lemma resend_trans: "resend a b \<Longrightarrow> resend b c \<Longrightarrow> resend a c"
  unfolding resend_def by (auto intro: option_le_trans)

lemma bump_request_ok:
  assumes "node_answers env" and "flushable r"
  obtains r' where "bump_request env n r = Ok r'" and "flushable r'" and "resend r r'"
proof -
  obtain price fee priority where ok: "fl_gas_price env n = Ok price" "fl_fees env n = Ok (fee, priority)"
    using assms(1) by (metis is_ok_iff node_answers_def old.prod.exhaust)
  have up: "x \<le> max (fl_bumped env x) y" for x y
    using assms(1) by (auto simp: node_answers_def le_max_iff_disj)
  consider (legacy) p where "g_gas_price r = Some p"
    | (dynamic) a b where "g_gas_price r = None" "g_max_fee_per_gas r = Some a" "g_max_priority_fee_per_gas r = Some b"
    using assms(2) by (auto simp: flushable_def)
  then show thesis
  proof cases
    case legacy
    with ok assms(2) up show thesis
      by (intro that) (auto simp: bump_request_def flushable_def resend_def)
  next
    case dynamic
    with ok assms(2) up show thesis
      by (intro that) (auto simp: bump_request_def flushable_def resend_def)
  qed
qed

lemma flush_step:
  assumes "node_answers env" and "flushable tx"
  obtains tx' where "flushable tx'" and "resend tx tx'"
    and "flush_loop env n (tx # rest) sent =
      (if fl_watch env n then flush_loop env (Suc n) rest (sent @ [tx'])
       else flush_loop env (Suc n) (tx' # rest) (sent @ [tx']))"
proof -
  obtain tx' where "bump_request env n tx = Ok tx'" "flushable tx'" "resend tx tx'"
    by (rule bump_request_ok [OF assms])
  moreover have "fl_send env n = Ok ()" using assms(1) by (simp add: node_answers_def)
  ultimately show thesis
    by (intro that [of tx']) (simp_all add: flush_loop.simps [of env n])
qed

lemma flush_one:
  assumes ans: "node_answers env"
  shows "flushable tx \<Longrightarrow> fl_watch env (n + d) \<Longrightarrow> (\<forall>j < d. \<not> fl_watch env (n + j)) \<Longrightarrow>
    \<exists>c. attempts_for tx c \<and> flush_loop env n (tx # rest) sent = flush_loop env (Suc (n + d)) rest (sent @ c)"
proof (induction d arbitrary: n tx sent)
  case 0
  obtain tx' where "resend tx tx'" "flush_loop env n (tx # rest) sent =
      (if fl_watch env n then flush_loop env (Suc n) rest (sent @ [tx'])
       else flush_loop env (Suc n) (tx' # rest) (sent @ [tx']))"
    by (rule flush_step [OF ans 0(1)])
  with 0(2) show ?case
    by (intro exI [of _ "[tx']"]) (simp add: attempts_for_def)
next
  case (Suc d)
  obtain tx' where tx': "flushable tx'" "resend tx tx'" "flush_loop env n (tx # rest) sent =
      (if fl_watch env n then flush_loop env (Suc n) rest (sent @ [tx'])
       else flush_loop env (Suc n) (tx' # rest) (sent @ [tx']))"
    by (rule flush_step [OF ans Suc.prems(1)])
  have "\<not> fl_watch env n" using Suc.prems(3) by (metis add_0_right zero_less_Suc)
  moreover have "\<forall>j < d. \<not> fl_watch env (Suc n + j)"
    using Suc.prems(3) by (metis Suc_less_eq add_Suc_shift)
  then obtain c where c: "attempts_for tx' c"
    "flush_loop env (Suc n) (tx' # rest) (sent @ [tx']) = flush_loop env (Suc (Suc n + d)) rest ((sent @ [tx']) @ c)"
    using Suc.IH [OF tx'(1), of "Suc n" "sent @ [tx']"] Suc.prems(2) by auto
  moreover have "attempts_for tx (tx' # c)"
    using c(1) tx'(2) by (auto simp: attempts_for_def intro: resend_trans)
  ultimately show ?case
    using tx'(3) by (intro exI [of _ "tx' # c"]) simp
qed

lemma flush_all:
  assumes "node_answers env" and "confirms_again env"
  shows "\<forall>tx \<in> set txs. flushable tx \<Longrightarrow>
    \<exists>cs. list_all2 attempts_for txs cs \<and> flush_loop env n txs sent = Some (sent @ concat cs, Ok ())"
proof (induction txs arbitrary: n sent)
  case Nil
  show ?case by (simp add: flush_loop.simps)
next
  case (Cons tx txs)
  define m where "m = (LEAST m. n \<le> m \<and> fl_watch env m)"
  have m: "n \<le> m \<and> fl_watch env m"
    unfolding m_def by (rule LeastI_ex) (use assms(2) in \<open>auto simp: confirms_again_def\<close>)
  have "\<not> fl_watch env (n + j)" if "j < m - n" for j
    using not_less_Least [of "n + j" "\<lambda>m. n \<le> m \<and> fl_watch env m"] that by (auto simp: m_def)
  then obtain c where c: "attempts_for tx c"
    "flush_loop env n (tx # txs) sent = flush_loop env (Suc m) txs (sent @ c)"
    using flush_one [OF assms(1), of tx n "m - n" txs sent] m Cons.prems by auto
  obtain cs where "list_all2 attempts_for txs cs"
    "flush_loop env (Suc m) txs (sent @ c) = Some ((sent @ c) @ concat cs, Ok ())"
    using Cons.IH [of "Suc m" "sent @ c"] Cons.prems by auto
  with c show ?case by (intro exI [of _ "c # cs"]) simp
qed

lemma flush_hangs:
  assumes "node_answers env" and "\<And>n. \<not> fl_watch env n" and "flushable tx"
  shows "flush_loop env n (tx # rest) sent = None"
proof -
  have no_end: "\<forall>tx rest. txs = tx # rest \<longrightarrow> flushable tx \<longrightarrow> e = env \<longrightarrow> False"
    if "flush_loop e n txs sent = Some y" for e n txs sent y
    using that
  proof (rule flush_loop.raw_induct [rotated, where P = "\<lambda>e n txs sent y. \<forall>tx rest. txs = tx # rest \<longrightarrow> flushable tx \<longrightarrow> e = env \<longrightarrow> False"], goal_cases)
    case (1 f e n txs sent y)
    show ?case
    proof (intro allI impI)
      fix tx rest assume tx: "txs = tx # rest" "flushable tx" "e = env"
      obtain tx' where "bump_request env n tx = Ok tx'" "flushable tx'" "resend tx tx'"
        by (rule bump_request_ok [OF assms(1) tx(2)])
      moreover have "fl_send env n = Ok ()" using assms(1) by (simp add: node_answers_def)
      ultimately have "f env (Suc n) (tx' # rest) (sent @ [tx']) = Some y"
        using 1(2) tx assms(2) by simp
      from 1(1) [OF this] \<open>flushable tx'\<close> show False by auto
    qed
  qed
  show ?thesis
  proof (cases "flush_loop env n (tx # rest) sent")
    case (Some y)
    from no_end [OF this] assms(3) show ?thesis by blast
  qed
qed

section \<open>Nonces\<close>

lemma renumber_nonces: "map request_nonce (renumber c rs) = map (\<lambda>i. c + word_of_nat i) [0..<length rs]"
proof (induction rs arbitrary: c)
  case (Cons r rs)
  have "[0..<length (r # rs)] = 0 # map Suc [0..<length rs]"
    by (simp add: map_Suc_upt upt_conv_Cons del: upt_Suc)
  then show ?case
    by (simp only: list.map map_map comp_def renumber.simps Cons.IH) (simp add: request_nonce_def)
qed simp

lemma flushable_nonce: "flushable r \<Longrightarrow> flushable (r\<lparr>g_nonce := Some c\<rparr>)"
  by (simp add: flushable_def)

lemma renumber_flushable: "\<forall>r \<in> set rs. flushable r \<Longrightarrow> \<forall>r \<in> set (renumber c rs). flushable r"
  by (induction rs arbitrary: c) (simp_all add: flushable_nonce)

lemma renumber_payload: "map g_input (renumber c rs) = map g_input rs"
  by (induction rs arbitrary: c) auto

lemma flush_request_ok:
  "flush_request a tx = Ok r \<Longrightarrow> flushable r \<and> g_from r = Some a \<and> g_input r = pt_input tx \<and> request_nonce r = pt_nonce tx"
  by (auto simp: flush_request_def bind_res_Ok_iff Let_def flushable_def request_nonce_def split: if_splits)

lemma insort_key_all2:
  assumes "\<And>x y. R x y \<Longrightarrow> k x = k' y"
  shows "R x y \<Longrightarrow> list_all2 R xs ys \<Longrightarrow> list_all2 R (insort_key k x xs) (insort_key k' y ys)"
proof (induction xs arbitrary: ys)
  case (Cons a xs)
  then obtain b bs where ys: "ys = b # bs" "R a b" "list_all2 R xs bs" by (auto simp: list_all2_Cons1)
  have "k x = k' y" "k a = k' b" using assms Cons.prems(1) ys(2) by auto
  with Cons ys show ?case by auto
qed simp

lemma sort_key_all2:
  assumes "\<And>x y. R x y \<Longrightarrow> k x = k' y"
  shows "list_all2 R xs ys \<Longrightarrow> list_all2 R (sort_key k xs) (sort_key k' ys)"
proof (induction rule: list_all2_induct)
  case (Cons x xs y ys)
  then show ?case using insort_key_all2 [of R k k' x y, OF assms] by simp
qed simp

lemma prepare_flush_ok:
  assumes "prepare_flush a txs count = Ok rs"
  obtains c where "count = Ok c" and "\<forall>r \<in> set rs. flushable r"
    and "map g_input rs = map pt_input (sort_key pt_nonce txs)"
    and "map request_nonce rs = map (\<lambda>i. c + word_of_nat i) [0..<length txs]
         \<or> map request_nonce rs = map pt_nonce (sort_key pt_nonce txs) \<and> request_nonce (hd rs) = c"
proof -
  obtain qs c where qs: "traverse_res (flush_request a) txs = Ok qs" and c: "count = Ok c"
    and rs: "rs = (if request_nonce (hd (sort_key request_nonce qs)) \<noteq> c
                   then renumber c (sort_key request_nonce qs) else sort_key request_nonce qs)"
    using assms by (auto simp: prepare_flush_def bind_res_Ok_iff Let_def)
  have l2: "list_all2 (\<lambda>tx r. flush_request a tx = Ok r) txs qs"
    using qs by (simp only: traverse_res_Ok_iff)
  then have all: "list_all2 (\<lambda>tx r. flush_request a tx = Ok r) (sort_key pt_nonce txs) (sort_key request_nonce qs)"
    by (rule sort_key_all2 [rotated]) (auto dest: flush_request_ok)
  have len: "length (sort_key request_nonce qs) = length txs" using list_all2_lengthD [OF all] by simp
  have flushable: "\<forall>r \<in> set (sort_key request_nonce qs). flushable r"
    using l2 unfolding set_sort
    by (induction rule: list_all2_induct) (auto dest: flush_request_ok)
  have input: "map g_input (sort_key request_nonce qs) = map pt_input (sort_key pt_nonce txs)"
    "map request_nonce (sort_key request_nonce qs) = map pt_nonce (sort_key pt_nonce txs)"
    using all by (induction rule: list_all2_induct) (auto dest: flush_request_ok)
  show thesis
    using c rs len flushable input renumber_flushable [OF flushable]
    by (intro that [of c]) (auto simp: renumber_payload renumber_nonces)
qed

section \<open>Properties\<close>

lemma fill_gas_idem: "fill_gas env r = Ok r' \<Longrightarrow> fill_gas env r' = Ok r'"
  by (auto simp: fill_gas_def Let_def bind_res_Ok_iff split: option.splits if_splits)

text \<open>
  As long as every refusal is a nonce that is too low and every flush succeeds, the task goes on
  with the request it filled first; the first other answer decides how it ends.
\<close>

lemma send_task_retries:
  assumes "\<forall>j < d. \<exists>err. answers (k + j) = Refused_with err \<and> nonce_too_low err \<and> flushes (k + j) = Some (Ok ())"
    and "fill_gas env r = Ok filled"
  shows "send_task env answers flushes k r = send_task env answers flushes (k + d) (if d = 0 then r else filled)"
  using assms
proof (induction d arbitrary: k r)
  case (Suc d)
  obtain err where "answers k = Refused_with err" "nonce_too_low err" "flushes k = Some (Ok ())"
    using Suc.prems(1) by (metis add_0_right zero_less_Suc)
  then have "send_task env answers flushes k r = send_task env answers flushes (Suc k) filled"
    using Suc.prems(2) by (subst send_task.simps) simp
  moreover have "\<forall>j < d. \<exists>err. answers (Suc k + j) = Refused_with err \<and> nonce_too_low err \<and> flushes (Suc k + j) = Some (Ok ())"
    using Suc.prems(1) by (metis Suc_less_eq add_Suc_shift)
  note Suc.IH [OF this fill_gas_idem [OF Suc.prems(2)]]
  ultimately show ?case by (simp split: if_splits)
qed simp





end
