(* ===== verification/Storage_Queries.thy ===== *)
theory Storage_Queries
  imports Vault_Key_Workers
begin

text \<open>
  The queries that the key workers repeat until the runtime answers
  (\<open>periodic/src/keypair_migrator.rs\<close>, \<open>pub_key_presubmitter.rs\<close>). Attempts are numbered: \<open>connect n\<close>
  is the block the \<open>n\<close>-th attempt gets, \<open>None\<close> if the node does not answer; a query returns the
  number of the next attempt with its result. A loop that does not end has the value \<open>None\<close>.
\<close>

section \<open>The loops\<close>

datatype 'a fetched = Fetch_failed | Missing | Undecodable | Fetched 'a

text \<open>The migrator asks again for an answer it cannot decode; a missing entry is \<open>unreachable!\<close>.\<close>

partial_function (option) mg_query ::
    "(nat \<Rightarrow> 'b option) \<Rightarrow> ('b \<Rightarrow> 'a fetched) \<Rightarrow> nat \<Rightarrow> ('a res \<times> nat) option" where
  "mg_query connect fetch n =
     (case connect n of
        None \<Rightarrow> mg_query connect fetch (Suc n)
      | Some b \<Rightarrow>
          (case fetch b of
             Fetched v \<Rightarrow> Some (Ok v, Suc n)
           | Missing \<Rightarrow> Some (Panic, Suc n)
           | Undecodable \<Rightarrow> mg_query connect fetch (Suc n)
           | Fetch_failed \<Rightarrow> mg_query connect fetch (Suc n)))"

definition get_service_state ::
    "(nat \<Rightarrow> 'b option) \<Rightarrow> ('b \<Rightarrow> MigrationSequence fetched) \<Rightarrow> nat \<Rightarrow> (MigrationSequence res \<times> nat) option" where
  "get_service_state connect service_state n = mg_query connect service_state n"

definition mg_get_current_round ::
    "(nat \<Rightarrow> 'b option) \<Rightarrow> ('b \<Rightarrow> u32 fetched) \<Rightarrow> nat \<Rightarrow> (u32 res \<times> nat) option" where
  "mg_get_current_round connect current_round n = mg_query connect current_round n"

definition mg_start ::
    "(u32 \<Rightarrow> bool) \<Rightarrow> (nat \<Rightarrow> 'b option) \<Rightarrow> ('b \<Rightarrow> MigrationSequence fetched) \<Rightarrow> ('b \<Rightarrow> u32 fetched)
      \<Rightarrow> Migrator \<Rightarrow> (Migrator res \<times> nat) option" where
  "mg_start opens connect service_state current_round mg =
     (case get_service_state connect service_state 0 of
        None \<Rightarrow> None
      | Some (Ok state, n) \<Rightarrow>
          (case mg_get_current_round connect current_round n of
             None \<Rightarrow> None
           | Some (Ok rnd, m) \<Rightarrow> Some (mg_initialize opens state rnd mg, m)
           | Some (Err e, m) \<Rightarrow> Some (Err e, m)
           | Some (Panic, m) \<Rightarrow> Some (Panic, m))
      | Some (Err e, n) \<Rightarrow> Some (Err e, n)
      | Some (Panic, n) \<Rightarrow> Some (Panic, n))"

partial_function (option) get_latest_block :: "(nat \<Rightarrow> 'b option) \<Rightarrow> nat \<Rightarrow> ('b \<times> nat) option" where
  "get_latest_block connect n =
     (case connect n of Some b \<Rightarrow> Some (b, Suc n) | None \<Rightarrow> get_latest_block connect (Suc n))"

text \<open>The presubmitter unwraps what it decodes.\<close>

partial_function (option) pp_get_current_round ::
    "(nat \<Rightarrow> 'b option) \<Rightarrow> ('b \<Rightarrow> u32 fetched) \<Rightarrow> nat \<Rightarrow> (u32 res \<times> nat) option" where
  "pp_get_current_round connect current_round n =
     (case get_latest_block connect n of
        None \<Rightarrow> None
      | Some (b, m) \<Rightarrow>
          (case current_round b of
             Fetched rnd \<Rightarrow> Some (Ok rnd, m)
           | Fetch_failed \<Rightarrow> pp_get_current_round connect current_round m
           | Missing \<Rightarrow> Some (Panic, m)
           | Undecodable \<Rightarrow> Some (Panic, m)))"

text \<open>The limit is read with an \<open>unwrap\<close> at every step: unlike the other queries it is not repeated.\<close>

partial_function (option) get_presubmittable_amount ::
    "(nat \<Rightarrow> 'b option) \<Rightarrow> ('b \<Rightarrow> nat fetched) \<Rightarrow> ('b \<Rightarrow> u32 fetched) \<Rightarrow> ('b \<Rightarrow> u32 \<Rightarrow> bytes list fetched)
      \<Rightarrow> nat \<Rightarrow> (nat res \<times> nat) option" where
  "get_presubmittable_amount connect limit current_round keys n =
     (case get_latest_block connect n of
        None \<Rightarrow> None
      | Some (b, m) \<Rightarrow>
          (case limit b of
             Fetched max_presubmission \<Rightarrow>
               (case pp_get_current_round connect current_round m of
                  None \<Rightarrow> None
                | Some (Ok rnd, k) \<Rightarrow>
                    (case keys b rnd of
                       Fetched submitted \<Rightarrow> Some (Ok (presubmittable_amount max_presubmission (Some submitted)), k)
                     | Missing \<Rightarrow> Some (Ok (presubmittable_amount max_presubmission None), k)
                     | Undecodable \<Rightarrow> Some (Panic, k)
                     | Fetch_failed \<Rightarrow> get_presubmittable_amount connect limit current_round keys k)
                | Some (Err e, k) \<Rightarrow> Some (Err e, k)
                | Some (Panic, k) \<Rightarrow> Some (Panic, k))
           | _ \<Rightarrow> Some (Panic, m)))"

section \<open>Repetition\<close>

text \<open>
  A loop that ends at the first attempt that decides, and only then. \<open>verdict n\<close> is what attempt
  \<open>n\<close> decides, \<open>None\<close> if it is repeated.
\<close>

locale attempts =
  fixes verdict :: "nat \<Rightarrow> 'r option"
    and loop :: "nat \<Rightarrow> 'r option"
  assumes unfold: "loop n = (case verdict n of Some r \<Rightarrow> Some r | None \<Rightarrow> loop (Suc n))"
    and least: "(\<And>m. n \<le> m \<Longrightarrow> verdict m = None) \<Longrightarrow> loop n = None"
begin

lemma first: "verdict (n + k) = Some r \<Longrightarrow> (\<And>j. j < k \<Longrightarrow> verdict (n + j) = None) \<Longrightarrow> loop n = Some r"
proof (induction k arbitrary: n)
  case 0
  then show ?case by (simp add: unfold [of n])
next
  case (Suc k)
  have "verdict n = None" using Suc.prems(2) [of 0] by simp
  moreover have "loop (Suc n) = Some r"
    using Suc.prems(2) [of "Suc j" for j] by (intro Suc.IH) (use Suc.prems(1) in simp_all)
  ultimately show ?case by (simp add: unfold [of n])
qed

lemma decided: "loop n = Some r \<longleftrightarrow>
    (\<exists>k. verdict (n + k) = Some r \<and> (\<forall>j < k. verdict (n + j) = None))"
proof
  assume run: "loop n = Some r"
  then obtain m where m: "n \<le> m" "verdict m \<noteq> None" using least [of n] by fastforce
  let ?k = "LEAST k. verdict (n + k) \<noteq> None"
  have ex: "verdict (n + (m - n)) \<noteq> None" using m by simp
  have k: "verdict (n + ?k) \<noteq> None" by (rule LeastI [of "\<lambda>k. verdict (n + k) \<noteq> None", OF ex])
  have before: "verdict (n + j) = None" if "j < ?k" for j
    using not_less_Least [OF that] by simp
  obtain r' where "verdict (n + ?k) = Some r'" using k by blast
  moreover from first [OF this before] run have "r' = r" by simp
  ultimately show "\<exists>k. verdict (n + k) = Some r \<and> (\<forall>j < k. verdict (n + j) = None)"
    using before by blast
qed (use first in blast)

lemma returns_iff: "(\<exists>r. loop n = Some r) \<longleftrightarrow> (\<exists>m \<ge> n. verdict m \<noteq> None)"
proof
  assume "\<exists>r. loop n = Some r"
  then show "\<exists>m \<ge> n. verdict m \<noteq> None" using least [of n] by fastforce
next
  assume "\<exists>m \<ge> n. verdict m \<noteq> None"
  then obtain d where "verdict (n + d) \<noteq> None" using le_Suc_ex by blast
  then show "\<exists>r. loop n = Some r"
  proof (induction d arbitrary: n)
    case 0
    then show ?case by (auto simp: unfold [of n])
  next
    case (Suc d)
    then obtain r where "loop (Suc n) = Some r" by fastforce
    then show ?case by (cases "verdict n") (simp_all add: unfold [of n])
  qed
qed

end

definition mg_verdict :: "(nat \<Rightarrow> 'b option) \<Rightarrow> ('b \<Rightarrow> 'a fetched) \<Rightarrow> nat \<Rightarrow> ('a res \<times> nat) option" where
  "mg_verdict connect fetch n =
     (case connect n of
        None \<Rightarrow> None
      | Some b \<Rightarrow> (case fetch b of Fetched v \<Rightarrow> Some (Ok v, Suc n) | Missing \<Rightarrow> Some (Panic, Suc n) | _ \<Rightarrow> None))"

definition pp_verdict :: "(nat \<Rightarrow> 'b option) \<Rightarrow> ('b \<Rightarrow> 'a fetched) \<Rightarrow> nat \<Rightarrow> ('a res \<times> nat) option" where
  "pp_verdict connect fetch n =
     (case connect n of
        None \<Rightarrow> None
      | Some b \<Rightarrow> (case fetch b of Fetched v \<Rightarrow> Some (Ok v, Suc n) | Fetch_failed \<Rightarrow> None | _ \<Rightarrow> Some (Panic, Suc n)))"

lemma mg_query_unfold:
  "mg_query connect fetch n =
     (case mg_verdict connect fetch n of Some r \<Rightarrow> Some r | None \<Rightarrow> mg_query connect fetch (Suc n))"
  by (subst mg_query.simps) (simp add: mg_verdict_def split: option.split fetched.split)

lemma mg_query_least:
  assumes "\<And>m. n \<le> m \<Longrightarrow> mg_verdict connect fetch m = None"
  shows "mg_query connect fetch n = None"
proof -
  have "\<not> (\<forall>m \<ge> n. mg_verdict connect fetch m = None)" if "mg_query connect fetch n = Some y" for y
    using that
  proof (rule mg_query.raw_induct
      [where P = "\<lambda>connect fetch n y. \<not> (\<forall>m \<ge> n. mg_verdict connect fetch m = None)", rotated], goal_cases)
    case (1 f connect fetch n y)
    show ?case
    proof
      assume all: "\<forall>m \<ge> n. mg_verdict connect fetch m = None"
      then have "mg_verdict connect fetch n = None" by simp
      then have "f connect fetch (Suc n) = Some y"
        using 1(2) by (simp add: mg_verdict_def split: option.splits fetched.splits)
      from 1(1) [OF this] all show False by (simp add: Suc_le_eq)
    qed
  qed
  with assms show ?thesis by (cases "mg_query connect fetch n") auto
qed

interpretation mg: attempts "mg_verdict connect fetch" "mg_query connect fetch" for connect fetch
  by (rule attempts.intro) (rule mg_query_unfold, rule mg_query_least)

lemma get_latest_block_unfold:
  "get_latest_block connect n =
     (case connect n of Some b \<Rightarrow> Some (b, Suc n) | None \<Rightarrow> get_latest_block connect (Suc n))"
  by (subst get_latest_block.simps) (rule refl)

lemma pp_round_unfold:
  "pp_get_current_round connect fetch n =
     (case pp_verdict connect fetch n of Some r \<Rightarrow> Some r | None \<Rightarrow> pp_get_current_round connect fetch (Suc n))"
proof (cases "connect n")
  case None
  then have "get_latest_block connect n = get_latest_block connect (Suc n)"
    by (simp add: get_latest_block_unfold [of connect n])
  then have "pp_get_current_round connect fetch n = pp_get_current_round connect fetch (Suc n)"
    by (subst (1 2) pp_get_current_round.simps) simp
  with None show ?thesis by (simp add: pp_verdict_def)
next
  case (Some b)
  then show ?thesis
    by (subst pp_get_current_round.simps)
      (simp add: get_latest_block_unfold [of connect n] pp_verdict_def split: fetched.split)
qed

lemma latest_block_bound: "get_latest_block connect n = Some (b, m) \<Longrightarrow> n < m \<and> connect (m - 1) = Some b"
proof -
  have "\<forall>b m. y = (b, m) \<longrightarrow> n < m \<and> connect (m - 1) = Some b" if "get_latest_block connect n = Some y" for y
    using that
  proof (rule get_latest_block.raw_induct
      [where P = "\<lambda>connect n y. \<forall>b m. y = (b, m) \<longrightarrow> n < m \<and> connect (m - 1) = Some b", rotated], goal_cases)
    case (1 f connect n y)
    then show ?case by (cases "connect n") (force dest: 1(1))+
  qed
  then show "get_latest_block connect n = Some (b, m) \<Longrightarrow> n < m \<and> connect (m - 1) = Some b" by blast
qed

lemma pp_round_least:
  assumes "\<And>m. n \<le> m \<Longrightarrow> pp_verdict connect fetch m = None"
  shows "pp_get_current_round connect fetch n = None"
proof -
  have "\<not> (\<forall>m \<ge> n. pp_verdict connect fetch m = None)" if "pp_get_current_round connect fetch n = Some y" for y
    using that
  proof (rule pp_get_current_round.raw_induct
      [where P = "\<lambda>connect fetch n y. \<not> (\<forall>m \<ge> n. pp_verdict connect fetch m = None)", rotated], goal_cases)
    case (1 f connect fetch n y)
    show ?case
    proof
      assume all: "\<forall>m \<ge> n. pp_verdict connect fetch m = None"
      obtain b m where b: "get_latest_block connect n = Some (b, m)"
        using 1(2) by (cases "get_latest_block connect n") auto
      have "n < m" and "connect (m - 1) = Some b" using latest_block_bound [OF b] by simp_all
      moreover from this have "pp_verdict connect fetch (m - 1) = None" using all by simp
      ultimately have "f connect fetch m = Some y"
        using 1(2) b by (simp add: pp_verdict_def split: fetched.splits)
      from 1(1) [OF this] all \<open>n < m\<close> show False by simp
    qed
  qed
  with assms show ?thesis by (cases "pp_get_current_round connect fetch n") auto
qed

interpretation pp: attempts "pp_verdict connect fetch" "pp_get_current_round connect fetch" for connect fetch
  by (rule attempts.intro) (rule pp_round_unfold, rule pp_round_least)

section \<open>The migrator's start\<close>

text \<open>
  The start of the migrator is delayed by a node that does not answer, and by nothing else: once
  the runtime answers both queries it opens the keys of the round it should, and as long as the
  node is silent it waits.
\<close>

lemma migrator_start_waits:
  assumes "\<And>n. connect n = None"
  shows "mg_start opens connect service_state current_round mg = None"
proof -
  have "get_service_state connect service_state 0 = None"
    unfolding get_service_state_def using assms by (intro mg_query_least) (simp add: mg_verdict_def)
  then show ?thesis by (simp add: mg_start_def)
qed

lemma migrator_start:
  assumes "connect j = Some b" and "service_state b = Fetched state"
    and "\<And>i. i < j \<Longrightarrow> mg_verdict connect service_state i = None"
    and "connect k = Some b'" and "current_round b' = Fetched rnd" and "j < k"
    and "\<And>i. j < i \<Longrightarrow> i < k \<Longrightarrow> mg_verdict connect current_round i = None"
  shows "mg_start opens connect service_state current_round mg = Some (mg_initialize opens state rnd mg, Suc k)"
proof -
  have "mg_query connect service_state 0 = Some (Ok state, Suc j)"
    using assms(1-3) by (intro mg.first [of connect service_state 0 j]) (simp_all add: mg_verdict_def)
  moreover have "mg_query connect current_round (Suc j) = Some (Ok rnd, Suc k)"
    using assms(4-7) by (intro mg.first [of connect current_round "Suc j" "k - Suc j"]) (simp_all add: mg_verdict_def)
  ultimately show ?thesis
    by (simp add: mg_start_def get_service_state_def mg_get_current_round_def)
qed

text \<open>A limit that cannot be read ends the presubmitter, and with it the relayer.\<close>

lemma presubmission_limit_panics:
  assumes "connect n = Some b" and "\<And>v. limit b \<noteq> Fetched v"
  shows "get_presubmittable_amount connect limit current_round keys n = Some (Panic, Suc n)"
  using assms
  by (subst get_presubmittable_amount.simps)
    (simp add: get_latest_block_unfold [of connect n] split: fetched.split)

lemma presubmittable_from_block:
  assumes "connect n = Some b" and "limit b = Fetched m"
    and "pp_get_current_round connect current_round (Suc n) = Some (Ok rnd, k)" and "keys b rnd = Fetched submitted"
  shows "get_presubmittable_amount connect limit current_round keys n
    = Some (Ok (presubmittable_amount m (Some submitted)), k)"
  using assms
  by (subst get_presubmittable_amount.simps) (simp add: get_latest_block_unfold [of connect n])

end
