(* ===== verification/Roundup_Run.thy ===== *)
theory Roundup_Run
  imports Roundup Bootstrap Event_Manager
begin

text \<open>
  The main loop of the round-up relay handler and the history both round-up tasks start from
  (\<open>client/src/eth/handlers/roundup_relay_handler.rs\<close>, \<open>periodic/src/roundup_emitter.rs\<close>), with the
  offset they compute from block times (\<open>client/src/eth/mod.rs\<close>).
\<close>

section \<open>How far back the history goes\<close>

definition BOOTSTRAP_BLOCK_OFFSET :: u64 where "BOOTSTRAP_BLOCK_OFFSET = 100"

definition NATIVE_BLOCK_TIME :: u64 where "NATIVE_BLOCK_TIME = 3"

text \<open>
  \<open>height seconds elapsed blocks\<close> is the floating-point quotient of the seconds to go back and the
  average block time \<open>elapsed / blocks\<close>, rounded up. \<open>timestamp\<close> is the node's answer for a block.
\<close>

definition get_bootstrap_offset_height_based_on_block_time ::
    "(u64 \<Rightarrow> u64 \<Rightarrow> u64 \<Rightarrow> u64) \<Rightarrow> u64 res \<Rightarrow> (u64 \<Rightarrow> u64 option res) \<Rightarrow> u64 \<Rightarrow> u256 \<Rightarrow> u64 res" where
  "get_bootstrap_offset_height_based_on_block_time height block_number timestamp offset round_length =
     bind_res block_number (\<lambda>number.
     let prev_number = saturating_sub number BOOTSTRAP_BLOCK_OFFSET
     in bind_res (unwrap (checked_sub number prev_number)) (\<lambda>block_diff.
        bind_res (timestamp number) (\<lambda>current.
        bind_res (timestamp prev_number) (\<lambda>prev.
          case (current, prev) of
            (Some current_timestamp, Some prev_timestamp) \<Rightarrow>
              bind_res (unwrap (checked_sub current_timestamp prev_timestamp)) (\<lambda>timestamp_diff.
              bind_res (unwrap (checked_mul offset
                  (if unat round_length < 2 ^ 64 then ucast round_length else - 1))) (\<lambda>blocks.
              bind_res (unwrap (checked_mul blocks NATIVE_BLOCK_TIME)) (\<lambda>seconds.
                Ok (height seconds timestamp_diff block_diff))))
          | _ \<Rightarrow> Err ProviderInternalError))))"

section \<open>The history of round-ups\<close>

text \<open>
  What the node answers at bootstrap; \<open>rh_offset_height\<close> includes the round lookup. The emitter
  panics when it finds no event and caches what it found; the handler takes the cache first.
\<close>

record HistoryEnv =
  rh_socket :: address
  rh_signature_hash :: b256
  rh_offset_height :: "u64 \<Rightarrow> u64 res"
  rh_block_number :: "u64 res"
  rh_get_logs :: "Filter \<Rightarrow> Log list res"

definition configured_round_offset :: "BootstrapConfig \<Rightarrow> u64" where
  "configured_round_offset cfg =
     (case round_offset cfg of Some n \<Rightarrow> n | None \<Rightarrow> DEFAULT_BOOTSTRAP_ROUND_OFFSET)"

definition emitter_get_bootstrap_events ::
    "HistoryEnv \<Rightarrow> BootstrapSharedData \<Rightarrow> (Log list res \<times> BootstrapSharedData) option" where
  "emitter_get_bootstrap_events env d =
     (case bootstrap_config d of
        None \<Rightarrow> Some (Ok [], d)
      | Some cfg \<Rightarrow>
          (case bind_res (rh_offset_height env (configured_round_offset cfg))
                  (\<lambda>h. bind_res (rh_block_number env) (\<lambda>l. Ok (h, l))) of
             Err e \<Rightarrow> Some (Err e, d)
           | Panic \<Rightarrow> Some (Panic, d)
           | Ok (h, latest) \<Rightarrow>
               (case fetch_chunks
                       (\<lambda>a b. rh_get_logs env \<lparr>f_addresses = [rh_socket env],
                          f_event_signature = Some (rh_signature_hash env), from_block = a, to_block = b\<rparr>)
                       (saturating_sub latest h) latest BOOTSTRAP_BLOCK_CHUNK_SIZE [] of
                  None \<Rightarrow> None
                | Some (Ok logs) \<Rightarrow>
                    Some (if logs = [] then (Panic, d) else (Ok logs, set_bootstrap_roundup_logs logs d))
                | Some (Err e) \<Rightarrow> Some (Err e, d)
                | Some Panic \<Rightarrow> Some (Panic, d))))"

definition ru_get_bootstrap_events ::
    "HistoryEnv \<Rightarrow> BootstrapSharedData \<Rightarrow> (Log list res \<times> BootstrapSharedData) option" where
  "ru_get_bootstrap_events env d =
     (case take_bootstrap_roundup_logs d of
        (Some cached, d') \<Rightarrow> Some (Ok cached, d')
      | (None, d') \<Rightarrow>
          (case bootstrap_config d' of
             None \<Rightarrow> Some (Ok [], d')
           | Some cfg \<Rightarrow>
               map_option (\<lambda>r. (r, d'))
                 (get_historical_logs (rh_get_logs env) (rh_offset_height env (configured_round_offset cfg))
                    (rh_block_number env) [rh_socket env] (rh_signature_hash env) BOOTSTRAP_BLOCK_CHUNK_SIZE)))"

section \<open>The loop\<close>

definition ru_is_target_contract :: "RoundupEnv \<Rightarrow> Log \<Rightarrow> bool" where
  "ru_is_target_contract env log = (log_address log = socket (protocol_contracts (ru_client env)))"

definition ru_is_target_event :: "RoundupEnv \<Rightarrow> b256 option \<Rightarrow> bool" where
  "ru_is_target_event env topic = (case topic of Some t \<Rightarrow> t = ru_signature_hash env | None \<Rightarrow> False)"

text \<open>The first log whose processing fails ends the loop over the logs.\<close>

fun ru_process_logs ::
    "RoundupEnv \<Rightarrow> bool \<Rightarrow> Log list \<Rightarrow> pending_relays \<Rightarrow> (pending_relays \<times> (effect, unit) eff) option" where
  "ru_process_logs env is_bootstrap [] pending = Some (pending, ret ())"
| "ru_process_logs env is_bootstrap (l # ls) pending =
     (case ru_process_confirmed_log env l is_bootstrap pending of
        None \<Rightarrow> None
      | Some (p, fs, Ok u) \<Rightarrow>
          (case ru_process_logs env is_bootstrap ls p of
             None \<Rightarrow> None
           | Some (p', gs, r) \<Rightarrow> Some (p', fs @ gs, r))
      | Some (p, fs, Err e) \<Rightarrow> Some (p, fs, Err e)
      | Some (p, fs, Panic) \<Rightarrow> Some (p, fs, Panic))"

text \<open>
  What the loop selects: a message of the event manager, a lagging or closed stream, or the timer,
  with the chains of the table in its iteration order.
\<close>

datatype ru_input = Ru_events EventMessage | Ru_stream_error | Ru_timer "chain_id list"

fun ru_turn :: "RoundupEnv \<Rightarrow> ru_input \<Rightarrow> pending_relays \<Rightarrow> (pending_relays \<times> (effect, unit) eff) option" where
  "ru_turn env (Ru_events m) pending =
     ru_process_logs env False
       (filter (\<lambda>l. ru_is_target_contract env l \<and> ru_is_target_event env (topic0 l)) (event_logs m)) pending"
| "ru_turn env Ru_stream_error pending = Some (pending, ret ())"
| "ru_turn env (Ru_timer ids) pending =
     (if ids = [] then Some (pending, ret ()) else Some (retry_pending_relays env ids pending))"

text \<open>
  The task around the loop. A turn that fails ends \<open>run\<close>, which the service starts again at once on
  the same handler: the table of pending relays survives, the rest of the message does not. A panic
  ends the task.
\<close>

fun ru_task :: "(RoundupEnv \<times> ru_input) list \<Rightarrow> pending_relays \<Rightarrow> (pending_relays \<times> (effect, unit) eff) option" where
  "ru_task [] pending = Some (pending, ret ())"
| "ru_task ((env, i) # inputs) pending =
     (case ru_turn env i pending of
        None \<Rightarrow> None
      | Some (p, fs, Panic) \<Rightarrow> Some (p, fs, Panic)
      | Some (p, fs, _) \<Rightarrow>
          (case ru_task inputs p of None \<Rightarrow> None | Some (p', gs, r) \<Rightarrow> Some (p', fs @ gs, r)))"

section \<open>What the history contains\<close>

text \<open>The bounds of the offset: only a node whose time runs backwards, or a huge round, panics.\<close>

lemma offset_height_ok:
  assumes "block_number = Ok number" and "timestamp number = Ok (Some now)"
    and "timestamp (saturating_sub number 100) = Ok (Some before)" and "before \<le> now"
    and "unat offset * unat round_length * 3 < 2 ^ 64" and "0 < unat offset"
  shows "get_bootstrap_offset_height_based_on_block_time height block_number timestamp offset round_length
    = Ok (height (offset * ucast round_length * 3) (now - before) (number - saturating_sub number 100))"
proof -
  have len: "unat round_length < 2 ^ 64"
    using assms(5,6) by (metis (no_types) le_less_trans mult.commute mult_le_mono nat_mult_1_right
        One_nat_def Suc_leI mult.assoc numeral_3_eq_3 le_SucI le_refl)
  then have u: "unat (ucast round_length :: u64) = unat round_length"
    by (simp add: unsigned_ucast_eq take_bit_nat_eq_self)
  have "unat offset * unat round_length < 2 ^ 64" using assms(5) by simp
  then have m1: "checked_mul offset (ucast round_length) = Some (offset * ucast round_length)"
    "unat (offset * ucast round_length) = unat offset * unat round_length"
    using u by (simp_all add: checked_mul_def unat_word_ariths)
  have m2: "checked_mul (offset * ucast round_length) (3 :: u64) = Some (offset * ucast round_length * 3)"
    using m1(2) assms(5) by (simp add: checked_mul_def)
  have "saturating_sub number 100 \<le> number" by (simp add: saturating_sub_def word_le_nat_alt unat_sub)
  then show ?thesis
    using assms(1-4) len m1(1) m2
    by (simp add: get_bootstrap_offset_height_based_on_block_time_def BOOTSTRAP_BLOCK_OFFSET_def
        NATIVE_BLOCK_TIME_def checked_sub_def Let_def)
qed


text \<open>
  The emitter's history reaches from the offset to the tip without gaps, in order, if the node
  answers every range from its logs.
\<close>

lemma emitter_history_complete:
  assumes "bootstrap_config d = Some cfg" and "rh_offset_height env (configured_round_offset cfg) = Ok h"
    and "rh_block_number env = Ok latest" and "unat latest + unat BOOTSTRAP_BLOCK_CHUNK_SIZE < 2 ^ 64"
    and "\<And>f. f_addresses f = [rh_socket env] \<Longrightarrow> f_event_signature f = Some (rh_signature_hash env) \<Longrightarrow>
      rh_get_logs env f = Ok (concat (map chain_logs [unat (from_block f) ..< Suc (unat (to_block f))]))"
    and "history = concat (map chain_logs [unat (saturating_sub latest h) ..< Suc (unat latest)])" and "history \<noteq> []"
  shows "emitter_get_bootstrap_events env d = Some (Ok history, set_bootstrap_roundup_logs history d)"
proof -
  have "fetch_chunks
      (\<lambda>a b. rh_get_logs env \<lparr>f_addresses = [rh_socket env],
         f_event_signature = Some (rh_signature_hash env), from_block = a, to_block = b\<rparr>)
      (saturating_sub latest h) latest BOOTSTRAP_BLOCK_CHUNK_SIZE [] = Some (Ok history)"
    using assms(4-6)
    by (subst fetch_chunks_ok [where answer = "\<lambda>x y. concat (map chain_logs [x ..< Suc y])"])
      (simp_all add: BOOTSTRAP_BLOCK_CHUNK_SIZE_def chunk_ranges_logs del: upt_Suc)
  with assms(1-3,7) show ?thesis by (simp add: emitter_get_bootstrap_events_def)
qed

text \<open>
  The handler works on the emitter's last history, whatever the node would answer it, and only once:
  a second bootstrap asks the node.
\<close>

lemma history_handed_over:
  assumes "emitter_get_bootstrap_events env d = Some (Ok logs, d')" and "bootstrap_config d = Some cfg"
  shows "\<exists>d''. ru_get_bootstrap_events env' d' = Some (Ok logs, d'') \<and> fst (take_bootstrap_roundup_logs d'') = None"
proof -
  have d': "d' = set_bootstrap_roundup_logs logs d"
    using assms by (auto simp: emitter_get_bootstrap_events_def split: res.splits option.splits if_splits)
  have "fst (take_bootstrap_roundup_logs d') = Some logs"
    "fst (take_bootstrap_roundup_logs (snd (take_bootstrap_roundup_logs d'))) = None"
    using roundup_log_cache.handed_over_once [of logs d] by (simp_all add: d')
  then show ?thesis
    by (auto simp: ru_get_bootstrap_events_def split: prod.split option.split)
qed

section \<open>The task\<close>

lemma ru_process_logs_ordered:
  "relays_ordered p \<Longrightarrow> ru_process_logs env b ls p = Some (p', fs, r) \<Longrightarrow> relays_ordered p'"
proof (induction ls arbitrary: p fs)
  case (Cons l ls)
  obtain q gs r' where q: "ru_process_confirmed_log env l b p = Some (q, gs, r')"
    using Cons.prems(2) by (cases "ru_process_confirmed_log env l b p") auto
  have ord: "relays_ordered q" by (rule ru_process_confirmed_log_ordered [OF Cons.prems(1) q])
  show ?case
  proof (cases r')
    case (Ok u)
    then obtain hs where "ru_process_logs env b ls q = Some (p', hs, r)"
      using Cons.prems(2) q by (auto split: option.splits)
    from Cons.IH [OF ord this] show ?thesis .
  qed (use Cons.prems(2) q ord in auto)
qed simp

lemma ru_turn_ordered:
  assumes "relays_ordered p" and "ru_turn env i p = Some (p', fs, r)"
  shows "relays_ordered p'"
  using assms
  by (cases i) (auto split: if_splits intro: ru_process_logs_ordered retry_pending_relays_ordered)

text \<open>Through every turn and restart the pending relays of a chain stay in ascending order of round.\<close>

lemma ru_task_ordered:
  "relays_ordered p \<Longrightarrow> ru_task inputs p = Some (p', fs, r) \<Longrightarrow> relays_ordered p'"
proof (induction inputs arbitrary: p fs)
  case (Cons i inputs)
  obtain env inp where i: "i = (env, inp)" by (cases i)
  obtain q gs r' where q: "ru_turn env inp p = Some (q, gs, r')"
    using Cons.prems(2) i by (cases "ru_turn env inp p") auto
  have ord: "relays_ordered q" by (rule ru_turn_ordered [OF Cons.prems(1) q])
  show ?case
  proof (cases "r' = Panic")
    case False
    then obtain hs where "ru_task inputs q = Some (p', hs, r)"
      using Cons.prems(2) q i by (cases r') (auto split: option.splits)
    from Cons.IH [OF ord this] show ?thesis .
  qed (use Cons.prems(2) q ord i in auto)
qed simp

text \<open>
  A log that fails is the last one of its message: the logs behind it are neither relayed nor kept,
  although the task goes on with the next message.
\<close>

lemma ru_process_logs_append:
  "ru_process_logs env b (ls @ ms) p =
     (case ru_process_logs env b ls p of
        Some (q, fs, Ok u) \<Rightarrow> map_option (\<lambda>(q', gs, r). (q', fs @ gs, r)) (ru_process_logs env b ms q)
      | other \<Rightarrow> other)"
  by (induction ls arbitrary: p)
    (auto simp: ret_def option.map_id0 split: option.splits res.splits)

lemma ru_failed_log_drops_rest:
  assumes "ru_process_logs env False before p = Some (q, fs, Ok u)"
    and "bind_res (unwrap (transaction_hash l)) (ru_receipt env) = Err e"
    and "filter (\<lambda>l. ru_is_target_contract env l \<and> ru_is_target_event env (topic0 l)) (event_logs m)
      = before @ l # behind"
  shows "ru_task ((env, Ru_events m) # inputs) p
    = map_option (\<lambda>(q', gs, r). (q', fs @ gs, r)) (ru_task inputs q)"
proof -
  have "ru_process_confirmed_log env l False q = Some (q, lift (Err e))"
    by (simp add: ru_process_confirmed_log_def assms(2))
  then have "ru_turn env (Ru_events m) p = Some (q, fs, Err e)"
    by (simp add: assms(1,3) ru_process_logs_append lift_def)
  then show ?thesis by (simp add: split: option.split)
qed

end
