(* ===== verification/Keystore_Migration.thy ===== *)
theory Keystore_Migration
  imports Keypair_Storage Ordered_Map
begin

text \<open>
  The command that moves the vault keys of a round to new credentials
  (\<open>relayer/src/commands/migrate_keystore_cmd.rs\<close>): it reads the keys with the old credentials,
  copies the directory aside, and writes every key again in place, encrypted with the new ones.
\<close>

section \<open>The command\<close>

record KeystoreConfig =
  kc_path :: "string option"
  kc_kms_key_id :: "string option"
  kc_password :: "bytes option"

record MigrateKeystoreCmd =
  mk_round :: u32
  mk_new_kms_key_id :: "string option"
  mk_new_password :: "bytes option"
  mk_chain :: string
  mk_version :: u32

definition DEFAULT_KEYSTORE_PATH :: string where "DEFAULT_KEYSTORE_PATH = ''./keys''"

definition MAINNET_CONFIG_FILE_PATH :: string where
  "MAINNET_CONFIG_FILE_PATH = ''configs/config.mainnet.yaml''"

definition TESTNET_CONFIG_FILE_PATH :: string where
  "TESTNET_CONFIG_FILE_PATH = ''configs/config.testnet.yaml''"

definition load_spec :: "MigrateKeystoreCmd \<Rightarrow> string" where
  "load_spec cmd =
     (if mk_chain cmd = ''testnet'' then TESTNET_CONFIG_FILE_PATH
      else if mk_chain cmd = ''mainnet'' then MAINNET_CONFIG_FILE_PATH
      else mk_chain cmd)"

datatype credentials = PasswordKey "bytes option" | KmsKey string

text \<open>
  The files below a path are a map from rounds to key files. \<open>mi_crypto\<close> gives the coders, which
  for the key management service depend on the identifier of its key; \<open>mi_keys\<close> lists the public
  keys of a directory; \<open>mi_copy\<close> is \<open>cp -r\<close> and \<open>mi_exists\<close> the paths that exist before it;
  \<open>mi_v1_seed\<close> reads a key file of the first version.
\<close>

type_synonym disk = "u32 \<Rightarrow> bytes \<rightharpoonup> string"

record MigrateEnv =
  mi_network_known :: bool
  mi_opens :: "u32 \<Rightarrow> bool"
  mi_crypto :: "credentials \<Rightarrow> Crypto"
  mi_keys :: "(bytes \<rightharpoonup> string) \<Rightarrow> bytes list"
  mi_exists :: "string \<Rightarrow> bool"
  mi_copy :: "(string \<Rightarrow> disk) \<Rightarrow> string \<Rightarrow> string \<Rightarrow> (string \<Rightarrow> disk) option"
  mi_v1_seed :: "bytes option \<Rightarrow> string \<Rightarrow> bytes option"
  mi_nonce :: "nat \<Rightarrow> bytes"

fun credentials_kind :: "credentials \<Rightarrow> storage_kind" where
  "credentials_kind (PasswordKey secret) = Password secret"
| "credentials_kind (KmsKey key_id) = Kms"

definition keystore_path :: "KeystoreConfig option \<Rightarrow> string" where
  "keystore_path config =
     (case config of
        Some c \<Rightarrow> (case kc_path c of Some p \<Rightarrow> p | None \<Rightarrow> DEFAULT_KEYSTORE_PATH)
      | None \<Rightarrow> DEFAULT_KEYSTORE_PATH)"

definition old_credentials :: "KeystoreConfig option \<Rightarrow> credentials" where
  "old_credentials config =
     (case config of
        Some c \<Rightarrow> (case kc_kms_key_id c of Some key_id \<Rightarrow> KmsKey key_id | None \<Rightarrow> PasswordKey (kc_password c))
      | None \<Rightarrow> PasswordKey None)"

definition old_password :: "KeystoreConfig option \<Rightarrow> bytes option" where
  "old_password config =
     (case old_credentials config of PasswordKey secret \<Rightarrow> secret | KmsKey _ \<Rightarrow> None)"

definition new_credentials :: "MigrateKeystoreCmd \<Rightarrow> credentials" where
  "new_credentials cmd =
     (case mk_new_kms_key_id cmd of
        Some key_id \<Rightarrow> KmsKey key_id
      | None \<Rightarrow> PasswordKey (mk_new_password cmd))"

definition backup_path :: "string \<Rightarrow> string" where
  "backup_path path = path @ ''_backup''"

text \<open>The private key of one entry, as the old storage gives it.\<close>

definition old_private_key ::
    "MigrateEnv \<Rightarrow> MigrateKeystoreCmd \<Rightarrow> KeystoreConfig option \<Rightarrow> bytes \<Rightarrow> Keystore \<Rightarrow> bytes res" where
  "old_private_key env cmd config key ks =
     bind_res (raw_keystore_value key ks) (\<lambda>value.
     bind_res (unwrap value) (\<lambda>entry.
       if mk_version cmd = 1 then unwrap (mi_v1_seed env (old_password config) entry)
       else
         let old = old_credentials config; c = mi_crypto env old
         in bind_res (unwrap (c_hex_decode c entry)) (decrypt_key c (credentials_kind old))))"

definition migrate_key ::
    "MigrateEnv \<Rightarrow> MigrateKeystoreCmd \<Rightarrow> KeystoreConfig option \<Rightarrow> nat \<Rightarrow> bytes \<Rightarrow> Keystore \<Rightarrow> Keystore res" where
  "migrate_key env cmd config n key ks =
     bind_res (old_private_key env cmd config key ks) (\<lambda>private_key.
       let new = new_credentials cmd; c = mi_crypto env new
       in bind_res (encrypt_key c (credentials_kind new) (mi_nonce env n) private_key) (\<lambda>sealed.
            insert_key (c_hex_encode c) key sealed ks))"

text \<open>The loop stops at the first failure; what it has written so far stays written.\<close>

fun migrate_keys ::
    "MigrateEnv \<Rightarrow> MigrateKeystoreCmd \<Rightarrow> KeystoreConfig option \<Rightarrow> nat \<Rightarrow> bytes list \<Rightarrow> Keystore
      \<Rightarrow> Keystore \<times> unit res" where
  "migrate_keys env cmd config n [] ks = (ks, Ok ())"
| "migrate_keys env cmd config n (key # rest) ks =
     (case migrate_key env cmd config n key ks of
        Ok ks' \<Rightarrow> migrate_keys env cmd config (Suc n) rest ks'
      | Err e \<Rightarrow> (ks, Err e)
      | Panic \<Rightarrow> (ks, Panic))"

definition migrate_run ::
    "MigrateEnv \<Rightarrow> MigrateKeystoreCmd \<Rightarrow> KeystoreConfig option \<Rightarrow> (string \<Rightarrow> disk)
      \<Rightarrow> (string \<Rightarrow> disk) \<times> unit res" where
  "migrate_run env cmd config fs =
     (let path = keystore_path config; old = KeypairStorage_new (fs path)
      in if \<not> mi_network_known env then (fs, Panic)
         else
           case (if mk_version cmd = 1
                 then ks_load_v1 (mi_opens env) (credentials_kind (old_credentials config)) (mk_round cmd) old
                 else ks_load (mi_opens env) (mk_round cmd) old) of
             Err e \<Rightarrow> (fs, Err e)
           | Panic \<Rightarrow> (fs, Panic)
           | Ok loaded \<Rightarrow>
               (case mi_copy env fs path (backup_path path) of
                  None \<Rightarrow> (fs, Panic)
                | Some fs' \<Rightarrow>
                    (case ks_load (mi_opens env) (mk_round cmd) (KeypairStorage_new (fs' path)) of
                       Err e \<Rightarrow> (fs', Err e)
                     | Panic \<Rightarrow> (fs', Panic)
                     | Ok new \<Rightarrow>
                         (case migrate_keys env cmd config 0 (mi_keys env (ks_disk loaded (mk_round cmd))) new of
                            (ks, r) \<Rightarrow> (fs'(path := ks_disk ks), r)))))"

section \<open>Reading a directory with given credentials\<close>

definition readable_key :: "MigrateEnv \<Rightarrow> credentials \<Rightarrow> disk \<Rightarrow> u32 \<Rightarrow> bytes \<Rightarrow> bytes option res" where
  "readable_key env cr d rnd pk =
     get_key (mi_crypto env cr) (credentials_kind cr) pk \<lparr>ks_db = Some rnd, ks_loaded_round = rnd, ks_disk = d\<rparr>"

text \<open>
  What the command relies on: coders that invert each other and one curve for all, a listing of
  exactly the keys of a directory, nonces of twelve bytes, and \<open>cp -r\<close>: it makes a
  target that does not exist a copy of the source, and copies below a target that does.
\<close>

definition migration_sound :: "MigrateEnv \<Rightarrow> bool" where
  "migration_sound env \<longleftrightarrow>
     (\<forall>cr. crypto_ok (mi_crypto env cr)) \<and> (\<forall>a b. c_public (mi_crypto env a) = c_public (mi_crypto env b))
     \<and> (\<forall>m. finite (dom m) \<longrightarrow> set (mi_keys env m) = dom m \<and> distinct (mi_keys env m))
     \<and> (\<forall>n. length (mi_nonce env n) = 12)
     \<and> (\<forall>fs a b fs'. a \<noteq> b \<longrightarrow> mi_copy env fs a b = Some fs'
          \<longrightarrow> fs' a = fs a \<and> fs' b = (if mi_exists env b then fs b else fs a))"

text \<open>The private key a file holds under given credentials, without the check of the public key.\<close>

definition sealed_seed :: "MigrateEnv \<Rightarrow> credentials \<Rightarrow> string \<Rightarrow> bytes res" where
  "sealed_seed env cr entry =
     bind_res (unwrap (c_hex_decode (mi_crypto env cr) entry)) (decrypt_key (mi_crypto env cr) (credentials_kind cr))"

definition ex_migrate_env :: MigrateEnv where
  "ex_migrate_env =
     \<lparr>mi_network_known = True, mi_opens = (\<lambda>_. True), mi_crypto = (\<lambda>_. ex_crypto),
      mi_keys = (\<lambda>m. sorted_list_of_set (dom m)),
      mi_exists = (\<lambda>_. False), mi_copy = (\<lambda>fs a b. Some (fs(b := fs a))), mi_v1_seed = (\<lambda>_ _. None), mi_nonce = (\<lambda>_. replicate 12 0)\<rparr>"

definition ex_migrate_cmd :: MigrateKeystoreCmd where
  "ex_migrate_cmd = \<lparr>mk_round = 4, mk_new_kms_key_id = None, mk_new_password = Some [2], mk_chain = ''testnet'',
     mk_version = 2\<rparr>"

definition ex_files :: "string \<Rightarrow> disk" where
  "ex_files = (\<lambda>_ _. [[3, 8, 9] \<mapsto> c_hex_encode ex_crypto [8, 9]])"

lemma migration_soundD:
  assumes "migration_sound env"
  shows "crypto_ok (mi_crypto env cr)" and "c_public (mi_crypto env a) = c_public (mi_crypto env b)"
    and "finite (dom m) \<Longrightarrow> set (mi_keys env m) = dom m" and "finite (dom m) \<Longrightarrow> distinct (mi_keys env m)"
    and "length (mi_nonce env n) = 12"
    and "p \<noteq> q \<Longrightarrow> mi_copy env fs p q = Some fs' \<Longrightarrow>
      fs' p = fs p \<and> fs' q = (if mi_exists env q then fs q else fs p)"
  using assms unfolding migration_sound_def by blast+

lemma readable_key_iff:
  "readable_key env cr d rnd pk = Ok (Some seed) \<longleftrightarrow>
     (\<exists>entry. d rnd pk = Some entry \<and> sealed_seed env cr entry = Ok seed \<and> c_public (mi_crypto env cr) seed = Some pk)"
  by (auto simp: readable_key_def sealed_seed_def get_key_def raw_keystore_value_def ks_open_db_def bind_res_Ok_iff
      split: option.splits if_splits)

lemma migrate_key_ok:
  assumes "migrate_key env cmd config n key ks = Ok ks'" and "ks_db ks = Some rnd" and "mk_version cmd \<noteq> 1"
    and "migration_sound env"
  obtains entry seed entry' where "ks_disk ks rnd key = Some entry"
    and "sealed_seed env (old_credentials config) entry = Ok seed"
    and "sealed_seed env (new_credentials cmd) entry' = Ok seed"
    and "ks' = ks\<lparr>ks_disk := (ks_disk ks)(rnd := (ks_disk ks rnd)(key \<mapsto> entry'))\<rparr>"
proof -
  let ?c = "mi_crypto env (new_credentials cmd)"
  obtain entry seed sealed where t: "ks_disk ks rnd key = Some entry"
    "sealed_seed env (old_credentials config) entry = Ok seed"
    "encrypt_key ?c (credentials_kind (new_credentials cmd)) (mi_nonce env n) seed = Ok sealed"
    "ks' = ks\<lparr>ks_disk := (ks_disk ks)(rnd := (ks_disk ks rnd)(key \<mapsto> c_hex_encode ?c sealed))\<rparr>"
    using assms(1-3)
    by (auto simp: migrate_key_def old_private_key_def sealed_seed_def raw_keystore_value_def ks_open_db_def
        insert_key_def bind_res_Ok_iff Let_def)
  have "decrypt_key ?c (credentials_kind (new_credentials cmd)) sealed = Ok seed"
    using decrypt_encrypt [OF migration_soundD(1,5) [OF assms(4)] t(3)] .
  then have "sealed_seed env (new_credentials cmd) (c_hex_encode ?c sealed) = Ok seed"
    using crypto_okD(1) [OF migration_soundD(1) [OF assms(4)]] by (simp add: sealed_seed_def)
  with t show thesis by (intro that) auto
qed

text \<open>What the loop leaves: listed keys hold the same seed under the new credentials, all else is as it was.\<close>

lemma migrate_keys_ok:
  assumes "migration_sound env" and "mk_version cmd \<noteq> 1"
  shows "migrate_keys env cmd config n keys ks = (ks', Ok ()) \<Longrightarrow> ks_db ks = Some rnd \<Longrightarrow> distinct keys \<Longrightarrow>
    (\<forall>r. r \<noteq> rnd \<longrightarrow> ks_disk ks' r = ks_disk ks r)
    \<and> (\<forall>pk. pk \<notin> set keys \<longrightarrow> ks_disk ks' rnd pk = ks_disk ks rnd pk)
    \<and> (\<forall>pk \<in> set keys. \<exists>entry seed entry'. ks_disk ks rnd pk = Some entry \<and> ks_disk ks' rnd pk = Some entry'
        \<and> sealed_seed env (old_credentials config) entry = Ok seed
        \<and> sealed_seed env (new_credentials cmd) entry' = Ok seed)"
proof (induction keys arbitrary: n ks)
  case (Cons key rest)
  obtain ks1 where ks1: "migrate_key env cmd config n key ks = Ok ks1"
    "migrate_keys env cmd config (Suc n) rest ks1 = (ks', Ok ())"
    using Cons.prems(1) by (auto split: res.splits)
  obtain entry seed entry' where t: "ks_disk ks rnd key = Some entry"
    "sealed_seed env (old_credentials config) entry = Ok seed"
    "sealed_seed env (new_credentials cmd) entry' = Ok seed"
    "ks1 = ks\<lparr>ks_disk := (ks_disk ks)(rnd := (ks_disk ks rnd)(key \<mapsto> entry'))\<rparr>"
    by (rule migrate_key_ok [OF ks1(1) Cons.prems(2) assms(2,1)])
  have "ks_db ks1 = Some rnd" "distinct rest" using t(4) Cons.prems(2,3) by auto
  note ih = Cons.IH [OF ks1(2) this]
  have "key \<notin> set rest" using Cons.prems(3) by simp
  then have "ks_disk ks' rnd key = Some entry'" using ih t(4) by simp
  with ih t \<open>key \<notin> set rest\<close> show ?case
    by (auto simp: fun_upd_apply split: if_splits)
qed simp

section \<open>Properties\<close>

lemma ks_load_Ok_iff:
  "ks_load opens rnd ks = Ok ks' \<longleftrightarrow> opens rnd \<and> ks' = ks\<lparr>ks_db := Some rnd, ks_loaded_round := rnd\<rparr>"
  by (auto simp: ks_load_def load_keystore_def)

lemma backup_path_ne: "backup_path path \<noteq> path"
  by (simp add: backup_path_def)

lemma migrate_run_cases:
  assumes "migrate_run env cmd config fs = (fs', r)" and "migration_sound env"
  obtains "fs' = fs" and "r \<noteq> Ok ()"
  | ks where "fs' (keystore_path config) = ks_disk ks"
      and "fs' (backup_path (keystore_path config)) =
        fs (if mi_exists env (backup_path (keystore_path config)) then backup_path (keystore_path config)
            else keystore_path config)"
      and "migrate_keys env cmd config 0 (mi_keys env (fs (keystore_path config) (mk_round cmd)))
             \<lparr>ks_db = Some (mk_round cmd), ks_loaded_round = mk_round cmd, ks_disk = fs (keystore_path config)\<rparr>
           = (ks, r)"
proof -
  let ?path = "keystore_path config"
  let ?old = "if mk_version cmd = 1
     then ks_load_v1 (mi_opens env) (credentials_kind (old_credentials config)) (mk_round cmd) (KeypairStorage_new (fs ?path))
     else ks_load (mi_opens env) (mk_round cmd) (KeypairStorage_new (fs ?path))"
  show thesis
  proof (cases "mi_network_known env \<and> is_ok ?old \<and> mi_copy env fs ?path (backup_path ?path) \<noteq> None")
    case False
    then have "fs' = fs \<and> r \<noteq> Ok ()"
      using assms(1) by (auto simp: migrate_run_def Let_def split: if_splits res.splits option.splits)
    then show thesis using that(1) by blast
  next
    case True
    then obtain loaded fs1 where l: "?old = Ok loaded" and cp: "mi_copy env fs ?path (backup_path ?path) = Some fs1"
      by (cases ?old) auto
    have loaded: "mi_opens env (mk_round cmd)"
      "ks_disk loaded = fs ?path"
      using l by (auto simp: ks_load_v1_def ks_load_Ok_iff KeypairStorage_new_def split: if_splits storage_kind.splits)
    have same: "fs1 ?path = fs ?path"
      and backup: "fs1 (backup_path ?path) =
        fs (if mi_exists env (backup_path ?path) then backup_path ?path else ?path)"
      using migration_soundD(6) [OF assms(2) backup_path_ne [symmetric] cp] by auto
    have new: "ks_load (mi_opens env) (mk_round cmd) (KeypairStorage_new (fs1 ?path)) =
        Ok \<lparr>ks_db = Some (mk_round cmd), ks_loaded_round = mk_round cmd, ks_disk = fs ?path\<rparr>"
      using loaded(1) same by (simp add: ks_load_Ok_iff KeypairStorage_new_def)
    obtain ks r' where m: "migrate_keys env cmd config 0 (mi_keys env (fs ?path (mk_round cmd)))
        \<lparr>ks_db = Some (mk_round cmd), ks_loaded_round = mk_round cmd, ks_disk = fs ?path\<rparr> = (ks, r')"
      by fastforce
    have "(fs', r) = (fs1(?path := ks_disk ks), r')"
      using assms(1) True unfolding migrate_run_def Let_def l cp new by (simp add: l cp new loaded(2) m)
    then show thesis using that(2) [of ks] m backup backup_path_ne [of ?path] by simp
  qed
qed

text \<open>
  No key is lost by a migration. However the command ends, nothing has changed or the former
  content of the directory is in the backup, unless a backup was there already, which stays as it
  was; when the command ends well, every key of the round that the old credentials could read is
  read by the new ones, with the same private key, no key is added or removed, and the keys of
  other rounds are untouched.
\<close>

theorem migration_keeps_keys:
  assumes "migrate_run env cmd config fs = (fs', r)" and "migration_sound env" and "mk_version cmd \<noteq> 1"
    and "finite (dom (fs (keystore_path config) (mk_round cmd)))"
  shows "(fs' = fs
      \<or> fs' (backup_path (keystore_path config)) =
          fs (if mi_exists env (backup_path (keystore_path config)) then backup_path (keystore_path config)
              else keystore_path config))
    \<and> (r = Ok () \<longrightarrow>
        (\<forall>pk seed. readable_key env (old_credentials config) (fs (keystore_path config)) (mk_round cmd) pk = Ok (Some seed)
           \<longrightarrow> readable_key env (new_credentials cmd) (fs' (keystore_path config)) (mk_round cmd) pk = Ok (Some seed))
        \<and> dom (fs' (keystore_path config) (mk_round cmd)) = dom (fs (keystore_path config) (mk_round cmd))
        \<and> (\<forall>rnd. rnd \<noteq> mk_round cmd \<longrightarrow> fs' (keystore_path config) rnd = fs (keystore_path config) rnd))"
  using assms(1,2)
proof (cases rule: migrate_run_cases)
  case 1
  then show ?thesis by simp
next
  case (2 ks)
  let ?path = "keystore_path config" and ?rnd = "mk_round cmd"
  let ?keys = "mi_keys env (fs ?path ?rnd)"
  have keys: "set ?keys = dom (fs ?path ?rnd)" "distinct ?keys"
    using migration_soundD(3,4) [OF assms(2,4)] by auto
  note fs' = 2(1,2)
  have "(\<forall>pk seed. readable_key env (old_credentials config) (fs ?path) ?rnd pk = Ok (Some seed)
           \<longrightarrow> readable_key env (new_credentials cmd) (fs' ?path) ?rnd pk = Ok (Some seed))
        \<and> dom (fs' ?path ?rnd) = dom (fs ?path ?rnd)
        \<and> (\<forall>rnd. rnd \<noteq> ?rnd \<longrightarrow> fs' ?path rnd = fs ?path rnd)" if "r = Ok ()"
  proof -
    from migrate_keys_ok [OF assms(2,3) 2(3) [unfolded that] _ keys(2), of ?rnd]
    have others: "\<forall>x. x \<noteq> ?rnd \<longrightarrow> ks_disk ks x = fs ?path x"
      and rest: "\<forall>pk. pk \<notin> dom (fs ?path ?rnd) \<longrightarrow> ks_disk ks ?rnd pk = fs ?path ?rnd pk"
      and moved: "\<forall>pk \<in> dom (fs ?path ?rnd). \<exists>entry seed entry'. fs ?path ?rnd pk = Some entry
        \<and> ks_disk ks ?rnd pk = Some entry' \<and> sealed_seed env (old_credentials config) entry = Ok seed
        \<and> sealed_seed env (new_credentials cmd) entry' = Ok seed"
      using keys(1) by simp_all
    have "readable_key env (new_credentials cmd) (ks_disk ks) ?rnd pk = Ok (Some seed)"
      if "readable_key env (old_credentials config) (fs ?path) ?rnd pk = Ok (Some seed)" for pk seed
      using that moved migration_soundD(2) [OF assms(2), of "new_credentials cmd" "old_credentials config"]
      by (fastforce simp: readable_key_iff)
    moreover have "dom (ks_disk ks ?rnd) = dom (fs ?path ?rnd)"
      using rest moved by fastforce
    ultimately show ?thesis using others fs'(1) by simp
  qed
  with fs'(2) show ?thesis by simp
qed

lemma ex_migration_sound: "migration_sound ex_migrate_env"
  using ex_crypto_ok by (auto simp: migration_sound_def ex_migrate_env_def)

lemma ex_migrate_key:
  "is_ok (migrate_key ex_migrate_env ex_migrate_cmd None 0 [3, 8, 9]
     \<lparr>ks_db = Some 4, ks_loaded_round = 4, ks_disk = ex_files p\<rparr>)"
  by (simp add: migrate_key_def old_private_key_def raw_keystore_value_def ks_open_db_def insert_key_def
      old_credentials_def new_credentials_def encrypt_key_def decrypt_key_def pw_encrypt_key_def pw_decrypt_key_def
      ex_migrate_cmd_def ex_migrate_env_def ex_files_def ex_crypto_def)

lemma ex_migrate_ok: "snd (migrate_run ex_migrate_env ex_migrate_cmd None ex_files) = Ok ()"
proof -
  let ?ks = "\<lparr>ks_db = Some 4, ks_loaded_round = 4, ks_disk = ex_files (keystore_path None)\<rparr>"
  obtain ks' where k: "migrate_key ex_migrate_env ex_migrate_cmd None 0 [3, 8, 9] ?ks = Ok ks'"
    using ex_migrate_key [of "keystore_path None"] by (auto elim!: is_ok.elims)
  have keys: "mi_keys ex_migrate_env (ex_files p r) = [[3, 8, 9]]" for p r
    by (simp add: ex_migrate_env_def ex_files_def)
  have cp: "mi_copy ex_migrate_env ex_files p q = Some ex_files" for p q
    by (simp add: ex_migrate_env_def ex_files_def fun_eq_iff)
  have l: "ks_load (mi_opens ex_migrate_env) 4 (KeypairStorage_new (ex_files (keystore_path None))) = Ok ?ks"
    by (simp add: ks_load_Ok_iff KeypairStorage_new_def ex_migrate_env_def)
  have "mi_network_known ex_migrate_env" "mk_version ex_migrate_cmd \<noteq> 1" "mk_round ex_migrate_cmd = 4"
    by (simp_all add: ex_migrate_env_def ex_migrate_cmd_def)
  then show ?thesis
    by (simp add: migrate_run_def Let_def l cp keys k)
qed

theorem migration_keeps_keys_witness:
  "\<exists>fs'. migrate_run ex_migrate_env ex_migrate_cmd None ex_files = (fs', Ok ())
     \<and> readable_key ex_migrate_env (PasswordKey (Some [2])) (fs' DEFAULT_KEYSTORE_PATH) 4 [3, 8, 9] = Ok (Some [8, 9])"
proof -
  obtain fs' where run: "migrate_run ex_migrate_env ex_migrate_cmd None ex_files = (fs', Ok ())"
    using ex_migrate_ok by (cases "migrate_run ex_migrate_env ex_migrate_cmd None ex_files") auto
  have "mk_version ex_migrate_cmd \<noteq> 1" "finite (dom (ex_files (keystore_path None) (mk_round ex_migrate_cmd)))"
    by (simp_all add: ex_migrate_cmd_def ex_files_def)
  note all = migration_keeps_keys [OF run ex_migration_sound this]
  have "readable_key ex_migrate_env (old_credentials None) (ex_files (keystore_path None)) 4 [3, 8, 9] = Ok (Some [8, 9])"
    using crypto_okD(1) [OF ex_crypto_ok]
    by (simp add: readable_key_iff sealed_seed_def old_credentials_def decrypt_key_def pw_decrypt_key_def ex_files_def
        ex_migrate_env_def) (simp add: ex_crypto_def)
  with all run show ?thesis
    by (intro exI [of _ fs']) (simp add: ex_migrate_cmd_def new_credentials_def keystore_path_def)
qed

end
