(* ===== verification/Relayer_Service.thy ===== *)
theory Relayer_Service
  imports Bootstrap_Progress Keystore_Migration Event_Manager
begin

text \<open>
  Start-up of the relayer (\<open>relayer/src/service.rs\<close>, \<open>service_deps\<close>): from the configuration file
  to the clients, the handlers and the set of tasks that run. Parsing of addresses, keys and URLs,
  the connections to nodes and the iteration order of a hash map are arguments. The bootstrap
  protocol assumes certain tasks; here it is shown which configurations provide them.
\<close>

section \<open>The configuration\<close>

record SystemConfig =
  debug_mode :: "bool option"

record SignerConfig =
  sg_kms_key_id :: "string option"
  sg_private_key :: "string option"

record BTCProvider =
  bp_id :: chain_id
  bp_provider :: string
  bp_call_interval :: u64
  bp_block_confirmations :: "u64 option"
  bp_chain :: string
  bp_username :: "string option"
  bp_password :: "string option"
  bp_wallet :: "string option"

datatype HandlerType = SocketHandler | RoundupHandler

record HandlerConfig =
  handler_type :: HandlerType
  watch_list :: "chain_id list"

record PrometheusConfig =
  pm_is_enabled :: bool
  pm_is_external :: "bool option"
  pm_port :: "16 word option"

record SentryConfig =
  sn_environment :: "string option"
  sn_is_enabled :: bool
  sn_dsn :: string

record RelayerConfig =
  rc_system :: "SystemConfig option"
  rc_signer_config :: "SignerConfig list"
  rc_keystore_config :: "KeystoreConfig option"
  rc_evm_providers :: "EVMProvider list"
  rc_btc_provider :: BTCProvider
  rc_handler_configs :: "HandlerConfig list"
  rc_bootstrap_config :: "BootstrapConfig option"
  rc_sentry_config :: "SentryConfig option"
  rc_prometheus_config :: "PrometheusConfig option"

definition DEFAULT_PROMETHEUS_PORT :: "16 word" where "DEFAULT_PROMETHEUS_PORT = 8000"

definition DEFAULT_BITCOIN_BLOCK_CONFIRMATIONS :: u64 where "DEFAULT_BITCOIN_BLOCK_CONFIRMATIONS = 3"

text \<open>The networks the code distinguishes; \<open>from_core_arg\<close> knows a few more.\<close>

datatype network = Bitcoin_network | Testnet_network | Other_network

text \<open>
  \<open>sv_relay_queue\<close> tells whether the runtime has the relay queue (\<open>None\<close>: no answer);
  \<open>sv_queue_poller\<close> and \<open>sv_onflight\<close> whether the connections these handlers open succeed.
\<close>

record ServiceEnv =
  sv_task_manager :: "unit res"
  sv_kms_signer :: "string \<Rightarrow> chain_id \<Rightarrow> address option"
  sv_key_signer :: "string \<Rightarrow> address option"
  sv_hash_order :: "address list \<Rightarrow> address list"
  sv_parse_url :: "string \<Rightarrow> string option"
  sv_parse_address :: "string \<Rightarrow> address option"
  sv_selected_relayers :: "chain_id \<Rightarrow> address list res"
  sv_network :: "string \<Rightarrow> network option"
  sv_sub_client :: "string \<Rightarrow> bool"
  sv_relay_queue :: "bool option"
  sv_queue_poller :: "chain_id \<Rightarrow> bool"
  sv_onflight :: bool
  sv_btc_client :: "BTCProvider \<Rightarrow> bool"

section \<open>Clients\<close>

definition signer_address :: "ServiceEnv \<Rightarrow> chain_id \<Rightarrow> SignerConfig \<Rightarrow> address res" where
  "signer_address env chain s =
     (case sg_kms_key_id s of
        Some key_id \<Rightarrow> unwrap (sv_kms_signer env key_id chain)
      | None \<Rightarrow> bind_res (unwrap (sg_private_key s)) (\<lambda>key. unwrap (sv_key_signer env key)))"

definition provider_native :: "EVMProvider \<Rightarrow> bool" where
  "provider_native p = (case ep_is_native p of Some b \<Rightarrow> b | None \<Rightarrow> False)"

definition build_client :: "ServiceEnv \<Rightarrow> RelayerConfig \<Rightarrow> EVMProvider \<Rightarrow> address \<Rightarrow> EthClient res" where
  "build_client env cfg p address =
     bind_res (traverse_res (signer_address env (ep_id p)) (rc_signer_config cfg)) (\<lambda>addresses.
     bind_res (unwrap (sv_parse_url env (ep_provider p))) (\<lambda>url.
     bind_res (ProtocolContracts_new (sv_parse_address env) (provider_native p) p) (\<lambda>protocol.
     bind_res (AggregatorContracts_new (sv_parse_address env) p) (\<lambda>aggregators.
       Ok \<lparr>metadata = ProviderMetadata_new p url
             (if provider_native p then Some (bp_id (rc_btc_provider cfg)) else None) (provider_native p),
           protocol_contracts = protocol, aggregator_contracts = aggregators,
           signers = sv_hash_order env (remdups addresses), default_address = address\<rparr>))))"

text \<open>The address is shared by all clients: what the Bifrost client selects holds for every chain.\<close>

fun build_clients ::
    "ServiceEnv \<Rightarrow> RelayerConfig \<Rightarrow> EVMProvider list \<Rightarrow> address \<Rightarrow> (chain_id \<times> EthClient) list
      \<Rightarrow> (address \<times> (chain_id \<times> EthClient) list) res" where
  "build_clients env cfg [] address clients = Ok (address, clients)"
| "build_clients env cfg (p # ps) address clients =
     bind_res (build_client env cfg p address) (\<lambda>client.
     bind_res
       (if provider_native p then update_default_address (sv_selected_relayers env (ep_id p)) None client
        else Ok client)
       (\<lambda>updated. build_clients env cfg ps (default_address updated) (btree_insert (ep_id p) updated clients)))"

definition service_clients :: "ServiceEnv \<Rightarrow> RelayerConfig \<Rightarrow> (chain_id \<times> EthClient) list res" where
  "service_clients env cfg =
     bind_res (build_clients env cfg (rc_evm_providers cfg) 0 []) (\<lambda>(address, clients).
       Ok (map (\<lambda>(chain, c). (chain, c\<lparr>default_address := address\<rparr>)) clients))"

section \<open>Managers\<close>

record ManagerDeps =
  bifrost_client :: EthClient
  clients :: "(chain_id \<times> EthClient) list"
  event_managers :: "(chain_id \<times> EventManager) list"

definition EventManager_new :: "EthClient \<Rightarrow> bool \<Rightarrow> EventManager" where
  "EventManager_new client sync =
     \<lparr>em_client = client, waiting_block = 0, is_balance_sync_enabled = sync\<rparr>"

fun collect_managers ::
    "bool \<Rightarrow> (chain_id \<times> EthClient) list \<Rightarrow> EVMProvider list \<Rightarrow> EthClient option
      \<Rightarrow> (chain_id \<times> EventManager) list \<Rightarrow> (EthClient option \<times> (chain_id \<times> EventManager) list) res" where
  "collect_managers sync cs [] bifrost ems = Ok (bifrost, ems)"
| "collect_managers sync cs (p # ps) bifrost ems =
     bind_res (unwrap (map_of cs (ep_id p))) (\<lambda>client.
       collect_managers sync cs ps (if provider_native p then Some client else bifrost)
         (btree_insert (client_chain_id client) (EventManager_new client sync) ems))"

definition ManagerDeps_new :: "RelayerConfig \<Rightarrow> (chain_id \<times> EthClient) list \<Rightarrow> ManagerDeps res" where
  "ManagerDeps_new cfg cs =
     bind_res
       (collect_managers
          (case rc_prometheus_config cfg of Some pm \<Rightarrow> pm_is_enabled pm | None \<Rightarrow> False)
          cs (rc_evm_providers cfg) None [])
       (\<lambda>(bifrost, ems).
          bind_res (unwrap bifrost) (\<lambda>b. Ok \<lparr>bifrost_client = b, clients = cs, event_managers = ems\<rparr>))"

section \<open>Handlers\<close>

text \<open>
  Handlers are known by the chain whose events they receive. The round-up handler subscribes to
  the first chain of its watch list, whatever else is listed.
\<close>

record HandlerDeps =
  socket_relay_handlers :: "chain_id list"
  socket_queue_pollers :: "chain_id list"
  roundup_relay_handlers :: "chain_id list"
  onflight_senders :: "(chain_id \<times> unit) list"

definition add_socket_handler ::
    "ServiceEnv \<Rightarrow> ManagerDeps \<Rightarrow> bool \<Rightarrow> chain_id \<Rightarrow> HandlerDeps \<Rightarrow> HandlerDeps res" where
  "add_socket_handler env deps queue_enabled target acc =
     (let acc1 = (if queue_enabled
                 then acc\<lparr>onflight_senders := btree_insert target () (onflight_senders acc)\<rparr> else acc)
      in bind_res (unwrap (map_of (event_managers deps) target)) (\<lambda>_.
         let acc2 = acc1\<lparr>socket_relay_handlers := socket_relay_handlers acc1 @ [target]\<rparr>
         in if \<not> queue_enabled then Ok acc2
            else bind_res (unwrap (map_of (clients deps) target)) (\<lambda>_.
                 if sv_queue_poller env target
                 then Ok (acc2\<lparr>socket_queue_pollers := socket_queue_pollers acc2 @ [target]\<rparr>) else Panic)))"

fun add_socket_handlers ::
    "ServiceEnv \<Rightarrow> ManagerDeps \<Rightarrow> bool \<Rightarrow> chain_id list \<Rightarrow> HandlerDeps \<Rightarrow> HandlerDeps res" where
  "add_socket_handlers env deps queue_enabled [] acc = Ok acc"
| "add_socket_handlers env deps queue_enabled (target # rest) acc =
     bind_res (add_socket_handler env deps queue_enabled target acc)
       (add_socket_handlers env deps queue_enabled rest)"

definition add_roundup_handler :: "ManagerDeps \<Rightarrow> chain_id list \<Rightarrow> HandlerDeps \<Rightarrow> HandlerDeps res" where
  "add_roundup_handler deps targets acc =
     bind_res (vec_index targets 0) (\<lambda>target.
     bind_res (unwrap (map_of (event_managers deps) target)) (\<lambda>_.
       Ok (acc\<lparr>roundup_relay_handlers := roundup_relay_handlers acc @ [target]\<rparr>)))"

fun add_handlers ::
    "ServiceEnv \<Rightarrow> ManagerDeps \<Rightarrow> bool \<Rightarrow> HandlerConfig list \<Rightarrow> HandlerDeps \<Rightarrow> HandlerDeps res" where
  "add_handlers env deps queue_enabled [] acc = Ok acc"
| "add_handlers env deps queue_enabled (h # hs) acc =
     bind_res
       (case handler_type h of
          SocketHandler \<Rightarrow> add_socket_handlers env deps queue_enabled (watch_list h) acc
        | RoundupHandler \<Rightarrow> add_roundup_handler deps (watch_list h) acc)
       (add_handlers env deps queue_enabled hs)"

definition HandlerDeps_new ::
    "ServiceEnv \<Rightarrow> RelayerConfig \<Rightarrow> ManagerDeps \<Rightarrow> BootstrapSharedData
      \<Rightarrow> (HandlerDeps \<times> bool \<times> BootstrapSharedData) res" where
  "HandlerDeps_new env cfg deps shared_data =
     bind_res (unwrap (sv_relay_queue env)) (\<lambda>queue_enabled.
     bind_res
       (add_handlers env deps queue_enabled (rc_handler_configs cfg)
          \<lparr>socket_relay_handlers = [], socket_queue_pollers = [], roundup_relay_handlers = [],
           onflight_senders = []\<rparr>)
       (\<lambda>acc. Ok (acc, queue_enabled \<and> onflight_senders acc \<noteq> [] \<and> sv_onflight env,
                 shared_data\<lparr>cccp_relay_queue_enabled := queue_enabled\<rparr>)))"

section \<open>The Bitcoin side\<close>

text \<open>Of the Bitcoin workers, only the parameters that start-up derives for them are kept.\<close>

record BtcParameters =
  bd_auth :: "(string \<times> string) option"
  bd_call_interval :: u64
  bd_block_confirmations :: u64
  bd_mainnet_height :: bool
  bd_fee_rate_source :: "network option"

definition BtcDeps_new :: "ServiceEnv \<Rightarrow> RelayerConfig \<Rightarrow> BtcParameters res" where
  "BtcDeps_new env cfg =
     (let p = rc_btc_provider cfg
      in bind_res (unwrap (sv_network env (bp_chain p))) (\<lambda>net.
         if \<not> sv_btc_client env p then Panic
         else Ok \<lparr>bd_auth = (case (bp_username p, bp_password p) of
                       (Some username, Some password) \<Rightarrow> Some (username, password) | _ \<Rightarrow> None),
                  bd_call_interval = bp_call_interval p,
                  bd_block_confirmations =
                    (case bp_block_confirmations p of
                       Some n \<Rightarrow> n | None \<Rightarrow> DEFAULT_BITCOIN_BLOCK_CONFIRMATIONS),
                  bd_mainnet_height = (net = Bitcoin_network),
                  bd_fee_rate_source = (if net = Other_network then None else Some net)\<rparr>))"

section \<open>The tasks\<close>

datatype service_task =
    Migration_detector | Presubmitter | Unsigned_tx_manager | Heartbeat | Price_feeder
  | Deviation_checker | Rollback_emitter_of chain_id | Socket_relay_of chain_id | Onflight
  | Queue_poller_of chain_id | Roundup_relay_of chain_id | Roundup_emitter_task
  | Event_manager_of chain_id | Btc_inbound | Btc_outbound | Psbt_signer_task
  | Psbt_broadcaster_task | Pub_key_submitter_task | Rollback_verifier_task | Fee_rate_feeder
  | Block_manager_task | Prometheus bool "16 word"

text \<open>What happens when the body of a task returns: nothing more, the body again, or a pause first.\<close>

datatype supervision = Ends_with_task | Restarts | Restarts_after nat

fun supervision_of :: "service_task \<Rightarrow> supervision" where
  "supervision_of Migration_detector = Ends_with_task"
| "supervision_of Presubmitter = Restarts_after 12"
| "supervision_of Unsigned_tx_manager = Ends_with_task"
| "supervision_of Heartbeat = Restarts_after 12"
| "supervision_of Price_feeder = Restarts_after 12"
| "supervision_of Deviation_checker = Restarts_after 12"
| "supervision_of (Rollback_emitter_of c) = Restarts_after 12"
| "supervision_of Onflight = Restarts_after 12"
| "supervision_of (Prometheus ext port) = Ends_with_task"
| "supervision_of _ = Restarts"

text \<open>A task that ends or panics takes the relayer down when it is essential.\<close>

definition essential :: "service_task \<Rightarrow> bool" where
  "essential t = (case t of Prometheus _ _ \<Rightarrow> False | _ \<Rightarrow> True)"

definition prometheus_tasks :: "PrometheusConfig option \<Rightarrow> service_task list" where
  "prometheus_tasks cfg =
     (case cfg of
        None \<Rightarrow> []
      | Some pm \<Rightarrow>
          if pm_is_enabled pm
          then [Prometheus (case pm_is_external pm of Some b \<Rightarrow> b | None \<Rightarrow> False)
                  (case pm_port pm of Some port \<Rightarrow> port | None \<Rightarrow> DEFAULT_PROMETHEUS_PORT)]
          else [])"

definition periodic_tasks :: "ManagerDeps \<Rightarrow> service_task list" where
  "periodic_tasks deps =
     [Migration_detector, Presubmitter, Unsigned_tx_manager, Heartbeat, Price_feeder, Deviation_checker]
     @ map (\<lambda>(chain, _). Rollback_emitter_of chain) (clients deps)"

definition handler_tasks :: "ManagerDeps \<Rightarrow> HandlerDeps \<Rightarrow> bool \<Rightarrow> service_task list" where
  "handler_tasks deps handlers onflight =
     map Socket_relay_of (socket_relay_handlers handlers)
     @ (if onflight then [Onflight] else [])
     @ map Queue_poller_of (socket_queue_pollers handlers)
     @ map Roundup_relay_of (roundup_relay_handlers handlers)
     @ [Roundup_emitter_task]
     @ map (\<lambda>(chain, _). Event_manager_of chain) (event_managers deps)"

definition bitcoin_tasks :: "service_task list" where
  "bitcoin_tasks =
     [Btc_inbound, Btc_outbound, Psbt_signer_task, Psbt_broadcaster_task, Pub_key_submitter_task,
      Rollback_verifier_task, Fee_rate_feeder, Block_manager_task]"

definition spawn_relayer_tasks :: "RelayerConfig \<Rightarrow> ManagerDeps \<Rightarrow> HandlerDeps \<Rightarrow> bool \<Rightarrow> service_task list" where
  "spawn_relayer_tasks cfg deps handlers onflight =
     periodic_tasks deps @ handler_tasks deps handlers onflight @ bitcoin_tasks
     @ prometheus_tasks (rc_prometheus_config cfg)"

lemmas spawn_defs = spawn_relayer_tasks_def periodic_tasks_def handler_tasks_def bitcoin_tasks_def

record Service =
  s_clients :: "(chain_id \<times> EthClient) list"
  s_shared :: BootstrapSharedData
  s_keystore :: "string \<times> credentials"
  s_debug_mode :: bool
  s_tasks :: "service_task list"

definition relay :: "ServiceEnv \<Rightarrow> RelayerConfig \<Rightarrow> Service res" where
  "relay env cfg =
     bind_res (assert_configuration_validity (rc_bootstrap_config cfg) (rc_evm_providers cfg)) (\<lambda>_.
     bind_res (sv_task_manager env) (\<lambda>_.
     bind_res (service_clients env cfg) (\<lambda>cs.
     let shared_data = BootstrapSharedData_new (rc_evm_providers cfg) (bp_id (rc_btc_provider cfg))
           (rc_bootstrap_config cfg)
     in bind_res (unwrap (sv_network env (bp_chain (rc_btc_provider cfg)))) (\<lambda>_.
        bind_res (ManagerDeps_new cfg cs) (\<lambda>deps.
        if \<not> sv_sub_client env (md_url (metadata (bifrost_client deps))) then Panic
        else bind_res (HandlerDeps_new env cfg deps shared_data) (\<lambda>(acc, onflight, handler_data).
             bind_res (BtcDeps_new env cfg) (\<lambda>_.
               Ok \<lparr>s_clients = cs, s_shared = handler_data,
                   s_keystore = (keystore_path (rc_keystore_config cfg), old_credentials (rc_keystore_config cfg)),
                   s_debug_mode =
                     (case rc_system cfg of
                        Some sys \<Rightarrow> (case debug_mode sys of Some b \<Rightarrow> b | None \<Rightarrow> False) | None \<Rightarrow> False),
                   s_tasks = spawn_relayer_tasks cfg deps acc onflight\<rparr>)))))))"

section \<open>The topology of a configuration\<close>

definition topology_of :: "RelayerConfig \<Rightarrow> BootTopology" where
  "topology_of cfg =
     \<lparr>tp_providers = rc_evm_providers cfg,
      tp_watch_list = concat (map watch_list (filter (\<lambda>h. handler_type h = SocketHandler) (rc_handler_configs cfg))),
      tp_bifrost = ep_id (last (filter provider_native (rc_evm_providers cfg))),
      tp_btc = bp_id (rc_btc_provider cfg)\<rparr>"

fun relay_chain :: "service_task \<Rightarrow> chain_id option" where
  "relay_chain (Socket_relay_of c) = Some c"
| "relay_chain _ = None"

fun poller_chain :: "service_task \<Rightarrow> chain_id option" where
  "poller_chain (Queue_poller_of c) = Some c"
| "poller_chain _ = None"

fun roundup_chain :: "service_task \<Rightarrow> chain_id option" where
  "roundup_chain (Roundup_relay_of c) = Some c"
| "roundup_chain _ = None"

fun manager_chain :: "service_task \<Rightarrow> chain_id option" where
  "manager_chain (Event_manager_of c) = Some c"
| "manager_chain _ = None"

section \<open>A concrete configuration\<close>

definition ex_native :: EVMProvider where
  "ex_native = (ex_provider 3068 True)\<lparr>relayer_manager_address := Some '''', bitcoin_socket_address := Some '''',
     socket_queue_address := Some '''', registration_pool_address := Some '''',
     relay_executive_address := Some '''', blaze_address := Some ''''\<rparr>"

definition ex_relayer_config :: RelayerConfig where
  "ex_relayer_config =
     \<lparr>rc_system = None, rc_signer_config = [\<lparr>sg_kms_key_id = None, sg_private_key = Some ''key''\<rparr>],
      rc_keystore_config = None, rc_evm_providers = [ex_native, ex_provider 1 False],
      rc_btc_provider = \<lparr>bp_id = 10000, bp_provider = ''http'', bp_call_interval = 10000,
        bp_block_confirmations = None, bp_chain = ''main'', bp_username = None, bp_password = None,
        bp_wallet = None\<rparr>,
      rc_handler_configs = [\<lparr>handler_type = SocketHandler, watch_list = [3068, 1]\<rparr>,
        \<lparr>handler_type = RoundupHandler, watch_list = [3068]\<rparr>],
      rc_bootstrap_config = Some ex_boot_config, rc_sentry_config = None, rc_prometheus_config = None\<rparr>"

definition ex_service_env :: ServiceEnv where
  "ex_service_env =
     \<lparr>sv_task_manager = Ok (), sv_kms_signer = (\<lambda>_ _. None), sv_key_signer = (\<lambda>_. Some 7),
      sv_hash_order = (\<lambda>xs. xs), sv_parse_url = Some, sv_parse_address = (\<lambda>_. Some 5),
      sv_selected_relayers = (\<lambda>_. Ok [7]), sv_network = (\<lambda>_. Some Bitcoin_network),
      sv_sub_client = (\<lambda>_. True), sv_relay_queue = Some True, sv_queue_poller = (\<lambda>_. True),
      sv_onflight = True, sv_btc_client = (\<lambda>_. True)\<rparr>"

section \<open>Clients and managers\<close>

definition keyed_clients :: "(chain_id \<times> EthClient) list \<Rightarrow> bool" where
  "keyed_clients cs \<longleftrightarrow> btree_inv cs \<and> (\<forall>(chain, c) \<in> set cs. client_chain_id c = chain)"

lemma build_client_chain: "build_client env cfg p a = Ok c \<Longrightarrow> client_chain_id c = ep_id p"
  by (auto simp: build_client_def bind_res_Ok_iff client_chain_id_def ProviderMetadata_new_def Let_def)

lemma update_default_address_chain:
  "update_default_address selected rs c = Ok c' \<Longrightarrow> client_chain_id c' = client_chain_id c"
  by (auto simp: update_default_address_def bind_res_Ok_iff client_chain_id_def Let_def split: if_splits)

lemma build_clients_keyed:
  "build_clients env cfg ps a acc = Ok (a', cs) \<Longrightarrow> keyed_clients acc \<Longrightarrow>
     keyed_clients cs \<and> fst ` set cs = fst ` set acc \<union> ep_id ` set ps"
proof (induction ps arbitrary: a acc)
  case (Cons p ps)
  obtain c c' where c: "build_client env cfg p a = Ok c" "client_chain_id c' = client_chain_id c"
    "build_clients env cfg ps (default_address c') (btree_insert (ep_id p) c' acc) = Ok (a', cs)"
    using Cons.prems(1) update_default_address_chain
    by (fastforce simp: bind_res_Ok_iff split: if_splits)
  have inv: "btree_inv acc" using Cons.prems(2) by (simp add: keyed_clients_def)
  have "keyed_clients (btree_insert (ep_id p) c' acc)"
    using Cons.prems(2) build_client_chain [OF c(1)] c(2)
    by (auto simp: keyed_clients_def btree_inv_insert set_btree_insert)
  from Cons.IH [OF c(3) this] show ?case
    by (simp add: fst_set_btree_insert [OF inv])
qed (simp add: keyed_clients_def)

lemma service_clients_keyed:
  assumes "service_clients env cfg = Ok cs"
  shows "keyed_clients cs" and "fst ` set cs = ep_id ` set (rc_evm_providers cfg)"
proof -
  obtain a cs' where cs': "build_clients env cfg (rc_evm_providers cfg) 0 [] = Ok (a, cs')"
    "cs = map (\<lambda>(chain, c). (chain, c\<lparr>default_address := a\<rparr>)) cs'"
    using assms by (auto simp: service_clients_def bind_res_Ok_iff)
  have k: "keyed_clients cs' \<and> fst ` set cs' = ep_id ` set (rc_evm_providers cfg)"
    using build_clients_keyed [OF cs'(1)] by (simp add: keyed_clients_def)
  have fsts: "map fst cs = map fst cs'" by (simp add: cs'(2) case_prod_beta comp_def)
  then show "fst ` set cs = ep_id ` set (rc_evm_providers cfg)"
    using k by (metis list.set_map)
  have "btree_inv cs" using k fsts by (simp add: keyed_clients_def btree_inv_def)
  then show "keyed_clients cs"
    using k unfolding keyed_clients_def by (auto simp: cs'(2) client_chain_id_def)
qed

text \<open>The address of a round: one of the configured signers that the contract lists as selected.\<close>

definition own_selected :: "ServiceEnv \<Rightarrow> RelayerConfig \<Rightarrow> EVMProvider \<Rightarrow> address \<Rightarrow> bool" where
  "own_selected env cfg p a \<longleftrightarrow>
     (\<exists>relayers. sv_selected_relayers env (ep_id p) = Ok relayers \<and> a \<in> set relayers
        \<and> (\<exists>s \<in> set (rc_signer_config cfg). signer_address env (ep_id p) s = Ok a))"

lemma traverse_res_mem:
  "traverse_res f xs = Ok ys \<Longrightarrow> y \<in> set ys \<Longrightarrow> \<exists>x \<in> set xs. f x = Ok y"
  by (induction xs arbitrary: ys) (auto simp: bind_res_Ok_iff)

lemma update_default_address_selects:
  assumes "build_client env cfg p a = Ok c"
    and "\<And>xs. set (sv_hash_order env xs) \<subseteq> set xs"
    and "update_default_address (sv_selected_relayers env (ep_id p)) None c = Ok c'"
  shows "default_address c' = 0 \<or> own_selected env cfg p (default_address c')"
proof -
  obtain rs where rs: "sv_selected_relayers env (ep_id p) = Ok rs"
    "default_address c' = (case List.find (\<lambda>s. s \<in> set rs) (signers c) of Some s \<Rightarrow> s | None \<Rightarrow> 0)"
    using assms(3) by (auto simp: update_default_address_def bind_res_Ok_iff Let_def split: res.splits)
  obtain addresses where addrs: "traverse_res (signer_address env (ep_id p)) (rc_signer_config cfg) = Ok addresses"
    "signers c = sv_hash_order env (remdups addresses)"
    using assms(1) by (auto simp: build_client_def bind_res_Ok_iff)
  show ?thesis
  proof (cases "List.find (\<lambda>s. s \<in> set rs) (signers c)")
    case (Some s)
    then have "s \<in> set rs" "s \<in> set (signers c)" by (auto simp: find_Some_iff)
    then have "s \<in> set addresses" using addrs(2) assms(2) by fastforce
    from traverse_res_mem [OF addrs(1) this] show ?thesis
      using rs Some \<open>s \<in> set rs\<close> by (auto simp: own_selected_def)
  qed (simp add: rs(2))
qed

lemma build_clients_address:
  assumes "\<And>xs. set (sv_hash_order env xs) \<subseteq> set xs"
  shows "build_clients env cfg ps a acc = Ok (a', cs) \<Longrightarrow>
     ((\<forall>p \<in> set ps. \<not> provider_native p) \<longrightarrow> a' = a)
     \<and> ((\<exists>p \<in> set ps. provider_native p) \<longrightarrow>
         a' = 0 \<or> own_selected env cfg (last (filter provider_native ps)) a')"
proof (induction ps arbitrary: a acc)
  case (Cons p ps)
  obtain c c' where c: "build_client env cfg p a = Ok c"
    "(if provider_native p then update_default_address (sv_selected_relayers env (ep_id p)) None c else Ok c) = Ok c'"
    "build_clients env cfg ps (default_address c') (btree_insert (ep_id p) c' acc) = Ok (a', cs)"
    using Cons.prems by (auto simp: bind_res_Ok_iff)
  note ih = Cons.IH [OF c(3)]
  have a: "default_address c = a" using c(1) by (auto simp: build_client_def bind_res_Ok_iff)
  show ?case
  proof (cases "\<exists>p \<in> set ps. provider_native p")
    case True
    then have "filter provider_native ps \<noteq> []" by (simp add: filter_empty_conv)
    with ih True show ?thesis by auto
  next
    case False
    then have none: "filter provider_native ps = []" by (simp add: filter_empty_conv)
    have "a' = default_address c'" using ih False by blast
    then show ?thesis
      using c(2) a none False update_default_address_selects [OF c(1) assms] by (auto split: if_splits)
  qed
qed simp

lemma service_address:
  assumes "service_clients env cfg = Ok cs" and "\<And>xs. set (sv_hash_order env xs) \<subseteq> set xs"
    and "\<exists>p \<in> set (rc_evm_providers cfg). provider_native p"
  shows "\<exists>a. (\<forall>(chain, c) \<in> set cs. default_address c = a)
    \<and> (a = 0 \<or> own_selected env cfg (last (filter provider_native (rc_evm_providers cfg))) a)"
proof -
  obtain a cs' where cs': "build_clients env cfg (rc_evm_providers cfg) 0 [] = Ok (a, cs')"
    "cs = map (\<lambda>(chain, c). (chain, c\<lparr>default_address := a\<rparr>)) cs'"
    using assms(1) by (auto simp: service_clients_def bind_res_Ok_iff)
  have "\<forall>(chain, c) \<in> set cs. default_address c = a" by (auto simp: cs'(2))
  with build_clients_address [OF assms(2) cs'(1)] assms(3) show ?thesis by blast
qed

lemma collect_managers_keys:
  assumes "keyed_clients cs"
  shows "collect_managers sync cs ps b ems = Ok (b', ems') \<Longrightarrow> btree_inv ems \<Longrightarrow>
     btree_inv ems' \<and> fst ` set ems' = fst ` set ems \<union> ep_id ` set ps
     \<and> (b' \<noteq> None \<longleftrightarrow> b \<noteq> None \<or> (\<exists>p \<in> set ps. provider_native p))"
proof (induction ps arbitrary: b ems)
  case (Cons p ps)
  obtain c where c: "map_of cs (ep_id p) = Some c"
    "collect_managers sync cs ps (if provider_native p then Some c else b)
       (btree_insert (client_chain_id c) (EventManager_new c sync) ems) = Ok (b', ems')"
    using Cons.prems(1) by (auto simp: bind_res_Ok_iff)
  have "client_chain_id c = ep_id p"
    using map_of_SomeD [OF c(1)] assms by (auto simp: keyed_clients_def)
  with Cons.IH [OF c(2) btree_inv_insert [OF Cons.prems(2)]] show ?case
    by (auto simp: fst_set_btree_insert [OF Cons.prems(2)] split: if_splits)
qed simp

lemma ManagerDeps_new_ok:
  assumes "ManagerDeps_new cfg cs = Ok deps" and "keyed_clients cs"
  shows "clients deps = cs" and "btree_inv (event_managers deps)"
    and "fst ` set (event_managers deps) = ep_id ` set (rc_evm_providers cfg)"
    and "\<exists>p \<in> set (rc_evm_providers cfg). provider_native p"
proof -
  obtain sync b where m: "collect_managers sync cs (rc_evm_providers cfg) None [] = Ok (Some b, event_managers deps)"
    and c: "clients deps = cs"
    using assms(1) by (auto simp: ManagerDeps_new_def bind_res_Ok_iff simp del: collect_managers.simps)
  show "clients deps = cs" by (rule c)
  from collect_managers_keys [OF assms(2) m]
  show "btree_inv (event_managers deps)"
    and "fst ` set (event_managers deps) = ep_id ` set (rc_evm_providers cfg)"
    and "\<exists>p \<in> set (rc_evm_providers cfg). provider_native p"
    by simp_all
qed

section \<open>Handlers\<close>

definition socket_targets :: "HandlerConfig list \<Rightarrow> chain_id list" where
  "socket_targets hs = concat (map watch_list (filter (\<lambda>h. handler_type h = SocketHandler) hs))"

definition roundup_targets :: "HandlerConfig list \<Rightarrow> chain_id list" where
  "roundup_targets hs = map (\<lambda>h. watch_list h ! 0) (filter (\<lambda>h. handler_type h = RoundupHandler) hs)"

lemma add_socket_handlers_ok:
  "add_socket_handlers env deps q targets acc = Ok acc' \<Longrightarrow>
     socket_relay_handlers acc' = socket_relay_handlers acc @ targets
     \<and> socket_queue_pollers acc' = socket_queue_pollers acc @ (if q then targets else [])
     \<and> roundup_relay_handlers acc' = roundup_relay_handlers acc
     \<and> set targets \<subseteq> fst ` set (event_managers deps)"
proof (induction targets arbitrary: acc)
  case (Cons t targets)
  obtain acc1 where a: "add_socket_handler env deps q t acc = Ok acc1"
    "add_socket_handlers env deps q targets acc1 = Ok acc'"
    using Cons.prems by (auto simp: bind_res_Ok_iff)
  have "socket_relay_handlers acc1 = socket_relay_handlers acc @ [t]
     \<and> socket_queue_pollers acc1 = socket_queue_pollers acc @ (if q then [t] else [])
     \<and> roundup_relay_handlers acc1 = roundup_relay_handlers acc \<and> t \<in> fst ` set (event_managers deps)"
    using a(1) by (auto simp: add_socket_handler_def bind_res_Ok_iff Let_def dest!: map_of_SomeD
        split: if_splits intro: rev_image_eqI)
  with Cons.IH [OF a(2)] show ?case by simp
qed simp

lemma add_handlers_ok:
  "add_handlers env deps q hs acc = Ok acc' \<Longrightarrow>
     socket_relay_handlers acc' = socket_relay_handlers acc @ socket_targets hs
     \<and> socket_queue_pollers acc' = socket_queue_pollers acc @ (if q then socket_targets hs else [])
     \<and> roundup_relay_handlers acc' = roundup_relay_handlers acc @ roundup_targets hs
     \<and> set (socket_targets hs) \<subseteq> fst ` set (event_managers deps)"
proof (induction hs arbitrary: acc)
  case (Cons h hs)
  show ?case
  proof (cases "handler_type h")
    case SocketHandler
    then obtain acc1 where a: "add_socket_handlers env deps q (watch_list h) acc = Ok acc1"
      "add_handlers env deps q hs acc1 = Ok acc'"
      using Cons.prems by (auto simp: bind_res_Ok_iff)
    from Cons.IH [OF a(2)] add_socket_handlers_ok [OF a(1)] SocketHandler show ?thesis
      by (simp add: socket_targets_def roundup_targets_def)
  next
    case RoundupHandler
    then obtain acc1 where a: "add_roundup_handler deps (watch_list h) acc = Ok acc1"
      "add_handlers env deps q hs acc1 = Ok acc'"
      using Cons.prems by (auto simp: bind_res_Ok_iff)
    from a(1) have "acc1 = acc\<lparr>roundup_relay_handlers := roundup_relay_handlers acc @ [watch_list h ! 0]\<rparr>"
      by (auto simp: add_roundup_handler_def bind_res_Ok_iff vec_index_def split: if_splits)
    with Cons.IH [OF a(2)] RoundupHandler show ?thesis
      by (simp add: socket_targets_def roundup_targets_def)
  qed
qed (simp add: socket_targets_def roundup_targets_def)

lemma HandlerDeps_new_ok:
  assumes "HandlerDeps_new env cfg deps d = Ok (handlers, onflight, d')"
  obtains q where "sv_relay_queue env = Some q" and "d' = d\<lparr>cccp_relay_queue_enabled := q\<rparr>"
    and "socket_relay_handlers handlers = socket_targets (rc_handler_configs cfg)"
    and "socket_queue_pollers handlers = (if q then socket_targets (rc_handler_configs cfg) else [])"
    and "roundup_relay_handlers handlers = roundup_targets (rc_handler_configs cfg)"
    and "set (socket_targets (rc_handler_configs cfg)) \<subseteq> fst ` set (event_managers deps)"
proof -
  obtain q where q: "sv_relay_queue env = Some q" "d' = d\<lparr>cccp_relay_queue_enabled := q\<rparr>"
    "add_handlers env deps q (rc_handler_configs cfg)
       \<lparr>socket_relay_handlers = [], socket_queue_pollers = [], roundup_relay_handlers = [],
        onflight_senders = []\<rparr> = Ok handlers"
    using assms by (auto simp: HandlerDeps_new_def bind_res_Ok_iff)
  from add_handlers_ok [OF q(3)] show thesis by (intro that [OF q(1,2)]) simp_all
qed

section \<open>The tasks that run\<close>

lemma map_filter_prometheus:
  "(\<And>ext port. g (Prometheus ext port) = None) \<Longrightarrow> List.map_filter g (prometheus_tasks pm) = []"
  by (simp add: prometheus_tasks_def List.map_filter_simps split: option.splits)

lemma spawned_tasks:
  "List.map_filter relay_chain (spawn_relayer_tasks cfg deps handlers onflight) = socket_relay_handlers handlers"
  "List.map_filter poller_chain (spawn_relayer_tasks cfg deps handlers onflight) = socket_queue_pollers handlers"
  "List.map_filter roundup_chain (spawn_relayer_tasks cfg deps handlers onflight) = roundup_relay_handlers handlers"
  "List.map_filter manager_chain (spawn_relayer_tasks cfg deps handlers onflight) = map fst (event_managers deps)"
  by (simp_all add: spawn_defs map_filter_append map_filter_prometheus List.map_filter_simps
      map_filter_map_Some [where h = "\<lambda>x. x"] map_filter_map_Some [where h = fst] map_filter_map_None case_prod_beta)


lemma relay_ok:
  assumes "relay env cfg = Ok svc"
  obtains q deps handlers onflight where "sv_relay_queue env = Some q"
    and "s_shared svc = (BootstrapSharedData_new (rc_evm_providers cfg) (bp_id (rc_btc_provider cfg))
           (rc_bootstrap_config cfg))\<lparr>cccp_relay_queue_enabled := q\<rparr>"
    and "s_tasks svc = spawn_relayer_tasks cfg deps handlers onflight"
    and "socket_relay_handlers handlers = socket_targets (rc_handler_configs cfg)"
    and "socket_queue_pollers handlers = (if q then socket_targets (rc_handler_configs cfg) else [])"
    and "roundup_relay_handlers handlers = roundup_targets (rc_handler_configs cfg)"
    and "set (socket_targets (rc_handler_configs cfg)) \<subseteq> ep_id ` set (rc_evm_providers cfg)"
    and "set (map fst (event_managers deps)) = ep_id ` set (rc_evm_providers cfg)"
    and "distinct (map fst (event_managers deps))"
    and "\<exists>p \<in> set (rc_evm_providers cfg). provider_native p"
proof -
  let ?d = "BootstrapSharedData_new (rc_evm_providers cfg) (bp_id (rc_btc_provider cfg)) (rc_bootstrap_config cfg)"
  obtain cs deps handlers onflight d where r: "service_clients env cfg = Ok cs" "ManagerDeps_new cfg cs = Ok deps"
    "HandlerDeps_new env cfg deps ?d = Ok (handlers, onflight, d)" "s_shared svc = d"
    "s_tasks svc = spawn_relayer_tasks cfg deps handlers onflight"
    using assms by (auto simp: relay_def bind_res_Ok_iff Let_def split: if_splits)
  note keyed = service_clients_keyed(1) [OF r(1)]
  note m = ManagerDeps_new_ok [OF r(2) keyed]
  show thesis
  proof (rule HandlerDeps_new_ok [OF r(3)])
    fix q
    assume h: "sv_relay_queue env = Some q" "d = ?d\<lparr>cccp_relay_queue_enabled := q\<rparr>"
      "socket_relay_handlers handlers = socket_targets (rc_handler_configs cfg)"
      "socket_queue_pollers handlers = (if q then socket_targets (rc_handler_configs cfg) else [])"
      "roundup_relay_handlers handlers = roundup_targets (rc_handler_configs cfg)"
      "set (socket_targets (rc_handler_configs cfg)) \<subseteq> fst ` set (event_managers deps)"
    show thesis
      by (rule that [OF h(1) r(4) [unfolded h(2)] r(5) h(3-5)])
        (use h(6) m btree_inv_distinct [OF m(2)] in simp_all)
  qed
qed

section \<open>Chains nobody watches\<close>

text \<open>Only the relay handler of a chain brings it to normal operation.\<close>

lemma unwatched_step:
  assumes "boot_exec tp a s = Some t" and "c \<notin> set (tp_watch_list tp)" and "c \<noteq> tp_btc tp"
    and "chain_state s c = Some b" and "b \<noteq> NormalStart"
  shows "\<exists>b'. chain_state t c = Some b' \<and> b' \<noteq> NormalStart"
proof (cases a)
  case (EventManagerStep c')
  then show ?thesis using assms
    by (auto simp: event_manager_bootstrap_0_def set_bootstrap_state_def update_conv'
        split: manager_task.splits res.splits option.splits if_splits bool.splits)
next
  case (EmitterStep logs)
  then show ?thesis using assms
    by (auto simp: emitter_bootstrap_def map_of_set_all_except split: task.splits option.splits if_splits bool.splits)
next
  case RoundupStep
  then show ?thesis using assms
    by (auto simp: roundup_bootstrap_def map_of_set_all_except
        split: task.splits res.splits option.splits if_splits bool.splits)
next
  case (PollerStep c' logs)
  then show ?thesis using assms
    by (auto simp: poller_bootstrap_def set_bootstrap_state_def update_conv'
        split: task.splits res.splits option.splits if_splits bool.splits)
next
  case (RelayStep c')
  then show ?thesis using assms
    by (auto simp: relay_handler_bootstrap_def set_bootstrap_state_def update_conv'
        split: task.splits res.splits option.splits if_splits bool.splits)
next
  case BlockManagerStep0
  then show ?thesis using assms
    by (auto simp: block_manager_bootstrap_0_def set_bootstrap_state_def update_conv'
        split: manager_task.splits res.splits option.splits if_splits bool.splits)
next
  case BlockManagerStep
  then show ?thesis using assms
    by (auto simp: block_manager_bootstrap_def set_bootstrap_state_def update_conv'
        split: task.splits res.splits option.splits if_splits bool.splits)
next
  case OnflightStep
  then show ?thesis using assms
    by (auto simp: onflight_bootstrap_wait_def split: task.splits res.splits if_splits bool.splits)
qed (use assms in \<open>auto simp: wait_if_latest_round_def split: if_splits\<close>)

lemma unwatched_reachable:
  "boot_reachable tp s t \<Longrightarrow> c \<notin> set (tp_watch_list tp) \<Longrightarrow> c \<noteq> tp_btc tp \<Longrightarrow>
     chain_state s c = Some b \<Longrightarrow> b \<noteq> NormalStart \<Longrightarrow> \<exists>b'. chain_state t c = Some b' \<and> b' \<noteq> NormalStart"
proof (induction rule: boot_reachable.induct)
  case (boot_step s t a u)
  then obtain b' where "chain_state t c = Some b'" "b' \<noteq> NormalStart" by blast
  with unwatched_step [OF boot_step.hyps(2) boot_step.prems(1,2)] show ?case by blast
qed blast

lemma unwatched_blocks:
  assumes "wf_topology tp" and "is_enabled bc" and "c \<in> set (tp_evm tp)" and "c \<notin> set (tp_watch_list tp)"
    and "boot_reachable tp (boot_init tp (Some bc) q) t"
  shows "\<not> all_chains_bootstrapped (shared t)"
proof -
  have init: "chain_state (boot_init tp (Some bc) q) c = Some NodeSyncing"
    using assms(2,3) by (simp add: boot_init_def BootstrapSharedData_new_def map_of_new_states tp_evm_def)
  have "c \<noteq> tp_btc tp" using assms(1,3) by (auto simp: wf_topology_def)
  from unwatched_reachable [OF assms(5,4) this init] obtain b where "chain_state t c = Some b" "b \<noteq> NormalStart"
    by auto
  then show ?thesis
    by (auto simp: all_chains_bootstrapped_def list_all_iff dest!: map_of_SomeD)
qed


section \<open>Properties\<close>

lemma service_topology_wf:
  assumes "relay env cfg = Ok svc" and "distinct (map ep_id (rc_evm_providers cfg))"
    and "bp_id (rc_btc_provider cfg) \<notin> set (map ep_id (rc_evm_providers cfg))"
  shows "wf_topology (topology_of cfg)"
proof (rule relay_ok [OF assms(1)])
  assume watch: "set (socket_targets (rc_handler_configs cfg)) \<subseteq> ep_id ` set (rc_evm_providers cfg)"
    and "\<exists>p \<in> set (rc_evm_providers cfg). provider_native p"
  then have "filter provider_native (rc_evm_providers cfg) \<noteq> []" by (simp add: filter_empty_conv)
  then have "last (filter provider_native (rc_evm_providers cfg)) \<in> set (rc_evm_providers cfg)"
    using last_in_set by fastforce
  then show ?thesis
    using assms(2,3) watch by (auto simp: wf_topology_def topology_of_def tp_evm_def socket_targets_def)
qed

text \<open>
  C17: What start-up depends on. When the service starts on a configuration with distinct chains,
  one round-up handler and bootstrapping enabled, then the tasks it spawns are those of the
  bootstrap protocol, over the table of states the protocol starts from: one event manager per
  provider, a relay handler and, if the runtime has the relay queue, a poller per watched chain,
  one round-up handler, the round-up emitter and the block manager. Normal operation can be
  reached if and only if the socket handlers watch every configured chain, a condition that the
  checks at start-up do not ask for.
\<close>

theorem service_starts_up:
  assumes "relay env cfg = Ok svc" and "distinct (map ep_id (rc_evm_providers cfg))"
    and "bp_id (rc_btc_provider cfg) \<notin> set (map ep_id (rc_evm_providers cfg))"
    and "length (filter (\<lambda>h. handler_type h = RoundupHandler) (rc_handler_configs cfg)) = 1"
    and "rc_bootstrap_config cfg = Some bc" and "is_enabled bc"
  shows "\<exists>q tp. sv_relay_queue env = Some q \<and> tp = topology_of cfg \<and> wf_topology tp
    \<and> s_shared svc = shared (boot_init tp (Some bc) q)
    \<and> distinct (List.map_filter manager_chain (s_tasks svc))
    \<and> set (List.map_filter manager_chain (s_tasks svc)) = set (tp_evm tp)
    \<and> List.map_filter relay_chain (s_tasks svc) = tp_watch_list tp
    \<and> List.map_filter poller_chain (s_tasks svc) = (if q then tp_watch_list tp else [])
    \<and> length (List.map_filter roundup_chain (s_tasks svc)) = 1
    \<and> Roundup_emitter_task \<in> set (s_tasks svc) \<and> Block_manager_task \<in> set (s_tasks svc)
    \<and> ((\<exists>t. boot_reachable tp (boot_init tp (Some bc) q) t \<and> all_chains_bootstrapped (shared t))
        \<longleftrightarrow> set (tp_watch_list tp) = set (tp_evm tp))"
proof (rule relay_ok [OF assms(1)])
  fix q deps handlers onflight
  assume r: "sv_relay_queue env = Some q"
    "s_shared svc = (BootstrapSharedData_new (rc_evm_providers cfg) (bp_id (rc_btc_provider cfg))
       (rc_bootstrap_config cfg))\<lparr>cccp_relay_queue_enabled := q\<rparr>"
    "s_tasks svc = spawn_relayer_tasks cfg deps handlers onflight"
    "socket_relay_handlers handlers = socket_targets (rc_handler_configs cfg)"
    "socket_queue_pollers handlers = (if q then socket_targets (rc_handler_configs cfg) else [])"
    "roundup_relay_handlers handlers = roundup_targets (rc_handler_configs cfg)"
    "set (socket_targets (rc_handler_configs cfg)) \<subseteq> ep_id ` set (rc_evm_providers cfg)"
    "set (map fst (event_managers deps)) = ep_id ` set (rc_evm_providers cfg)"
    "distinct (map fst (event_managers deps))"
  let ?tp = "topology_of cfg"
  have tp: "tp_evm ?tp = map ep_id (rc_evm_providers cfg)"
    "tp_watch_list ?tp = socket_targets (rc_handler_configs cfg)"
    by (simp_all add: topology_of_def tp_evm_def socket_targets_def)
  note wf = service_topology_wf [OF assms(1-3)]
  have shared: "s_shared svc = shared (boot_init ?tp (Some bc) q)"
    using r(2) assms(5) by (simp add: boot_init_def topology_of_def)
  have iff: "(\<exists>t. boot_reachable ?tp (boot_init ?tp (Some bc) q) t \<and> all_chains_bootstrapped (shared t))
      \<longleftrightarrow> set (tp_watch_list ?tp) = set (tp_evm ?tp)" (is "?ends \<longleftrightarrow> ?all")
  proof
    assume ?all
    then show ?ends
      by (rule reaches_normal_start [OF started_inv [OF wf assms(6) boot_refl] wf])
  next
    assume ?ends
    then have "set (tp_evm ?tp) \<subseteq> set (tp_watch_list ?tp)"
      using unwatched_blocks [OF wf assms(6)] by blast
    then show ?all using wf by (auto simp: wf_topology_def)
  qed
  have tasks: "Roundup_emitter_task \<in> set (s_tasks svc)" "Block_manager_task \<in> set (s_tasks svc)"
    using r(3) by (simp_all add: spawn_defs)
  have roundup: "length (List.map_filter roundup_chain (s_tasks svc)) = 1"
    using assms(4) by (simp add: r(3,6) spawned_tasks roundup_targets_def)
  show ?thesis
    by (intro exI [of _ q] exI [of _ ?tp] conjI r(1) refl wf shared tasks roundup iff)
      (use r in \<open>simp_all add: spawned_tasks tp\<close>)
qed

lemmas ex_service_defs = ex_relayer_config_def ex_service_env_def ex_native_def ex_provider_def ex_boot_config_def

lemma ex_build_native:
  "\<exists>c. build_client ex_service_env ex_relayer_config ex_native a = Ok c \<and> signers c = [7]
     \<and> relayer_manager (protocol_contracts c) = Some 5 \<and> md_url (metadata c) = ''http''"
  by (simp add: build_client_def signer_address_def provider_native_def ProtocolContracts_new_def
      AggregatorContracts_new_def opt_contract_def native_contract_def ProviderMetadata_new_def Let_def ex_service_defs)

lemma ex_build_external:
  "\<exists>c. build_client ex_service_env ex_relayer_config (ex_provider 1 False) a = Ok c"
  by (simp add: build_client_def signer_address_def provider_native_def ProtocolContracts_new_def
      AggregatorContracts_new_def opt_contract_def native_contract_def ProviderMetadata_new_def Let_def ex_service_defs)

lemma ex_clients:
  "\<exists>b c. service_clients ex_service_env ex_relayer_config = Ok [(1, c), (3068, b)]"
proof -
  obtain b where b: "build_client ex_service_env ex_relayer_config ex_native 0 = Ok b"
    "signers b = [7]" "relayer_manager (protocol_contracts b) = Some 5"
    using ex_build_native [of 0] by blast
  obtain b' where b': "update_default_address (Ok [7]) None b = Ok b'"
    using b(2,3) by (simp add: update_default_address_def)
  obtain c where c: "build_client ex_service_env ex_relayer_config (ex_provider 1 False) (default_address b') = Ok c"
    using ex_build_external by blast
  have native: "provider_native ex_native" "\<not> provider_native (ex_provider 1 False)"
    "ep_id ex_native = 3068" "ep_id (ex_provider 1 False) = 1"
    by (simp_all add: provider_native_def ex_service_defs)
  have "rc_evm_providers ex_relayer_config = [ex_native, ex_provider 1 False]"
    "sv_selected_relayers ex_service_env 3068 = Ok [7]"
    by (simp_all add: ex_relayer_config_def ex_service_env_def)
  then show ?thesis
    by (simp add: service_clients_def b(1) b' c native btree_insert_def word_le_nat_alt)
qed

lemma ex_relay: "\<exists>svc. relay ex_service_env ex_relayer_config = Ok svc"
proof -
  obtain b c where cs: "service_clients ex_service_env ex_relayer_config = Ok [(1, c), (3068, b)]"
    using ex_clients by blast
  have keyed: "client_chain_id b = 3068" "client_chain_id c = 1"
    using service_clients_keyed(1) [OF cs] by (simp_all add: keyed_clients_def)
  have "provider_native ex_native" "\<not> provider_native (ex_provider 1 False)"
    "ep_id ex_native = 3068" "ep_id (ex_provider 1 False) = 1"
    by (simp_all add: provider_native_def ex_service_defs)
  then obtain deps where deps: "ManagerDeps_new ex_relayer_config [(1, c), (3068, b)] = Ok deps"
    "map fst (event_managers deps) = [1, 3068]" "clients deps = [(1, c), (3068, b)]"
    by (simp add: ManagerDeps_new_def ex_relayer_config_def keyed btree_insert_def word_le_nat_alt)
  then obtain e1 e2 where ems: "event_managers deps = [(1, e1), (3068, e2)]"
    by (auto simp: map_eq_Cons_conv)
  have "\<exists>r. HandlerDeps_new ex_service_env ex_relayer_config deps d = Ok r" for d
    by (simp add: HandlerDeps_new_def ex_relayer_config_def ex_service_env_def add_socket_handler_def
        add_roundup_handler_def vec_index_def ems deps(3)) blast
  moreover have "assert_configuration_validity (rc_bootstrap_config ex_relayer_config)
      (rc_evm_providers ex_relayer_config) = Ok ()"
    by (simp add: assert_configuration_validity_def assert_bootstrap_config_def assert_evm_provider_def
        rust_assert_def config_consts ex_service_defs word_le_nat_alt)
  moreover have "\<exists>r. BtcDeps_new ex_service_env ex_relayer_config = Ok r"
    by (simp add: BtcDeps_new_def ex_relayer_config_def ex_service_env_def)
  moreover have "sv_task_manager ex_service_env = Ok ()" "sv_sub_client ex_service_env url"
    "sv_network ex_service_env n = Some Bitcoin_network" for url n
    by (simp_all add: ex_service_env_def)
  ultimately show ?thesis
    by (auto simp: relay_def cs deps(1) bind_res_Ok_iff Let_def)
qed

theorem service_starts_up_witness:
  "\<exists>svc t. relay ex_service_env ex_relayer_config = Ok svc
     \<and> List.map_filter relay_chain (s_tasks svc) = [3068, 1]
     \<and> boot_reachable (topology_of ex_relayer_config) (boot_init (topology_of ex_relayer_config) (Some ex_boot_config) True) t
     \<and> all_chains_bootstrapped (shared t)"
proof -
  obtain svc where svc: "relay ex_service_env ex_relayer_config = Ok svc"
    using ex_relay by blast
  have "distinct (map ep_id (rc_evm_providers ex_relayer_config))"
    "bp_id (rc_btc_provider ex_relayer_config) \<notin> set (map ep_id (rc_evm_providers ex_relayer_config))"
    "length (filter (\<lambda>h. handler_type h = RoundupHandler) (rc_handler_configs ex_relayer_config)) = 1"
    "rc_bootstrap_config ex_relayer_config = Some ex_boot_config" "is_enabled ex_boot_config"
    by (simp_all add: ex_service_defs)
  note up = service_starts_up [OF svc this]
  have "sv_relay_queue ex_service_env = Some True" by (simp add: ex_service_env_def)
  moreover have "tp_watch_list (topology_of ex_relayer_config) = [3068, 1]"
    "set (tp_watch_list (topology_of ex_relayer_config)) = set (tp_evm (topology_of ex_relayer_config))"
    by (simp_all add: topology_of_def tp_evm_def ex_service_defs)
  ultimately show ?thesis using up svc by auto
qed

end
