(* ===== verification/Event_Path.thy ===== *)
theory Event_Path
  imports Event_Manager Socket_Pending
begin

text \<open>
  The path of a socket event from the chain to its relay: the event manager reads the blocks and
  broadcasts their logs (\<open>client/src/eth/events.rs\<close>), the relay handler of the chain receives the
  messages and relays their logs or pools them, and its timer works the pool off
  (\<open>client/src/eth/handlers/socket_relay_handler.rs\<close>).
\<close>

section \<open>The arms of the loop, repeated\<close>

text \<open>The messages of the stream one after the other; a panic ends the task.\<close>

fun relay_messages ::
    "RelayEnv \<Rightarrow> EventMessage list \<Rightarrow> PendingEvent list \<Rightarrow> PendingEvent list \<times> (effect, unit) eff" where
  "relay_messages env [] pool = (pool, ret ())"
| "relay_messages env (m # ms) pool =
     (case on_event_message env m pool of
        (p, fs, Panic) \<Rightarrow> (p, fs, Panic)
      | (p, fs, _) \<Rightarrow> (case relay_messages env ms p of (p', gs, r) \<Rightarrow> (p', fs @ gs, r)))"

text \<open>
  Ticks of the timer one after the other, each with what the node answers then. An error is logged
  and the loop goes on; \<open>None\<close> is a task that panicked.
\<close>

fun relay_ticks :: "RelayEnv list \<Rightarrow> PendingEvent list \<Rightarrow> (PendingEvent list \<times> effect list) option" where
  "relay_ticks [] pool = Some (pool, [])"
| "relay_ticks (env # envs) pool =
     (case process_confirmed_pending_events env pool of
        (p, fs, Panic) \<Rightarrow> None
      | (p, fs, _) \<Rightarrow> map_option (\<lambda>(p', gs). (p', fs @ gs)) (relay_ticks envs p))"

definition is_target :: "RelayEnv \<Rightarrow> Log \<Rightarrow> bool" where
  "is_target env l \<longleftrightarrow> is_target_contract env l \<and> is_target_event env (topic0 l)"

definition is_immediate :: "RelayEnv \<Rightarrow> Log \<Rightarrow> bool" where
  "is_immediate env l \<longleftrightarrow> should_process_immediately env l = Ok (Some True)"

definition pending_entry :: "u64 \<Rightarrow> Log \<Rightarrow> PendingEvent" where
  "pending_entry b l = \<lparr>pe_log = l, pe_block_number = b, absent_checks = 0\<rparr>"

lemma pending_entry_simps [simp]:
  "pe_log (pending_entry b l) = l" "pe_block_number (pending_entry b l) = b" "absent_checks (pending_entry b l) = 0"
  by (simp_all add: pending_entry_def)

section \<open>What a message leaves behind\<close>

text \<open>
  A message that does not panic is accounted for completely: its immediate logs are relayed in
  order, its other target logs are appended to the pool in order, and the rest is ignored.
\<close>

lemma on_event_logs_accounted:
  "snd (snd (on_event_logs env b ls pool)) \<noteq> Panic \<Longrightarrow>
   on_event_logs env b ls pool =
     (pool @ map (pending_entry b) (filter (\<lambda>l. is_target env l \<and> \<not> is_immediate env l) ls),
      concat (map (\<lambda>l. fst (process_confirmed_log env l False))
        (filter (\<lambda>l. is_target env l \<and> is_immediate env l) ls)), Ok ())"
proof (induction ls arbitrary: pool)
  case Nil
  then show ?case by (simp add: ret_def)
next
  case (Cons l ls)
  show ?case
  proof (cases "is_target env l")
    case False
    then show ?thesis using Cons by (auto simp: is_target_def)
  next
    case target: True
    show ?thesis
    proof (cases "is_immediate env l")
      case True
      obtain fs r where p: "log_err (process_confirmed_log env l False) = (fs, r)"
        by (cases "log_err (process_confirmed_log env l False)")
      have "r \<noteq> Err x" for x using log_err_not_Err [of "process_confirmed_log env l False"] p by simp
      then have r: "r = Ok ()"
        using Cons.prems target True p by (cases r) (auto simp: is_target_def is_immediate_def)
      have fs: "fst (process_confirmed_log env l False) = fs"
        using fst_log_err [of "process_confirmed_log env l False"] p by simp
      have "snd (snd (on_event_logs env b ls pool)) \<noteq> Panic"
        using Cons.prems target True p r
        by (auto simp: is_target_def is_immediate_def split: prod.splits)
      from Cons.IH [OF this] show ?thesis
        using target True p r fs by (simp add: is_target_def is_immediate_def)
    next
      case False
      then have "on_event_logs env b (l # ls) pool = on_event_logs env b ls (pool @ [pending_entry b l])"
        using Cons.prems target
        by (auto simp: is_target_def is_immediate_def pending_entry_def lift_def
            split: res.splits option.splits bool.splits)
      moreover from this have "snd (snd (on_event_logs env b ls (pool @ [pending_entry b l]))) \<noteq> Panic"
        using Cons.prems by simp
      ultimately show ?thesis
        using Cons.IH [of "pool @ [pending_entry b l]"] target False by simp
    qed
  qed
qed

lemma relay_messages_accounted:
  "snd (snd (relay_messages env ms pool)) \<noteq> Panic \<Longrightarrow>
   relay_messages env ms pool =
     (pool @ concat (map (\<lambda>m. map (pending_entry (ev_block_number m))
        (filter (\<lambda>l. is_target env l \<and> \<not> is_immediate env l) (event_logs m))) ms),
      concat (map (\<lambda>l. fst (process_confirmed_log env l False))
        (filter (\<lambda>l. is_target env l \<and> is_immediate env l) (concat (map event_logs ms)))), Ok ())"
proof (induction ms arbitrary: pool)
  case Nil
  then show ?case by (simp add: ret_def)
next
  case (Cons m ms)
  have "snd (snd (on_event_logs env (ev_block_number m) (event_logs m) pool)) \<noteq> Panic"
    using Cons.prems by (auto simp: on_event_message_def split: prod.splits)
  note m = on_event_logs_accounted [OF this]
  have "snd (snd (relay_messages env ms (fst (on_event_message env m pool)))) \<noteq> Panic"
    using Cons.prems m by (auto simp: on_event_message_def split: prod.splits)
  from Cons.IH [OF this] show ?case
    using m by (simp add: on_event_message_def)
qed

section \<open>What the ticks leave behind\<close>

lemma pass_error_keeps:
  assumes "\<And>latest. r_block_number env \<noteq> Ok latest"
  shows "fst (process_confirmed_pending_events env pool) = pool"
  using assms by (auto simp: process_confirmed_pending_events_def split: res.splits)

text \<open>
  An entry that the node misses fewer than five times in all is relayed by one of the ticks or still
  in the pool, under whatever block a reorganisation moved it to.
\<close>

lemma pooled_event_survives:
  assumes "relay_ticks envs pool = Some (pool', fs)" and "e \<in> set pool"
    and "unat (absent_checks e) + length (filter (\<lambda>env. verify_event_on_chain env e = Ok None) envs) < 5"
  shows "(\<exists>env \<in> set envs. set (fst (process_confirmed_log env (pe_log e) False)) \<subseteq> set fs
        \<and> (\<exists>b latest. r_block_number env = Ok latest \<and> verify_event_on_chain env e = Ok (Some b)
            \<and> block_confirmations (metadata (r_client env)) \<le> saturating_sub latest b))
    \<or> (\<exists>e' \<in> set pool'. pe_log e' = pe_log e)"
  using assms
proof (induction envs arbitrary: pool e fs)
  case Nil
  then show ?case by auto
next
  case (Cons env envs)
  obtain p gs r where pass: "process_confirmed_pending_events env pool = (p, gs, r)" and "r \<noteq> Panic"
    and rest: "\<exists>hs. relay_ticks envs p = Some (pool', hs) \<and> fs = gs @ hs"
    using Cons.prems(1)
    by (cases "process_confirmed_pending_events env pool") (auto split: res.splits)
  then obtain hs where hs: "relay_ticks envs p = Some (pool', hs)" "fs = gs @ hs" by blast
  have step: ?case if e1: "e1 \<in> set p" "pe_log e1 = pe_log e"
    and "unat (absent_checks e1) \<le> unat (absent_checks e) + (if verify_event_on_chain env e = Ok None then 1 else 0)"
    for e1
  proof -
    have same: "verify_event_on_chain env' e1 = verify_event_on_chain env' e" for env'
      by (rule verify_event_log [OF e1(2)])
    have "unat (absent_checks e1) + length (filter (\<lambda>env. verify_event_on_chain env e1 = Ok None) envs) < 5"
      using that(3) Cons.prems(3) by (auto simp: same split: if_splits)
    from Cons.IH [OF hs(1) e1(1) this] show ?thesis
      using e1(2) hs(2) same by fastforce
  qed
  show ?case
  proof (cases "\<exists>latest. r_block_number env = Ok latest")
    case False
    then have "p = pool" using pass_error_keeps [of env pool] pass by simp
    with step [of e] Cons.prems(2) show ?thesis by simp
  next
    case True
    then obtain latest where latest: "r_block_number env = Ok latest" by blast
    have eq: "p = sweep_pending env latest pool"
      "gs = concat (map (\<lambda>e. fst (process_confirmed_log env (pe_log e) False))
         (filter (\<lambda>e. is_confirmed env latest e
            \<and> verify_event_on_chain env e = Ok (Some (pe_block_number e))) pool))"
      using process_confirmed_pending_events_eq [OF latest, of pool] pass \<open>r \<noteq> Panic\<close> by simp_all
    show ?thesis
    proof (cases "decide_event env latest e")
      case None
      from decide_event_None [OF this] Cons.prems(3)
      have "is_confirmed env latest e" "verify_event_on_chain env e = Ok (Some (pe_block_number e))"
        by auto
      with Cons.prems(2) latest eq(2) hs(2) show ?thesis
        by (intro disjI1 bexI [of _ env]) (auto simp: is_confirmed_def)
    next
      case (Some e1)
      then have "e1 \<in> set p"
        using Cons.prems(2) by (auto simp: eq(1) pending_events.mem_sweep_iff)
      with step [of e1] decide_event_log [OF Some] decide_event_absent [OF Some] show ?thesis by simp
    qed
  qed
qed

section \<open>From the chain to the relay\<close>


lemma ex_waiting_messages:
  assumes "\<And>m l. m \<in> set ms \<Longrightarrow> l \<in> set (event_logs m) \<Longrightarrow> l = ex_log 11 1"
  shows "\<exists>p. relay_messages ex_relay_env ms pool = (p, [], Ok ())"
proof -
  have "on_event_logs ex_relay_env b ls pool
      = (pool @ map (pending_entry b) ls, [], Ok ())" if "set ls \<subseteq> {ex_log 11 1}" for b ls pool
    using that
    by (induction ls arbitrary: pool)
      (simp_all add: is_target_contract_def is_target_event_def topic0_def pending_entry_def
        should_process_immediately_def ex_relay_simps ret_def)
  then have one: "on_event_message ex_relay_env m pool
      = (pool @ map (pending_entry (ev_block_number m)) (event_logs m), [], Ok ())"
    if "\<And>l. l \<in> set (event_logs m) \<Longrightarrow> l = ex_log 11 1" for m pool
    using that by (auto simp: on_event_message_def)
  show ?thesis
    using assms
  proof (induction ms arbitrary: pool)
    case (Cons m ms)
    let ?p = "pool @ map (pending_entry (ev_block_number m)) (event_logs m)"
    have "\<exists>p. relay_messages ex_relay_env ms ?p = (p, [], Ok ())" by (rule Cons.IH) (rule Cons.prems, auto)
    moreover have "on_event_message ex_relay_env m pool = (?p, [], Ok ())"
      by (rule one) (rule Cons.prems, auto)
    ultimately show ?case by auto
  qed (simp add: ret_def)
qed

definition ex_path_manager :: EventManager where
  "ex_path_manager = \<lparr>em_client = ex_client 3068 True, waiting_block = 5, is_balance_sync_enabled = False\<rparr>"


text \<open>
  A batch of several blocks is announced under its first block. An event of a later block is recorded
  there too, so the first tick that finds it confirmed by that count takes it for moved by a
  reorganisation: it is not relayed but re-dated to the block it has been in all along.
\<close>

lemma batched_event_redated:
  assumes "l \<in> set (event_logs m)" and "is_target env l" and "\<not> is_immediate env l"
    and "snd (snd (on_event_message env m pool)) \<noteq> Panic"
    and "verify_event_on_chain env (pending_entry 0 l) = Ok (Some mined)" and "mined \<noteq> ev_block_number m"
    and "block_confirmations (metadata (r_client env)) \<le> saturating_sub latest (ev_block_number m)"
  shows "pending_entry (ev_block_number m) l \<in> set (fst (on_event_message env m pool))
    \<and> decide_event env latest (pending_entry (ev_block_number m) l) = Some (pending_entry mined l)"
proof
  show "pending_entry (ev_block_number m) l \<in> set (fst (on_event_message env m pool))"
    using on_event_logs_accounted [of env "ev_block_number m" "event_logs m" pool] assms(1-4)
    by (simp add: on_event_message_def)
  have "verify_event_on_chain env (pending_entry (ev_block_number m) l) = Ok (Some mined)"
    using assms(5) verify_event_log [of "pending_entry (ev_block_number m) l" "pending_entry 0 l" env] by simp
  then show "decide_event env latest (pending_entry (ev_block_number m) l) = Some (pending_entry mined l)"
    using assms(6,7) by (simp add: decide_event_def is_confirmed_def pending_entry_def)
qed

end
