(* ===== verification/Onflight_Run.thy ===== *)
theory Onflight_Run
  imports Socket_Onflight
begin

text \<open>
  A whole run of the socket on-flight handler (\<open>new\<close> and \<open>run\<close> in
  \<open>client/src/eth/handlers/socket_onflight_handler.rs\<close>): recovery, then the best blocks of the Bifrost
  chain one by one. Every block comes with its own observations of the chains, so that queries may
  fail in one block and succeed in the next.
\<close>

section \<open>The loop\<close>

text \<open>\<open>rpc\<close> is the outcome of connecting to the node.\<close>

definition SocketOnflightHandler_new :: "unit res \<Rightarrow> OnflightState res" where
  "SocketOnflightHandler_new rpc =
     bind_res rpc (\<lambda>_. Ok \<lparr>pending_standard_transfers = [], processed_transfers = {}\<rparr>)"

text \<open>An error while processing a block is logged; the first error of the stream ends the loop.\<close>

fun onflight_loop ::
    "OnflightEnv option list \<Rightarrow> OnflightState \<Rightarrow> OnflightState \<times> (onflight_effect, unit) eff" where
  "onflight_loop [] st = (st, [], Ok ())"
| "onflight_loop (None # blocks) st = (st, [], Ok ())"
| "onflight_loop (Some env # blocks) st =
     (case process_substrate_block env st of
        (st1, fs, Panic) \<Rightarrow> (st1, fs, Panic)
      | (st1, fs, _) \<Rightarrow> (case onflight_loop blocks st1 of (st2, gs, r) \<Rightarrow> (st2, fs @ gs, r)))"

definition onflight_run ::
    "OnflightEnv \<Rightarrow> OnflightEnv option list res \<Rightarrow> OnflightState \<Rightarrow> OnflightState \<times> (onflight_effect, unit) eff" where
  "onflight_run boot sub_block_stream st =
     (let st1 = onflight_bootstrap boot st
      in case sub_block_stream of
           Ok blocks \<Rightarrow> onflight_loop blocks st1
         | Err e \<Rightarrow> (st1, [], Err e)
         | Panic \<Rightarrow> (st1, [], Panic))"

section \<open>One transfer in a run\<close>

definition handovers :: "Socket_Message \<Rightarrow> onflight_effect list \<Rightarrow> nat" where
  "handovers msg fs = length (filter (\<lambda>f. case f of SendOnflight _ om \<Rightarrow> om_socket_message om = msg) fs)"

lemma handovers_simps [simp]:
  "handovers msg [] = 0" "handovers msg (fs @ gs) = handovers msg fs + handovers msg gs"
  by (simp_all add: handovers_def)

text \<open>
  A transfer that stays in the queue. Queries may fail, but those that succeed agree: the listing has
  every entry under its own hash, the transfer is the only entry with its message, its source
  transaction is in block \<open>b\<close>, and the relay handler it is meant for can be reached.
\<close>

definition observes :: "OnflightEnv \<Rightarrow> TransferInfo \<Rightarrow> Socket_Message \<Rightarrow> b256 \<Rightarrow> u64 \<Rightarrow> bool" where
  "observes env ti msg h b \<longleftrightarrow>
     o_keccak256 env (ti_socket_message ti) = h
     \<and> decode_socket_message env (ti_socket_message ti) = Some msg
     \<and> (\<exists>c. src_client env (ucast (ti_src_chain_id ti)) = Some c
          \<and> o_receipt env (client_chain_id c) (ti_src_tx_id ti) \<in> {None, Some (Some (Some b))})
     \<and> (\<forall>items. o_storage env = Some items \<longrightarrow> (\<exists>tis. items = map Some tis \<and> ti \<in> set tis
          \<and> distinct (map (\<lambda>ti. o_keccak256 env (ti_socket_message ti)) tis)
          \<and> (\<forall>ti' \<in> set tis. ti' \<noteq> ti \<longrightarrow> decode_socket_message env (ti_socket_message ti') \<noteq> Some msg)))
     \<and> o_senders env (if ucast (ti_src_chain_id ti) = client_chain_id (o_bifrost_client env)
                      then ucast (ti_src_chain_id ti) else dst_chain_id msg) = Some True"

text \<open>In this block both the listing and the receipt were answered.\<close>

definition answered :: "OnflightEnv \<Rightarrow> TransferInfo \<Rightarrow> bool" where
  "answered env ti \<longleftrightarrow> o_storage env \<noteq> None
     \<and> get_tx_block_number env (ucast (ti_src_chain_id ti)) (ti_src_tx_id ti) \<noteq> None"

definition confirmed_at :: "OnflightEnv \<Rightarrow> TransferInfo \<Rightarrow> u64 \<Rightarrow> bool" where
  "confirmed_at env ti b \<longleftrightarrow>
     (\<exists>height. get_src_chain_block_number env (ucast (ti_src_chain_id ti)) = Some height
       \<and> get_block_confirmations env (ucast (ti_src_chain_id ti)) \<le> saturating_sub height b)"

text \<open>Where the transfer is: not seen yet, held until it is confirmed, or handed over.\<close>

datatype phase = Unseen | Held | Handed

definition transfer_of :: "TransferInfo \<Rightarrow> Socket_Message \<Rightarrow> b256 \<Rightarrow> u64 \<Rightarrow> PendingStandardTransfer" where
  "transfer_of ti msg h b =
     \<lparr>pst_socket_message = msg, pst_asset_index_hash = tokenIDX0 (params msg),
      pst_sequence_id = sequence (req_id msg), pst_src_chain_id = ucast (ti_src_chain_id ti),
      pst_dst_chain_id = dst_chain_id msg, pst_src_tx_id = ti_src_tx_id ti,
      pst_src_block_number = b, pst_msg_hash = h\<rparr>"

definition in_phase :: "PendingStandardTransfer \<Rightarrow> phase \<Rightarrow> OnflightState \<Rightarrow> bool" where
  "in_phase t p st \<longleftrightarrow>
     (\<forall>u \<in> set (pending_standard_transfers st). pst_socket_message u = pst_socket_message t \<longrightarrow> pst_msg_hash u = pst_msg_hash t)
     \<and> filter (\<lambda>u. pst_msg_hash u = pst_msg_hash t) (pending_standard_transfers st) = (if p = Held then [t] else [])
     \<and> (pst_msg_hash t \<in> processed_transfers st \<longleftrightarrow> p \<noteq> Unseen)"

lemma in_phase_new: "SocketOnflightHandler_new rpc = Ok st \<Longrightarrow> in_phase t Unseen st"
  by (auto simp: SocketOnflightHandler_new_def bind_res_Ok_iff in_phase_def)

lemma transfer_of_fields [simp]:
  "pst_msg_hash (transfer_of ti msg h b) = h" "pst_socket_message (transfer_of ti msg h b) = msg"
  "pst_src_block_number (transfer_of ti msg h b) = b" "pst_src_tx_id (transfer_of ti msg h b) = ti_src_tx_id ti"
  "pst_src_chain_id (transfer_of ti msg h b) = ucast (ti_src_chain_id ti)"
  by (simp_all add: transfer_of_def)

lemma ti_pending_message [simp]: "pst_socket_message (ti_pending env ti msg b) = msg"
  by (simp add: ti_pending_def)

lemma handovers_send:
  "handovers msg (send_to_socket_relay_handler env src dst msg' a sq) \<le> (if msg' = msg then 1 else 0)"
  by (simp add: handovers_def send_to_socket_relay_handler_def Let_def split: option.split bool.split)

lemma handovers_send_other [simp]:
  "msg' \<noteq> msg \<Longrightarrow> handovers msg (send_to_socket_relay_handler env src dst msg' a sq) = 0"
  using handovers_send [of msg env src dst msg' a sq] by simp

lemma observed_send:
  "observes env ti msg h b \<Longrightarrow>
     handovers msg (send_to_socket_relay_handler env (ucast (ti_src_chain_id ti)) (dst_chain_id msg) msg a sq) = 1"
  by (simp add: observes_def handovers_def send_to_socket_relay_handler_def Let_def)

lemma observed_ti_pending:
  "observes env ti msg h b \<Longrightarrow> ti_pending env ti msg b = transfer_of ti msg h b"
  by (simp add: observes_def ti_pending_def transfer_of_def)

lemma observed_block:
  assumes "observes env ti msg h b"
  shows "get_tx_block_number env (ucast (ti_src_chain_id ti)) (ti_src_tx_id ti) = None
      \<or> get_tx_block_number env (ucast (ti_src_chain_id ti)) (ti_src_tx_id ti) = Some (Some b)"
  using assms by (auto simp: observes_def get_tx_block_number_def)

section \<open>What a block does with it\<close>

text \<open>The scan of a listing without failures, item by item.\<close>

fun scan_all :: "OnflightEnv \<Rightarrow> TransferInfo list \<Rightarrow> OnflightState \<Rightarrow> OnflightState \<times> onflight_effect list" where
  "scan_all env [] st = (st, [])"
| "scan_all env (ti # tis) st =
     (case scan_item env ti st of (st1, fs) \<Rightarrow> case scan_all env tis st1 of (st2, gs) \<Rightarrow> (st2, fs @ gs))"

lemma scan_transfers_all:
  "scan_transfers env (map Some tis) st keys =
     (fst (scan_all env tis st), snd (scan_all env tis st),
      Ok (keys \<union> (\<lambda>ti. o_keccak256 env (ti_socket_message ti)) ` set tis))"
proof (induction tis arbitrary: st keys)
  case (Cons ti tis)
  then show ?case
    by (simp add: scan_transfers_Cons Un_insert_left split: prod.split del: scan_transfers.simps)
qed (simp add: ret_def)

lemma scan_other:
  assumes "in_phase t p st" and "o_keccak256 env (ti_socket_message ti') \<noteq> pst_msg_hash t"
    and "decode_socket_message env (ti_socket_message ti') \<noteq> Some (pst_socket_message t)"
  shows "in_phase t p (fst (scan_item env ti' st)) \<and> handovers (pst_socket_message t) (snd (scan_item env ti' st)) = 0"
  using assms by (auto simp: scan_item_def in_phase_def Let_def split: option.split)

text \<open>Recovery picks up what is held back; a scan hands over the fast transfers as well.\<close>

definition picked_up :: "OnflightEnv \<Rightarrow> TransferInfo \<Rightarrow> phase \<Rightarrow> phase" where
  "picked_up env ti p =
     (if p \<noteq> Unseen then p
      else if ti_option ti = Fast then Handed
      else if get_tx_block_number env (ucast (ti_src_chain_id ti)) (ti_src_tx_id ti) = None then Unseen else Held)"

abbreviation gained :: "phase \<Rightarrow> phase \<Rightarrow> nat" where
  "gained p q \<equiv> (if p \<noteq> Handed \<and> q = Handed then 1 else 0)"

lemma scan_own:
  assumes "observes env ti msg h b" and "in_phase (transfer_of ti msg h b) p st"
  shows "in_phase (transfer_of ti msg h b) (picked_up env ti p) (fst (scan_item env ti st))
    \<and> handovers msg (snd (scan_item env ti st)) = gained p (picked_up env ti p)"
proof -
  have hash: "o_keccak256 env (ti_socket_message ti) = h" and msg: "decode_socket_message env (ti_socket_message ti) = Some msg"
    using assms(1) by (simp_all add: observes_def)
  note send = observed_send [OF assms(1)]
  show ?thesis
    using observed_block [OF assms(1)]
    by (rule disjE; insert assms(2); cases p)
      (auto simp: scan_item_def in_phase_def picked_up_def hash msg send observed_ti_pending [OF assms(1)] Let_def)
qed

lemma scan_phase:
  assumes "observes env ti msg h b" and "distinct (map (\<lambda>ti. o_keccak256 env (ti_socket_message ti)) tis)"
    and "\<And>ti'. ti' \<in> set tis \<Longrightarrow> ti' \<noteq> ti \<Longrightarrow> o_keccak256 env (ti_socket_message ti') \<noteq> h
        \<and> decode_socket_message env (ti_socket_message ti') \<noteq> Some msg"
    and "in_phase (transfer_of ti msg h b) p st"
  shows "let q = if ti \<in> set tis then picked_up env ti p else p
    in in_phase (transfer_of ti msg h b) q (fst (scan_all env tis st)) \<and> handovers msg (snd (scan_all env tis st)) = gained p q"
  using assms(2-4)
proof (induction tis arbitrary: p st)
  case (Cons ti' tis)
  let ?t = "transfer_of ti msg h b"
  obtain st1 fs where s: "scan_item env ti' st = (st1, fs)" by fastforce
  obtain st2 gs where s2: "scan_all env tis st1 = (st2, gs)" by fastforce
  show ?case
  proof (cases "ti' = ti")
    case True
    then have rest: "ti \<notin> set tis" using Cons.prems(1) by auto
    have own: "in_phase ?t (picked_up env ti p) st1" "handovers msg fs = gained p (picked_up env ti p)"
      using scan_own [OF assms(1) Cons.prems(3)] s True by simp_all
    with Cons.IH [OF _ _ own(1)] Cons.prems(1,2) rest s s2 True show ?thesis
      by (simp add: Let_def)
  next
    case False
    have other: "in_phase ?t p st1" "handovers msg fs = 0"
      using scan_other [OF Cons.prems(3), of env ti'] Cons.prems(2) [of ti'] False s by simp_all
    with Cons.IH [OF _ _ other(1)] Cons.prems(1,2) s s2 False show ?thesis
      by (auto simp: Let_def)
  qed
qed simp

text \<open>The pass hands over a held transfer once it is confirmed, and leaves the phase alone otherwise.\<close>

definition matured :: "OnflightEnv \<Rightarrow> TransferInfo \<Rightarrow> u64 \<Rightarrow> phase \<Rightarrow> phase" where
  "matured env ti b p =
     (if p = Held \<and> confirmed_at env ti b
        \<and> get_tx_block_number env (ucast (ti_src_chain_id ti)) (ti_src_tx_id ti) \<noteq> None then Handed else p)"

lemma observed_verdict:
  assumes "observes env ti msg h b"
  shows "transfer_verdict env (transfer_of ti msg h b) =
    (if confirmed_at env ti b \<and> get_tx_block_number env (ucast (ti_src_chain_id ti)) (ti_src_tx_id ti) \<noteq> None
     then Some (Valid (Some b)) else None)"
  using assms
  by (auto simp: observes_def transfer_verdict_def confirmed_at_def verify_src_transaction_def get_tx_block_number_def
      split: option.split)

lemma filter_map_filter:
  assumes "\<And>u u'. u \<in> set us \<Longrightarrow> f u = Some u' \<Longrightarrow> P u' = P u"
  shows "filter P (List.map_filter f us) = List.map_filter f (filter P us)"
  using assms
proof (induction us)
  case (Cons u us)
  have IH: "filter P (List.map_filter f us) = List.map_filter f (filter P us)"
    using Cons.prems by (intro Cons.IH) simp
  show ?case
  proof (cases "f u")
    case (Some u')
    then have "P u' = P u" using Cons.prems by simp
    with IH Some show ?thesis by (simp add: map_filter_simps)
  qed (simp add: map_filter_simps IH)
qed (simp add: map_filter_simps)

lemma handovers_concat: "handovers msg (concat fss) = sum_list (map (handovers msg) fss)"
  by (induction fss) simp_all

lemma decide_transfer_message:
  "decide_transfer env t = Some t' \<Longrightarrow> pst_socket_message t' = pst_socket_message t"
  by (auto simp: decide_transfer_def split: if_splits option.splits TxVerificationResult.splits)

lemma handovers_deliver_other:
  "pst_socket_message t \<noteq> msg \<Longrightarrow> handovers msg (deliver_transfer env t) = 0"
  by (simp add: deliver_transfer_def)

lemma sum_list_filter_zero:
  "(\<And>u. u \<in> set us \<Longrightarrow> \<not> P u \<Longrightarrow> g u = (0 :: nat)) \<Longrightarrow> sum_list (map g us) = sum_list (map g (filter P us))"
  by (induction us) auto

lemma pass_handovers:
  assumes "in_phase t p st"
  shows "handovers (pst_socket_message t) (snd (process_pending_standard_transfers env st))
    = (if p = Held \<and> transfer_ready env t then handovers (pst_socket_message t) (deliver_transfer env t) else 0)"
proof -
  let ?g = "\<lambda>u. handovers (pst_socket_message t) (deliver_transfer env u)"
  let ?us = "filter (transfer_ready env) (pending_standard_transfers st)"
  have own: "filter (\<lambda>u. pst_msg_hash u = pst_msg_hash t) ?us = filter (transfer_ready env) (if p = Held then [t] else [])"
  proof -
    have "filter (\<lambda>u. pst_msg_hash u = pst_msg_hash t) ?us
        = filter (transfer_ready env) (filter (\<lambda>u. pst_msg_hash u = pst_msg_hash t) (pending_standard_transfers st))"
      by (simp only: filter_filter conj_commute)
    also have "\<dots> = filter (transfer_ready env) (if p = Held then [t] else [])"
      using assms by (simp only: in_phase_def)
    finally show ?thesis .
  qed
  have "?g u = 0" if "u \<in> set ?us" "pst_msg_hash u \<noteq> pst_msg_hash t" for u
    using that assms by (intro handovers_deliver_other) (auto simp: in_phase_def)
  then have "sum_list (map ?g ?us) = sum_list (map ?g (filter (\<lambda>u. pst_msg_hash u = pst_msg_hash t) ?us))"
    by (rule sum_list_filter_zero)
  then have "sum_list (map ?g ?us) = (if p = Held \<and> transfer_ready env t then ?g t else 0)"
    unfolding own by simp
  then show ?thesis
    by (simp add: process_pending_standard_transfers_eq handovers_concat comp_def)
qed

lemma pass_phase:
  assumes "observes env ti msg h b" and "in_phase (transfer_of ti msg h b) p st"
  shows "in_phase (transfer_of ti msg h b) (matured env ti b p) (fst (process_pending_standard_transfers env st))
    \<and> handovers msg (snd (process_pending_standard_transfers env st)) = gained p (matured env ti b p)"
proof
  let ?t = "transfer_of ti msg h b"
  let ?due = "confirmed_at env ti b \<and> get_tx_block_number env (ucast (ti_src_chain_id ti)) (ti_src_tx_id ti) \<noteq> None"
  let ?p = "pending_standard_transfers st"
  note v = observed_verdict [OF assms(1)]
  have ready: "transfer_ready env ?t = ?due" and gone: "\<not> transfer_gone env ?t"
    by (simp_all add: transfer_ready_def transfer_gone_def v)
  have decide: "decide_transfer env ?t = (if ?due then None else Some ?t)"
    using gone by (simp add: decide_transfer_def ready v)
  have "handovers msg (deliver_transfer env ?t) = 1"
    unfolding deliver_transfer_def transfer_of_def using observed_send [OF assms(1)] by simp
  then show "handovers msg (snd (process_pending_standard_transfers env st)) = gained p (matured env ti b p)"
    using pass_handovers [OF assms(2), of env] ready by (auto simp: matured_def)
  have own: "filter (\<lambda>u. pst_msg_hash u = h) ?p = (if p = Held then [?t] else [])"
    using assms(2) by (simp add: in_phase_def)
  have pool: "filter (\<lambda>u. pst_msg_hash u = h) (List.map_filter (decide_transfer env) ?p)
      = (if matured env ti b p = Held then [?t] else [])"
    by (subst filter_map_filter) (auto simp: decide_transfer_hash own List.map_filter_def decide matured_def)
  have "\<not> transfer_gone env u" if "u \<in> set ?p" "pst_msg_hash u = h" for u
  proof -
    have "u \<in> set (filter (\<lambda>u. pst_msg_hash u = h) ?p)" using that by simp
    then show ?thesis unfolding own using gone by (simp split: if_splits)
  qed
  moreover have "pst_msg_hash u = h"
    if "u \<in> set (List.map_filter (decide_transfer env) ?p)" "pst_socket_message u = msg" for u
    using that assms(2) decide_transfer_message decide_transfer_hash
    by (fastforce simp: in_phase_def List.map_filter_def)
  ultimately show "in_phase ?t (matured env ti b p) (fst (process_pending_standard_transfers env st))"
    using assms(2) pool by (auto simp: in_phase_def process_pending_standard_transfers_eq matured_def)
qed

text \<open>A block, whether its queries succeed or not.\<close>

definition after_block :: "OnflightEnv \<Rightarrow> TransferInfo \<Rightarrow> u64 \<Rightarrow> phase \<Rightarrow> phase" where
  "after_block env ti b p =
     (if o_storage env = None then matured env ti b p else picked_up env ti (matured env ti b p))"

lemma gained_trans: "(p = Handed \<longrightarrow> q = Handed) \<Longrightarrow> (q = Handed \<longrightarrow> r = Handed) \<Longrightarrow> gained p q + gained q r = gained p r"
  by simp

lemma phases_settle:
  "matured env ti b Handed = Handed" "picked_up env ti Handed = Handed" "after_block env ti b Handed = Handed"
  by (simp_all add: matured_def picked_up_def after_block_def)

lemma block_phase:
  assumes "observes env ti msg h b" and "in_phase (transfer_of ti msg h b) p st"
    and "process_substrate_block env st = (st', fs, r)"
  shows "in_phase (transfer_of ti msg h b) (after_block env ti b p) st'
    \<and> handovers msg fs = gained p (after_block env ti b p) \<and> r \<noteq> Panic"
proof (cases "o_storage env")
  case None
  with assms(3) pass_phase [OF assms(1,2)] show ?thesis
    by (auto simp: process_substrate_block_def after_block_def split: prod.splits)
next
  case (Some items)
  let ?t = "transfer_of ti msg h b"
  obtain st1 fs1 where pass: "process_pending_standard_transfers env st = (st1, fs1)" by fastforce
  have st1: "in_phase ?t (matured env ti b p) st1" "handovers msg fs1 = gained p (matured env ti b p)"
    using pass_phase [OF assms(1,2)] pass by simp_all
  obtain tis where tis: "items = map Some tis" "ti \<in> set tis"
    "distinct (map (\<lambda>ti. o_keccak256 env (ti_socket_message ti)) tis)"
    "\<And>ti'. ti' \<in> set tis \<Longrightarrow> ti' \<noteq> ti \<Longrightarrow> decode_socket_message env (ti_socket_message ti') \<noteq> Some msg"
    and h: "o_keccak256 env (ti_socket_message ti) = h"
    using assms(1) Some unfolding observes_def by blast
  have hashes: "o_keccak256 env (ti_socket_message ti') \<noteq> h" if "ti' \<in> set tis" "ti' \<noteq> ti" for ti'
    using that tis(2,3) h by (auto simp: distinct_map dest: inj_onD)
  obtain st2 gs where scan: "scan_all env tis st1 = (st2, gs)" by fastforce
  have st2: "in_phase ?t (after_block env ti b p) st2" "handovers msg gs = gained (matured env ti b p) (after_block env ti b p)"
    using scan_phase [OF assms(1) tis(3) _ st1(1)] hashes tis(2,4) scan Some by (simp_all add: Let_def after_block_def)
  have out: "st' = st2\<lparr>processed_transfers :=
      {k \<in> processed_transfers st2. k \<in> (\<lambda>ti. o_keccak256 env (ti_socket_message ti)) ` set tis}\<rparr>"
    "fs = fs1 @ gs" "r = Ok ()"
    using assms(3) pass scan Some by (simp_all add: process_substrate_block_def tis(1) scan_transfers_all)
  have "h \<in> (\<lambda>ti. o_keccak256 env (ti_socket_message ti)) ` set tis"
    using tis(2) h by auto
  with st2(1) have "in_phase ?t (after_block env ti b p) st'"
    by (simp add: in_phase_def out(1))
  moreover have "handovers msg fs = gained p (after_block env ti b p)"
    using st1(2) st2(2) gained_trans [of p "matured env ti b p" "after_block env ti b p"]
    by (simp add: out(2) matured_def after_block_def picked_up_def Some)
  ultimately show ?thesis by (simp add: out(3))
qed

section \<open>Recovery\<close>

definition recovered :: "OnflightEnv \<Rightarrow> TransferInfo \<Rightarrow> phase" where
  "recovered env ti = (if answered env ti \<and> ti_option ti = Standard then Held else Unseen)"

lemma recover_phase:
  assumes "observes env ti msg h b" and "distinct (map (\<lambda>ti. o_keccak256 env (ti_socket_message ti)) tis)"
    and "\<And>ti'. ti' \<in> set tis \<Longrightarrow> ti' \<noteq> ti \<Longrightarrow> o_keccak256 env (ti_socket_message ti') \<noteq> h
        \<and> decode_socket_message env (ti_socket_message ti') \<noteq> Some msg"
    and "in_phase (transfer_of ti msg h b) p st" and "ti \<in> set tis \<Longrightarrow> p = Unseen"
  shows "in_phase (transfer_of ti msg h b)
    (if ti \<in> set tis \<and> ti_option ti = Standard
        \<and> get_tx_block_number env (ucast (ti_src_chain_id ti)) (ti_src_tx_id ti) \<noteq> None then Held else p)
    (fst (recover_pending_standard_transfers env (map Some tis) st))"
  using assms(2-5)
proof (induction tis arbitrary: p st)
  case (Cons ti' tis)
  let ?t = "transfer_of ti msg h b"
  define step where "step = fst (recover_pending_standard_transfers env [Some ti'] st)"
  have rest: "fst (recover_pending_standard_transfers env (map Some (ti' # tis)) st)
      = fst (recover_pending_standard_transfers env (map Some tis) step)"
    by (simp add: step_def Let_def split: option.split)
  show ?case
  proof (cases "ti' = ti")
    case True
    then have p: "p = Unseen" and nin: "ti \<notin> set tis" using Cons.prems(1,4) by auto
    have hash: "o_keccak256 env (ti_socket_message ti) = h" and msg: "decode_socket_message env (ti_socket_message ti) = Some msg"
      using assms(1) by (simp_all add: observes_def)
    have "in_phase ?t (if ti_option ti = Standard
        \<and> get_tx_block_number env (ucast (ti_src_chain_id ti)) (ti_src_tx_id ti) \<noteq> None then Held else p) step"
      using observed_block [OF assms(1)]
      by (rule disjE; insert Cons.prems(3)) (simp_all add: step_def True p in_phase_def hash msg observed_ti_pending [OF assms(1)] Let_def)
    from Cons.IH [OF _ _ this] Cons.prems(1,2) nin True show ?thesis
      unfolding rest by (auto simp del: recover_pending_standard_transfers.simps)
  next
    case False
    have "in_phase ?t p step"
      using Cons.prems(2) [of ti'] Cons.prems(3) False
      by (auto simp: step_def in_phase_def Let_def split: option.split)
    from Cons.IH [OF _ _ this] Cons.prems(1,2,4) False show ?thesis
      unfolding rest by (auto simp del: recover_pending_standard_transfers.simps)
  qed
qed simp

lemma bootstrap_phase:
  assumes "observes env ti msg h b" and "in_phase (transfer_of ti msg h b) Unseen st"
  shows "in_phase (transfer_of ti msg h b) (recovered env ti) (onflight_bootstrap env st)"
proof (cases "o_storage env")
  case None
  with assms(2) show ?thesis by (simp add: onflight_bootstrap_def recovered_def answered_def)
next
  case (Some items)
  obtain tis where tis: "items = map Some tis" "ti \<in> set tis"
    "distinct (map (\<lambda>ti. o_keccak256 env (ti_socket_message ti)) tis)"
    "\<And>ti'. ti' \<in> set tis \<Longrightarrow> ti' \<noteq> ti \<Longrightarrow> decode_socket_message env (ti_socket_message ti') \<noteq> Some msg"
    and h: "o_keccak256 env (ti_socket_message ti) = h"
    using assms(1) Some unfolding observes_def by blast
  have "o_keccak256 env (ti_socket_message ti') \<noteq> h
      \<and> decode_socket_message env (ti_socket_message ti') \<noteq> Some msg" if "ti' \<in> set tis" "ti' \<noteq> ti" for ti'
    using that tis(2-4) h by (auto simp: distinct_map dest: inj_onD)
  note phase = recover_phase [OF assms(1) tis(3) this assms(2) refl]
  have "recovered env ti = (if ti \<in> set tis \<and> ti_option ti = Standard
      \<and> get_tx_block_number env (ucast (ti_src_chain_id ti)) (ti_src_tx_id ti) \<noteq> None then Held else Unseen)"
    by (simp only: recovered_def answered_def Some tis(2) simp_thms option.distinct conj_commute)
  moreover have "onflight_bootstrap env st = fst (recover_pending_standard_transfers env (map Some tis) st)"
    by (simp add: onflight_bootstrap_def Some tis(1))
  ultimately show ?thesis using phase by simp
qed

section \<open>Runs\<close>

lemma loop_phase:
  assumes "onflight_loop (map Some blocks) st = (st', fs, r)" and "in_phase (transfer_of ti msg h b) p st"
    and "\<And>env. env \<in> set blocks \<Longrightarrow> observes env ti msg h b"
  shows "in_phase (transfer_of ti msg h b) (fold (\<lambda>env. after_block env ti b) blocks p) st'
    \<and> handovers msg fs = gained p (fold (\<lambda>env. after_block env ti b) blocks p) \<and> r = Ok ()"
  using assms
proof (induction blocks arbitrary: p st st' fs r)
  case (Cons env blocks)
  let ?q = "after_block env ti b p"
  obtain st1 fs1 r1 where step: "process_substrate_block env st = (st1, fs1, r1)" using prod_cases3 by blast
  obtain st2 fs2 r2 where rest: "onflight_loop (map Some blocks) st1 = (st2, fs2, r2)" using prod_cases3 by blast
  have one: "in_phase (transfer_of ti msg h b) ?q st1" "handovers msg fs1 = gained p ?q" "r1 \<noteq> Panic"
    using block_phase [OF Cons.prems(3) Cons.prems(2) step] by simp_all
  have all: "in_phase (transfer_of ti msg h b) (fold (\<lambda>env. after_block env ti b) blocks ?q) st2"
    "handovers msg fs2 = gained ?q (fold (\<lambda>env. after_block env ti b) blocks ?q)" "r2 = Ok ()"
    using Cons.IH [OF rest one(1)] Cons.prems(3) by simp_all
  have "st' = st2" "fs = fs1 @ fs2" "r = r2"
    using Cons.prems(1) step rest one(3) by (auto split: res.splits)
  moreover have "fold (\<lambda>env. after_block env ti b) bs Handed = Handed" for bs
    by (induction bs) (simp_all add: phases_settle)
  ultimately show ?case
    using one(2) all gained_trans [of p ?q "fold (\<lambda>env. after_block env ti b) blocks ?q"] phases_settle(3) by force
qed simp

lemma not_unseen_later:
  "p \<noteq> Unseen \<Longrightarrow> fold (\<lambda>env. after_block env ti b) blocks p \<noteq> Unseen"
  by (induction blocks arbitrary: p) (simp_all add: after_block_def matured_def picked_up_def)

lemma answered_seen: "answered env ti \<Longrightarrow> after_block env ti b p \<noteq> Unseen"
  by (auto simp: answered_def after_block_def matured_def picked_up_def)

lemma seen_before_end:
  assumes "env \<in> set blocks" and "answered env ti"
  shows "fold (\<lambda>env. after_block env ti b) blocks p \<noteq> Unseen"
  using assms
proof (induction blocks arbitrary: p)
  case (Cons e blocks)
  then show ?case
    using not_unseen_later [OF answered_seen [OF Cons.prems(2)]] by auto
qed simp

lemma confirmed_handed:
  assumes "answered env ti" and "confirmed_at env ti b" and "ti_option ti = Standard \<Longrightarrow> p \<noteq> Unseen"
  shows "after_block env ti b p = Handed"
  using assms by (cases p; cases "ti_option ti") (auto simp: answered_def after_block_def matured_def picked_up_def)


lemma ex_observes: "observes (ex_onflight_env opt) (ex_transfer_info opt) (ex_message 1) 1 90"
proof -
  have dst: "dst_chain_id (ex_message 1) = 3068" by (simp add: dst_chain_id_def ex_message_def)
  have "src_client (ex_onflight_env opt) 1 = Some (ex_client 1 False)"
    by (simp add: src_client_def ex_onflight_simps ex_clients_def ex_client_def ex_metadata_def get_bitcoin_chain_id_def)
  moreover have "o_storage (ex_onflight_env opt) = Some (map Some [ex_transfer_info opt])"
    by (simp add: ex_onflight_env_def)
  moreover have "\<exists>tis. map Some [ex_transfer_info opt] = map Some tis \<and> ex_transfer_info opt \<in> set tis
      \<and> distinct (map (\<lambda>ti. o_keccak256 (ex_onflight_env opt) (ti_socket_message ti)) tis)
      \<and> (\<forall>ti' \<in> set tis. ti' \<noteq> ex_transfer_info opt
           \<longrightarrow> decode_socket_message (ex_onflight_env opt) (ti_socket_message ti') \<noteq> Some (ex_message 1))"
    by (rule exI [of _ "[ex_transfer_info opt]"]) simp
  ultimately show ?thesis
    unfolding observes_def by (simp add: dst del: list.map) (simp add: ex_onflight_env_def ex_transfer_info_def)
qed


end
