(* ===== verification/Initial_States.thy ===== *)
theory Initial_States
  imports Relayer_Service Roundup_Run Rollback_Emitter Onflight_Run Price_Oracle
begin

text \<open>
  The states in which the tasks are constructed (the \<open>new\<close> functions of the handlers under
  \<open>client/src/eth/handlers\<close> and of the workers under \<open>periodic/src\<close>, and
  \<open>relayer/src/service_deps/periodic_deps.rs\<close>). They are the initial states of the invariants that the
  theories of these tasks prove.
\<close>

section \<open>Handlers\<close>

text \<open>A relay handler for a chain without a client panics; its pool starts empty.\<close>

definition SocketRelayHandler_new ::
    "chain_id \<Rightarrow> (chain_id \<times> EthClient) list \<Rightarrow> (EthClient \<times> PendingEvent list) res" where
  "SocketRelayHandler_new chain system_clients = bind_res (unwrap (map_of system_clients chain)) (\<lambda>client. Ok (client, []))"

text \<open>\<open>rpc\<close> is the outcome of connecting to the node. (The on-flight handler is in \<open>Onflight_Run\<close>.)\<close>

definition SocketQueuePoller_new :: "unit res \<Rightarrow> EthClient \<Rightarrow> EthClient \<Rightarrow> (EthClient \<times> EthClient) res" where
  "SocketQueuePoller_new rpc client bifrost = bind_res rpc (\<lambda>_. Ok (client, bifrost))"

definition RoundupRelayHandler_new ::
    "(chain_id \<times> EthClient) list \<Rightarrow> (chain_id \<times> EthClient) list \<times> pending_relays" where
  "RoundupRelayHandler_new cs = (filter (\<lambda>(_, c). \<not> is_native (metadata c)) cs, Map.empty)"

section \<open>Workers\<close>

text \<open>
  The state of a worker is what its turns read and write; the clients, channels and schedules it only
  calls are arguments of the turns. The key storage and the migration sequence are shared: the
  presubmitter and the migrator are given the same ones.
\<close>

definition HeartbeatSender_new :: "EthClient \<Rightarrow> EthClient" where
  "HeartbeatSender_new client = client"

definition PubKeyPreSubmitter_new :: "Keystore \<Rightarrow> MigrationSequence \<Rightarrow> Keystore \<times> MigrationSequence" where
  "PubKeyPreSubmitter_new keypair_storage migration_sequence = (keypair_storage, migration_sequence)"

definition SocketRollbackEmitter_new ::
    "EthClient \<Rightarrow> (chain_id \<times> EthClient) list \<Rightarrow> (EthClient \<times> (chain_id \<times> EthClient) list \<times> rollback_msgs)" where
  "SocketRollbackEmitter_new client system_clients = (client, system_clients, [])"

definition RoundupEmitter_new :: "EthClient \<Rightarrow> RoundupEmitter" where
  "RoundupEmitter_new client = \<lparr>current_round = 0, re_client = client\<rparr>"

definition PriceDeviationChecker_new :: PriceDeviationChecker where
  "PriceDeviationChecker_new = \<lparr>dc_dedicated_source = None, dc_market_sources = [], dc_oracle_manager = None\<rparr>"

definition KeypairMigrator_new :: "MigrationSequence \<Rightarrow> Keystore \<Rightarrow> Migrator" where
  "KeypairMigrator_new migration_sequence keypair_storage =
     \<lparr>mg_sequence = migration_sequence, mg_storage = keypair_storage\<rparr>"

text \<open>
  The channels between relay handlers and rollback emitters: the sender under a chain leads to the
  emitter at the same position.
\<close>

record PeriodicDeps =
  pd_heartbeat_sender :: EthClient
  pd_oracle_price_feeder :: OraclePriceFeeder
  pd_price_deviation_checker :: PriceDeviationChecker
  pd_roundup_emitter :: RoundupEmitter
  pd_rollback_emitters :: "(EthClient \<times> (chain_id \<times> EthClient) list \<times> rollback_msgs) list"
  pd_rollback_senders :: "(chain_id \<times> nat) list"
  pd_keypair_migrator :: Migrator
  pd_presubmitter :: "Keystore \<times> MigrationSequence"

definition PeriodicDeps_new ::
    "MigrationSequence \<Rightarrow> Keystore \<Rightarrow> (chain_id \<times> EthClient) list \<Rightarrow> EthClient \<Rightarrow> PeriodicDeps" where
  "PeriodicDeps_new migration_sequence keypair_storage cs bfc_client =
     (let (rollback_emitters, rollback_senders) =
        fold (\<lambda>(chain_id, client) (emitters, senders).
           (emitters @ [SocketRollbackEmitter_new client cs], btree_insert chain_id (length emitters) senders))
          cs ([], [])
      in \<lparr>pd_heartbeat_sender = HeartbeatSender_new bfc_client,
          pd_oracle_price_feeder = feeder_new,
          pd_price_deviation_checker = PriceDeviationChecker_new,
          pd_roundup_emitter = RoundupEmitter_new bfc_client,
          pd_rollback_emitters = rollback_emitters,
          pd_rollback_senders = rollback_senders,
          pd_keypair_migrator = KeypairMigrator_new migration_sequence keypair_storage,
          pd_presubmitter = PubKeyPreSubmitter_new keypair_storage migration_sequence\<rparr>)"

section \<open>Channels\<close>

lemma btree_insert_snoc:
  "sorted_wrt (<) (map fst m @ [k]) \<Longrightarrow> btree_insert k v m = m @ [(k, v)]"
  by (simp add: btree_insert_def sorted_wrt_append takeWhile_eq_all_conv dropWhile_eq_Nil_conv [THEN iffD2] less_imp_le)

lemma rollback_wiring:
  assumes "btree_inv (xs @ cs)"
  shows "fold (\<lambda>(chain_id, client) (emitters, senders).
      (emitters @ [SocketRollbackEmitter_new client all], btree_insert chain_id (length emitters) senders)) cs
      (map (\<lambda>(_, c). SocketRollbackEmitter_new c all) xs, zip (map fst xs) [0..<length xs])
    = (map (\<lambda>(_, c). SocketRollbackEmitter_new c all) (xs @ cs), zip (map fst (xs @ cs)) [0..<length (xs @ cs)])"
  using assms
proof (induction cs arbitrary: xs)
  case (Cons x cs)
  obtain chain c where x: "x = (chain, c)" by (cases x)
  have "map fst (zip (map fst xs) [0..<length xs]) = map fst xs" by simp
  moreover have "sorted_wrt (<) (map fst xs @ [chain])"
    using Cons.prems by (simp add: btree_inv_def x sorted_wrt_append)
  ultimately have "btree_insert chain (length xs) (zip (map fst xs) [0..<length xs])
      = zip (map fst xs) [0..<length xs] @ [(chain, length xs)]"
    by (intro btree_insert_snoc) simp
  moreover have "zip (map fst (xs @ [x])) [0..<length (xs @ [x])]
      = zip (map fst xs) [0..<length xs] @ [(chain, length xs)]"
    by (simp add: x)
  ultimately show ?case
    using Cons.IH [of "xs @ [x]"] Cons.prems by (simp add: x)
qed simp

lemma rollback_channels:
  assumes "btree_inv cs"
  shows "pd_rollback_emitters (PeriodicDeps_new sq ks cs b) = map (\<lambda>(_, c). SocketRollbackEmitter_new c cs) cs"
    and "pd_rollback_senders (PeriodicDeps_new sq ks cs b) = zip (map fst cs) [0..<length cs]"
  using rollback_wiring [of "[]" cs cs] assms by (simp_all add: PeriodicDeps_new_def)

text \<open>
  The sender that relay handlers find under a chain leads to the emitter that works for this chain
  and starts with nothing stored, and every client has one.
\<close>

lemma rollback_sender_reaches:
  assumes "keyed_clients cs" and "map_of cs chain = Some c"
  obtains i where "map_of (pd_rollback_senders (PeriodicDeps_new sq ks cs b)) chain = Some i"
    and "i < length (pd_rollback_emitters (PeriodicDeps_new sq ks cs b))"
    and "pd_rollback_emitters (PeriodicDeps_new sq ks cs b) ! i = (c, cs, [])" and "client_chain_id c = chain"
proof -
  have inv: "btree_inv cs" and ids: "client_chain_id c = chain"
    using assms map_of_SomeD [OF assms(2)] by (auto simp: keyed_clients_def)
  have dist: "distinct (map fst cs)" by (rule btree_inv_distinct [OF inv])
  obtain i where i: "i < length cs" "cs ! i = (chain, c)"
    using map_of_SomeD [OF assms(2)] by (auto simp: in_set_conv_nth)
  have "(chain, i) \<in> set (zip (map fst cs) [0..<length cs])"
    using i by (auto simp: in_set_zip intro!: exI [of _ i])
  moreover have "distinct (map fst (zip (map fst cs) [0..<length cs]))" using dist by simp
  ultimately have "map_of (zip (map fst cs) [0..<length cs]) chain = Some i"
    by (simp only: map_of_eq_Some_iff)
  moreover have "map (\<lambda>(_, c). SocketRollbackEmitter_new c cs) cs ! i = (c, cs, [])"
    using i by (subst nth_map) (simp_all add: SocketRollbackEmitter_new_def)
  ultimately show thesis
    using i(1) ids by (intro that) (simp_all only: rollback_channels [OF inv] length_map)
qed

section \<open>External chains\<close>

lemma update_default_address_metadata:
  "update_default_address selected rs c = Ok c' \<Longrightarrow> metadata c' = metadata c"
  by (auto simp: update_default_address_def bind_res_Ok_iff Let_def split: if_splits)

lemma build_client_native: "build_client env cfg p a = Ok c \<Longrightarrow> is_native (metadata c) = provider_native p"
  by (auto simp: build_client_def bind_res_Ok_iff ProviderMetadata_new_def Let_def)

lemma build_clients_native:
  "build_clients env cfg ps a acc = Ok (a', cs) \<Longrightarrow> (chain, c) \<in> set cs \<Longrightarrow>
     (chain, c) \<in> set acc \<or> (\<exists>p \<in> set ps. ep_id p = chain \<and> is_native (metadata c) = provider_native p)"
proof (induction ps arbitrary: a acc)
  case (Cons p ps)
  obtain k k' where k: "build_client env cfg p a = Ok k" "metadata k' = metadata k"
    "build_clients env cfg ps (default_address k') (btree_insert (ep_id p) k' acc) = Ok (a', cs)"
    using Cons.prems(1) update_default_address_metadata
    by (fastforce simp: bind_res_Ok_iff split: if_splits)
  from Cons.IH [OF k(3) Cons.prems(2)] show ?case
    using build_client_native [OF k(1)] k(2)
    by (auto simp: btree_insert_def dest: set_takeWhileD set_dropWhileD)
qed simp

lemma service_clients_native:
  assumes "service_clients env cfg = Ok cs" and "(chain, c) \<in> set cs"
  shows "\<exists>p \<in> set (rc_evm_providers cfg). ep_id p = chain \<and> is_native (metadata c) = provider_native p"
proof -
  obtain a cs' where b: "build_clients env cfg (rc_evm_providers cfg) 0 [] = Ok (a, cs')"
    and cs: "cs = map (\<lambda>(chain, c). (chain, c\<lparr>default_address := a\<rparr>)) cs'"
    using assms(1) by (auto simp: service_clients_def bind_res_Ok_iff)
  obtain c' where c': "(chain, c') \<in> set cs'" "metadata c = metadata c'" using assms(2) cs by auto
  from build_clients_native [OF b c'(1)] c'(2) show ?thesis by simp
qed

lemma external_providers_eq: "external_providers ps = filter (\<lambda>p. \<not> provider_native p) ps"
  by (auto simp: external_providers_def provider_native_def split: option.splits intro!: filter_cong)

lemma external_clients_chains:
  assumes "service_clients env cfg = Ok cs" and "distinct (map ep_id (rc_evm_providers cfg))"
  shows "fst ` set (fst (RoundupRelayHandler_new cs)) = ep_id ` set (external_providers (rc_evm_providers cfg))"
    and "length (fst (RoundupRelayHandler_new cs)) = length (external_providers (rc_evm_providers cfg))"
proof -
  let ?ext = "filter (\<lambda>(_, c). \<not> is_native (metadata c)) cs"
  let ?ps = "filter (\<lambda>p. \<not> provider_native p) (rc_evm_providers cfg)"
  note keyed = service_clients_keyed [OF assms(1)]
  have unique: "p = p'" if "p \<in> set (rc_evm_providers cfg)" "p' \<in> set (rc_evm_providers cfg)" "ep_id p = ep_id p'" for p p'
    using that assms(2) by (auto simp: distinct_map dest: inj_onD)
  have chains: "fst ` set ?ext = ep_id ` set ?ps"
  proof (intro set_eqI iffI)
    fix x assume "x \<in> fst ` set ?ext"
    then obtain c where "(x, c) \<in> set cs" "\<not> is_native (metadata c)" by auto
    with service_clients_native [OF assms(1)] show "x \<in> ep_id ` set ?ps" by fastforce
  next
    fix x assume "x \<in> ep_id ` set ?ps"
    then obtain p where p: "p \<in> set (rc_evm_providers cfg)" "\<not> provider_native p" "x = ep_id p" by auto
    then have "x \<in> fst ` set cs" using keyed(2) by simp
    then obtain c where c: "(x, c) \<in> set cs" by auto
    from service_clients_native [OF assms(1) c] unique p have "\<not> is_native (metadata c)" by auto
    with c have "(x, c) \<in> set ?ext" by simp
    then show "x \<in> fst ` set ?ext" by (rule image_eqI [rotated]) simp
  qed
  then show "fst ` set (fst (RoundupRelayHandler_new cs)) = ep_id ` set (external_providers (rc_evm_providers cfg))"
    by (simp add: RoundupRelayHandler_new_def external_providers_eq)
  have "distinct (map fst cs)" using keyed(1) btree_inv_distinct by (auto simp: keyed_clients_def)
  then have "distinct (map fst ?ext)" by (rule distinct_map_filter)
  moreover have "distinct (map ep_id ?ps)" by (rule distinct_map_filter [OF assms(2)])
  ultimately have "length (map fst ?ext) = length (map ep_id ?ps)"
    using chains distinct_card [of "map fst ?ext"] distinct_card [of "map ep_id ?ps"] by simp
  then show "length (fst (RoundupRelayHandler_new cs)) = length (external_providers (rc_evm_providers cfg))"
    by (simp add: RoundupRelayHandler_new_def external_providers_eq)
qed

section \<open>The tasks of a service\<close>

lemma spawned_rollback_emitters:
  "Rollback_emitter_of chain \<in> set (spawn_relayer_tasks cfg deps handlers onflight) \<longleftrightarrow> chain \<in> fst ` set (clients deps)"
proof -
  have "Rollback_emitter_of chain \<notin> set (handler_tasks deps handlers onflight)"
    by (auto simp: handler_tasks_def)
  moreover have "Rollback_emitter_of chain \<notin> set bitcoin_tasks" by (simp add: bitcoin_tasks_def)
  moreover have "Rollback_emitter_of chain \<notin> set (prometheus_tasks (rc_prometheus_config cfg))"
    by (simp add: prometheus_tasks_def split: option.split)
  moreover have "Rollback_emitter_of chain \<in> set (periodic_tasks deps) \<longleftrightarrow> chain \<in> fst ` set (clients deps)"
    by (force simp: periodic_tasks_def)
  ultimately show ?thesis by (simp add: spawn_relayer_tasks_def)
qed

lemma relay_clients:
  assumes "relay env cfg = Ok svc"
  shows "service_clients env cfg = Ok (s_clients svc)"
    and "Rollback_emitter_of chain \<in> set (s_tasks svc) \<longleftrightarrow> chain \<in> fst ` set (s_clients svc)"
proof -
  let ?d = "BootstrapSharedData_new (rc_evm_providers cfg) (bp_id (rc_btc_provider cfg)) (rc_bootstrap_config cfg)"
  obtain cs deps handlers onflight d where r: "service_clients env cfg = Ok cs" "ManagerDeps_new cfg cs = Ok deps"
    "s_tasks svc = spawn_relayer_tasks cfg deps handlers onflight" "s_clients svc = cs"
    using assms by (auto simp: relay_def bind_res_Ok_iff Let_def split: if_splits)
  then show "service_clients env cfg = Ok (s_clients svc)" by simp
  have "clients deps = cs" by (rule ManagerDeps_new_ok(1) [OF r(2) service_clients_keyed(1) [OF r(1)]])
  then show "Rollback_emitter_of chain \<in> set (s_tasks svc) \<longleftrightarrow> chain \<in> fst ` set (s_clients svc)"
    using spawned_rollback_emitters [of chain cfg deps handlers onflight] by (simp add: r(3,4))
qed

text \<open>
  C18: The tasks fit each other. When the service starts on a configuration with distinct chains, the
  barrier of the round-up phase is made for exactly the parties that will meet at it, the round-up
  handler and one waiting task per external chain; every relay handler is constructed for the client
  of its own chain with nothing pending; and the sender it finds for its chain leads to a rollback
  emitter that runs, works for the same client and has nothing stored. No handler is constructed for a
  chain without a client.
\<close>

theorem service_wiring:
  assumes "relay env cfg = Ok svc" and "distinct (map ep_id (rc_evm_providers cfg))"
  shows "length (fst (RoundupRelayHandler_new (s_clients svc))) + 1 = roundup_barrier (s_shared svc)
    \<and> fst ` set (fst (RoundupRelayHandler_new (s_clients svc))) = set (tp_external (topology_of cfg))
    \<and> (\<forall>chain \<in> set (List.map_filter relay_chain (s_tasks svc)). \<exists>client i.
         SocketRelayHandler_new chain (s_clients svc) = Ok (client, []) \<and> client_chain_id client = chain
         \<and> map_of (pd_rollback_senders (PeriodicDeps_new sq ks (s_clients svc) b)) chain = Some i
         \<and> i < length (pd_rollback_emitters (PeriodicDeps_new sq ks (s_clients svc) b))
         \<and> pd_rollback_emitters (PeriodicDeps_new sq ks (s_clients svc) b) ! i = (client, s_clients svc, [])
         \<and> Rollback_emitter_of chain \<in> set (s_tasks svc))"
proof (rule relay_ok [OF assms(1)], intro conjI ballI)
  fix q deps handlers onflight
  assume shared: "s_shared svc = (BootstrapSharedData_new (rc_evm_providers cfg) (bp_id (rc_btc_provider cfg))
           (rc_bootstrap_config cfg))\<lparr>cccp_relay_queue_enabled := q\<rparr>"
    and tasks: "s_tasks svc = spawn_relayer_tasks cfg deps handlers onflight"
    and relays: "socket_relay_handlers handlers = socket_targets (rc_handler_configs cfg)"
    and known: "set (socket_targets (rc_handler_configs cfg)) \<subseteq> ep_id ` set (rc_evm_providers cfg)"
  note cs = relay_clients(1) [OF assms(1)]
  note external = external_clients_chains [OF cs assms(2)]
  show "length (fst (RoundupRelayHandler_new (s_clients svc))) + 1 = roundup_barrier (s_shared svc)"
    by (simp add: external(2) shared BootstrapSharedData_new_def)
  show "fst ` set (fst (RoundupRelayHandler_new (s_clients svc))) = set (tp_external (topology_of cfg))"
    by (simp add: external(1) tp_external_def topology_of_def)
  fix chain
  assume "chain \<in> set (List.map_filter relay_chain (s_tasks svc))"
  then have mem: "chain \<in> fst ` set (s_clients svc)"
    using known service_clients_keyed(2) [OF cs] by (simp add: tasks spawned_tasks relays) blast
  then have "map_of (s_clients svc) chain \<noteq> None" by (simp add: map_of_eq_None_iff)
  then obtain client where client: "map_of (s_clients svc) chain = Some client" by blast
  obtain i where "map_of (pd_rollback_senders (PeriodicDeps_new sq ks (s_clients svc) b)) chain = Some i"
    "i < length (pd_rollback_emitters (PeriodicDeps_new sq ks (s_clients svc) b))"
    "pd_rollback_emitters (PeriodicDeps_new sq ks (s_clients svc) b) ! i = (client, s_clients svc, [])"
    "client_chain_id client = chain"
    by (rule rollback_sender_reaches [OF service_clients_keyed(1) [OF cs] client])
  moreover have "SocketRelayHandler_new chain (s_clients svc) = Ok (client, [])"
    by (simp add: SocketRelayHandler_new_def client)
  moreover have "Rollback_emitter_of chain \<in> set (s_tasks svc)"
    using mem by (simp add: relay_clients(2) [OF assms(1)])
  ultimately show "\<exists>client i.
         SocketRelayHandler_new chain (s_clients svc) = Ok (client, []) \<and> client_chain_id client = chain
         \<and> map_of (pd_rollback_senders (PeriodicDeps_new sq ks (s_clients svc) b)) chain = Some i
         \<and> i < length (pd_rollback_emitters (PeriodicDeps_new sq ks (s_clients svc) b))
         \<and> pd_rollback_emitters (PeriodicDeps_new sq ks (s_clients svc) b) ! i = (client, s_clients svc, [])
         \<and> Rollback_emitter_of chain \<in> set (s_tasks svc)"
    by blast
qed

theorem service_wiring_witness:
  "\<exists>svc client. relay ex_service_env ex_relayer_config = Ok svc \<and> roundup_barrier (s_shared svc) = 2
     \<and> SocketRelayHandler_new 1 (s_clients svc) = Ok (client, []) \<and> client_chain_id client = 1"
proof -
  obtain svc where svc: "relay ex_service_env ex_relayer_config = Ok svc"
    using ex_relay by blast
  have dist: "distinct (map ep_id (rc_evm_providers ex_relayer_config))"
    by (simp add: ex_service_defs)
  have "1 \<in> set (List.map_filter relay_chain (s_tasks svc))"
    by (rule relay_ok [OF svc]) (simp add: spawned_tasks socket_targets_def ex_service_defs)
  moreover have "roundup_barrier (s_shared svc) = 2"
    by (rule relay_ok [OF svc]) (simp add: BootstrapSharedData_new_def external_providers_def ex_service_defs)
  ultimately show ?thesis
    using service_wiring [OF svc dist, of Normal "KeypairStorage_new (\<lambda>_ _. None)" "ex_client 3068 True"] svc by blast
qed

end
