(* ===== verification/Relayer_Main.thy ===== *)
theory Relayer_Main
  imports Relayer_Service
begin

text \<open>
  The program: command line (\<open>relayer/src/cli.rs\<close>), configuration file (\<open>client/cli/src/configs.rs\<close>),
  the runner (\<open>client/cli/src/runner.rs\<close>) and \<open>main\<close> (\<open>relayer/src/main.rs\<close>). The parser of arguments
  and of the YAML file, the delivery of signals and the tasks' life are arguments; files are those of
  \<open>Keystore_Migration\<close>.
\<close>

section \<open>Command line and configuration\<close>

datatype Subcommand = MigrateKeystore MigrateKeystoreCmd

record Cli =
  cli_subcommand :: "Subcommand option"
  cli_chain :: string

definition cli_load_spec :: "Cli \<Rightarrow> string" where
  "cli_load_spec cli =
     (if cli_chain cli = ''testnet'' then TESTNET_CONFIG_FILE_PATH
      else if cli_chain cli = ''mainnet'' then MAINNET_CONFIG_FILE_PATH
      else cli_chain cli)"

text \<open>\<open>open_file\<close> is the content of a file that can be opened, \<open>from_yaml\<close> the parser.\<close>

definition create_configuration ::
    "(string \<Rightarrow> string option) \<Rightarrow> (string \<Rightarrow> RelayerConfig option) \<Rightarrow> string \<Rightarrow> RelayerConfig res" where
  "create_configuration open_file from_yaml spec =
     bind_res (unwrap (open_file spec)) (\<lambda>content. unwrap (from_yaml content))"

section \<open>The runner\<close>

text \<open>An error tracker is connected only when it is enabled and has an address.\<close>

definition build_sentry_client :: "bool \<Rightarrow> string \<Rightarrow> string option \<Rightarrow> (string \<times> string option) option" where
  "build_sentry_client enabled dsn environment = (if enabled \<and> dsn \<noteq> [] then Some (dsn, environment) else None)"

record Runner =
  rn_config :: RelayerConfig
  rn_sentry_client :: "(string \<times> string option) option"

definition SentryConfig_default :: SentryConfig where
  "SentryConfig_default = \<lparr>sn_environment = None, sn_is_enabled = False, sn_dsn = []\<rparr>"

definition Runner_new :: "RelayerConfig \<Rightarrow> Runner res" where
  "Runner_new config =
     (let sentry_config = (case rc_sentry_config config of Some c \<Rightarrow> c | None \<Rightarrow> SentryConfig_default)
      in Ok \<lparr>rn_config = config,
             rn_sentry_client = build_sentry_client (sn_is_enabled sentry_config) (sn_dsn sentry_config)
               (sn_environment sentry_config)\<rparr>)"

text \<open>What completes first of the two signals and the tasks; the tasks complete when an essential one ends.\<close>

datatype completion = Interrupt | Terminate | Tasks_ended "unit res"

definition runner_main :: "unit res \<Rightarrow> unit res \<Rightarrow> completion \<Rightarrow> unit res" where
  "runner_main stream_int stream_term first =
     bind_res stream_int (\<lambda>_. bind_res stream_term (\<lambda>_.
       case first of Interrupt \<Rightarrow> Ok () | Terminate \<Rightarrow> Ok () | Tasks_ended r \<Rightarrow> r))"

record MainEnv =
  mn_open_file :: "string \<Rightarrow> string option"
  mn_from_yaml :: "string \<Rightarrow> RelayerConfig option"
  mn_runtime :: "unit res"
  mn_service :: ServiceEnv
  mn_stream_int :: "unit res"
  mn_stream_term :: "unit res"
  mn_first :: "Service \<Rightarrow> completion"
  mn_migrate :: MigrateEnv
  mn_signals :: "unit res"
  mn_interrupted :: "(string \<Rightarrow> disk) option"

definition run_relayer_until_exit :: "MainEnv \<Rightarrow> Runner \<Rightarrow> unit res" where
  "run_relayer_until_exit env runner =
     bind_res (relay (mn_service env) (rn_config runner)) (\<lambda>task_manager.
       runner_main (mn_stream_int env) (mn_stream_term env) (mn_first env task_manager))"

text \<open>
  The command runs until it is done or a signal comes first; \<open>mn_interrupted\<close> is then the state of
  the files at that moment.
\<close>

definition async_run ::
    "MainEnv \<Rightarrow> ((string \<Rightarrow> disk) \<Rightarrow> (string \<Rightarrow> disk) \<times> unit res) \<Rightarrow> (string \<Rightarrow> disk)
      \<Rightarrow> (string \<Rightarrow> disk) \<times> unit res" where
  "async_run env future fs =
     (case mn_signals env of
        Ok u \<Rightarrow> (case mn_interrupted env of None \<Rightarrow> future fs | Some fs' \<Rightarrow> (fs', Ok ()))
      | Err e \<Rightarrow> (fs, Err e)
      | Panic \<Rightarrow> (fs, Panic))"

section \<open>The program\<close>

text \<open>
  How the process ends: \<open>main\<close> has no result, so it exits with status 0 unless it panics. The network
  of the configuration is looked up by the same function as in the service.
\<close>

datatype exit_status = Exit_success | Exit_panicked

definition exit_of :: "unit res \<Rightarrow> exit_status" where
  "exit_of r = (case r of Panic \<Rightarrow> Exit_panicked | _ \<Rightarrow> Exit_success)"

definition migrate_command ::
    "MainEnv \<Rightarrow> MigrateKeystoreCmd \<Rightarrow> RelayerConfig \<Rightarrow> (string \<Rightarrow> disk) \<Rightarrow> (string \<Rightarrow> disk) \<times> unit res" where
  "migrate_command env cmd config fs =
     migrate_run ((mn_migrate env)\<lparr>mi_network_known :=
         sv_network (mn_service env) (bp_chain (rc_btc_provider config)) \<noteq> None\<rparr>)
       cmd (rc_keystore_config config) fs"

definition relayer_main :: "MainEnv \<Rightarrow> Cli \<Rightarrow> (string \<Rightarrow> disk) \<Rightarrow> (string \<Rightarrow> disk) \<times> exit_status" where
  "relayer_main env cli fs =
     (case bind_res (mn_runtime env) (\<lambda>_.
             bind_res (create_configuration (mn_open_file env) (mn_from_yaml env)
                 (case cli_subcommand cli of
                    Some (MigrateKeystore cmd) \<Rightarrow> load_spec cmd
                  | None \<Rightarrow> cli_load_spec cli)) Runner_new) of
        Ok runner \<Rightarrow>
          (case cli_subcommand cli of
             Some (MigrateKeystore cmd) \<Rightarrow>
               (case async_run env (migrate_command env cmd (rn_config runner)) fs of (fs', r) \<Rightarrow> (fs', exit_of r))
           | None \<Rightarrow> (fs, exit_of (run_relayer_until_exit env runner)))
      | _ \<Rightarrow> (fs, Exit_panicked))"

section \<open>What the exit status tells\<close>

lemma cli_load_spec_migrate: "load_spec cmd = cli_load_spec \<lparr>cli_subcommand = s, cli_chain = mk_chain cmd\<rparr>"
  by (simp add: load_spec_def cli_load_spec_def)

lemma Runner_new_config: "bind_res r Runner_new = Ok runner \<Longrightarrow> r = Ok (rn_config runner)"
  by (auto simp: bind_res_Ok_iff Runner_new_def Let_def)

text \<open>
  The status tells only whether something panicked. With a configuration that can be read, the
  relayer reports success when the service could not be started, when it could not install its signal
  handlers and when an essential task ended: the errors are dropped by \<open>unwrap_or_default\<close>.
\<close>

lemma run_exits_successfully:
  assumes "mn_runtime env = Ok ()" and "cli_subcommand cli = None"
    and "create_configuration (mn_open_file env) (mn_from_yaml env) (cli_load_spec cli) = Ok config"
    and "relay (mn_service env) config = Err e
      \<or> (\<exists>svc. relay (mn_service env) config = Ok svc \<and> mn_stream_int env \<noteq> Panic \<and> mn_stream_term env \<noteq> Panic
           \<and> mn_first env svc \<noteq> Tasks_ended Panic)"
  shows "relayer_main env cli fs = (fs, Exit_success)"
proof -
  obtain runner where runner: "Runner_new config = Ok runner" "rn_config runner = config"
    by (simp add: Runner_new_def Let_def)
  have "exit_of (run_relayer_until_exit env runner) = Exit_success"
    using assms(4)
  proof (elim disjE exE conjE)
    fix svc
    assume "relay (mn_service env) config = Ok svc" "mn_stream_int env \<noteq> Panic" "mn_stream_term env \<noteq> Panic"
      "mn_first env svc \<noteq> Tasks_ended Panic"
    then show ?thesis
      by (cases "mn_stream_int env"; cases "mn_stream_term env"; cases "mn_first env svc")
        (auto simp: run_relayer_until_exit_def runner_main_def runner(2) exit_of_def split: res.split)
  qed (simp add: run_relayer_until_exit_def runner(2) exit_of_def)
  then show ?thesis
    using assms(1-3) runner(1) by (simp add: relayer_main_def)
qed

text \<open>An interrupted migration reports success as well, wherever it was interrupted.\<close>

lemma interrupted_migration_succeeds:
  assumes "mn_runtime env = Ok ()" and "cli_subcommand cli = Some (MigrateKeystore cmd)"
    and "create_configuration (mn_open_file env) (mn_from_yaml env) (load_spec cmd) = Ok config"
    and "mn_signals env = Ok ()" and "mn_interrupted env = Some fs'"
  shows "relayer_main env cli fs = (fs', Exit_success)"
  using assms by (simp add: relayer_main_def Runner_new_def Let_def async_run_def exit_of_def)

section \<open>Migrating a keystore\<close>

lemma bind_res_not_Err: "(\<And>e. r \<noteq> Err e) \<Longrightarrow> (\<And>x e. f x \<noteq> Err e) \<Longrightarrow> bind_res r f \<noteq> Err e"
  by (cases r) simp_all

lemma unwrap_not_Err: "unwrap x \<noteq> Err e"
  by (cases x) simp_all

lemma pw_key_not_Err: "pw_encrypt_key c s n k \<noteq> Err e" "pw_decrypt_key c s k \<noteq> Err e"
  by (auto simp: pw_encrypt_key_def pw_decrypt_key_def unwrap_not_Err bind_res_not_Err split: option.split)

lemma crypt_not_Err: "encrypt_key c kind n k \<noteq> Err e" "decrypt_key c kind k \<noteq> Err e"
  by (cases kind; simp add: encrypt_key_def decrypt_key_def pw_key_not_Err unwrap_not_Err)+

lemma migrate_key_not_Err: "migrate_key env cmd config n key ks \<noteq> Err e"
proof -
  have "raw_keystore_value key ks \<noteq> Err e" "insert_key h pk sk ks \<noteq> Err e" for e h pk sk
    by (cases "ks_db ks"; simp add: raw_keystore_value_def insert_key_def ks_open_db_def)+
  then show ?thesis
    unfolding migrate_key_def old_private_key_def Let_def
    by (intro bind_res_not_Err) (simp_all add: unwrap_not_Err crypt_not_Err bind_res_not_Err)
qed

lemma migrate_keys_not_Err: "snd (migrate_keys env cmd config n keys ks) \<noteq> Err e"
proof (induction keys arbitrary: n ks)
  case (Cons key keys)
  then show ?case
    using migrate_key_not_Err [of env cmd config n key ks]
    by (cases "migrate_key env cmd config n key ks") simp_all
qed simp

lemma migrate_run_not_Err: "snd (migrate_run env cmd config fs) \<noteq> Err e"
proof -
  have load: "ks_load opens rnd ks \<noteq> Err e" "ks_load_v1 opens kind rnd ks \<noteq> Err e" for opens rnd ks kind e
    by (cases kind; simp add: ks_load_v1_def ks_load_def load_keystore_def)+
  have keys: "migrate_keys env cmd config n keys ks \<noteq> (ks', Err e)" for n keys ks ks'
    using migrate_keys_not_Err [of env cmd config n keys ks e] by auto
  show ?thesis
  proof
    assume "snd (migrate_run env cmd config fs) = Err e"
    then show False
      using keys by (auto simp: migrate_run_def Let_def load split: res.splits option.splits prod.splits if_splits)
  qed
qed


definition ex_main_env :: MainEnv where
  "ex_main_env =
     \<lparr>mn_open_file = Some, mn_from_yaml = (\<lambda>_. Some ex_relayer_config), mn_runtime = Ok (),
      mn_service = ex_service_env, mn_stream_int = Ok (), mn_stream_term = Ok (), mn_first = (\<lambda>_. Interrupt),
      mn_migrate = ex_migrate_env, mn_signals = Ok (), mn_interrupted = None\<rparr>"


end
