(* ===== verification/Log_Lines.thy ===== *)
theory Log_Lines
  imports Tx_Requests Exchange_Rate
begin

text \<open>
  What the relayer writes to its log and to the error tracker: the \<open>Display\<close> implementations of the
  metadata of transactions and extrinsics (\<open>primitives/src/tx.rs\<close>), the padding of log targets
  (\<open>primitives/src/utils.rs\<close>) and the reporting macros (\<open>primitives/src/macros.rs\<close>). Numbers, booleans
  and strings are printed as the standard library does; the printers of third-party types (addresses,
  hashes, keys, 256-bit integers, amounts) are arguments.
\<close>

section \<open>Printing of the standard library\<close>

fun show_nat :: "nat \<Rightarrow> string" where
  "show_nat n = (if n < 10 then [char_of (48 + n)] else show_nat (n div 10) @ [char_of (48 + n mod 10)])"

declare show_nat.simps [simp del]

definition show_word :: "'w :: len word \<Rightarrow> string" where
  "show_word w = show_nat (unat w)"

definition show_bool :: "bool \<Rightarrow> string" where
  "show_bool b = (if b then ''true'' else ''false'')"

text \<open>The derived \<open>Debug\<close> of the status: the name of the variant.\<close>

fun debug_status :: "SocketEventStatus \<Rightarrow> string" where
  "debug_status Status_None = ''None''"
| "debug_status Requested = ''Requested''"
| "debug_status Failed = ''Failed''"
| "debug_status Executed = ''Executed''"
| "debug_status Reverted = ''Reverted''"
| "debug_status Accepted = ''Accepted''"
| "debug_status Rejected = ''Rejected''"
| "debug_status Committed = ''Committed''"
| "debug_status Rollbacked = ''Rollbacked''"

fun join :: "string \<Rightarrow> string list \<Rightarrow> string" where
  "join sep [] = []"
| "join sep [x] = x"
| "join sep (x # y # ys) = x @ sep @ join sep (y # ys)"

text \<open>\<open>Debug\<close> of strings without characters that need an escape, which symbols and addresses are.\<close>

definition debug_str :: "string \<Rightarrow> string" where
  "debug_str s = [CHR 0x22] @ s @ [CHR 0x22]"

section \<open>The lines\<close>

record Printers =
  p_u256 :: "u256 \<Rightarrow> string"
  p_address :: "address \<Rightarrow> string"
  p_address_debug :: "address \<Rightarrow> string"
  p_b256 :: "b256 \<Rightarrow> string"
  p_hash :: "bytes \<Rightarrow> string"
  p_pub_key :: "bytes \<Rightarrow> string"
  p_txid :: "txid \<Rightarrow> string"
  p_sats :: "u64 \<Rightarrow> string"
  p_btc_address :: "btc_address \<Rightarrow> string"
  p_bytes :: "bytes \<Rightarrow> string"

definition direction_name :: "bool \<Rightarrow> string" where
  "direction_name is_inbound = (if is_inbound then ''Inbound'' else ''Outbound'')"

definition display_socket_relay :: "SocketRelayMetadata \<Rightarrow> string" where
  "display_socket_relay m =
     ''Relay('' @ direction_name (srm_is_inbound m) @ ''-'' @ debug_status (srm_status m) @ ''-''
       @ show_word (srm_sequence m) @ '', '' @ show_word (srm_src_chain_id m) @ '' -> ''
       @ show_word (srm_dst_chain_id m) @ '')''"

definition display_rollback :: "RollbackMetadata \<Rightarrow> string" where
  "display_rollback m =
     ''Rollback('' @ direction_name (rbm_is_inbound m) @ ''-'' @ debug_status (rbm_status m) @ ''-''
       @ show_word (rbm_sequence m) @ '', '' @ show_word (rbm_src_chain_id m) @ '' -> ''
       @ show_word (rbm_dst_chain_id m) @ '')''"

definition debug_price_response :: "Printers \<Rightarrow> PriceResponse \<Rightarrow> string" where
  "debug_price_response p r =
     ''PriceResponse { price: '' @ p_u256 p (pr_price r) @ '', volume: '' @ p_u256 p (pr_volume r) @ '' }''"

definition display_price_feed :: "Printers \<Rightarrow> (string \<times> PriceResponse) list \<Rightarrow> string" where
  "display_price_feed p prices =
     ''PriceFeed({'' @ join '', '' (map (\<lambda>(symbol, r). debug_str symbol @ '': '' @ debug_price_response p r) prices)
       @ ''})''"

definition display_vsp_phase1 :: "Printers \<Rightarrow> u256 \<Rightarrow> address list \<Rightarrow> string" where
  "display_vsp_phase1 p rnd relayer_addresses =
     ''VSPPhase1('' @ p_u256 p rnd @ '', ['' @ join '', '' (map (\<lambda>a. debug_str (p_address p a)) relayer_addresses)
       @ ''])''"

definition display_vsp_phase2 :: "Printers \<Rightarrow> u256 \<Rightarrow> chain_id \<Rightarrow> string" where
  "display_vsp_phase2 p rnd dst = ''VSPPhase2('' @ p_u256 p rnd @ '', On chain:'' @ show_word dst @ '')''"

definition display_heartbeat :: "Printers \<Rightarrow> u256 \<Rightarrow> u256 \<Rightarrow> string" where
  "display_heartbeat p round_index session_index =
     ''Heartbeat(Round: '' @ p_u256 p round_index @ '', Session: '' @ p_u256 p session_index @ '')''"

definition display_flush :: string where
  "display_flush = ''Flush mempool''"

definition display_bitcoin_relay :: "Printers \<Rightarrow> BitcoinRelayMetadata \<Rightarrow> string" where
  "display_bitcoin_relay p m =
     ''BitcoinSocketRelay('' @ p_txid p (brm_txid m) @ '':'' @ show_word (brm_index m) @ '' ''
       @ p_btc_address p (brm_btc_address m) @ '':'' @ p_address p (brm_bfc_address m) @ '')''"

definition display_hook :: "Printers \<Rightarrow> HookMetadata \<Rightarrow> string" where
  "display_hook p m =
     ''Hook('' @ p_address_debug p (hm_sender m) @ '', '' @ p_address_debug p (hm_receiver m) @ '', ''
       @ p_u256 p (hm_max_tx_fee m) @ '', ''
       @ p_u256 p (case hm_fee_in_bridged_asset m of Some fee \<Rightarrow> fee | None \<Rightarrow> 0) @ '', ''
       @ p_bytes p (hm_message m) @ '')''"

definition display_on_flight_poll :: "OnFlightPollMetadata \<Rightarrow> string" where
  "display_on_flight_poll m =
     ''OnFlightPoll('' @ direction_name (ofm_is_inbound m) @ ''-'' @ show_word (ofm_sequence m) @ '', ''
       @ show_word (ofm_src_chain_id m) @ '' -> '' @ show_word (ofm_dst_chain_id m) @ '')''"

definition display_finalize_poll :: "FinalizePollMetadata \<Rightarrow> string" where
  "display_finalize_poll m =
     ''FinalizePoll('' @ direction_name (fpm_is_inbound m) @ ''-'' @ show_word (fpm_sequence m) @ '', ''
       @ show_word (fpm_src_chain_id m) @ '' -> '' @ show_word (fpm_dst_chain_id m) @ '', ''
       @ (if fpm_is_committed m then ''Committed'' else ''Rollbacked'') @ '')''"

definition display_submit_vault_key :: "Printers \<Rightarrow> address \<Rightarrow> bytes \<Rightarrow> string" where
  "display_submit_vault_key p who key = ''SubmitVaultKey('' @ p_address_debug p who @ '':'' @ p_pub_key p key @ '')''"

definition display_submit_signed_psbt :: "Printers \<Rightarrow> b256 \<Rightarrow> string" where
  "display_submit_signed_psbt p unsigned_psbt = ''SubmitSignedPsbt('' @ p_b256 p unsigned_psbt @ '')''"

definition display_submit_unsigned_psbt :: "Printers \<Rightarrow> b256 \<Rightarrow> string" where
  "display_submit_unsigned_psbt p unsigned_psbt = ''SubmitUnsignedPsbt('' @ p_b256 p unsigned_psbt @ '')''"

definition display_submit_executed_request :: "Printers \<Rightarrow> txid \<Rightarrow> string" where
  "display_submit_executed_request p t = ''SubmitExecutedRequest('' @ p_hash p t @ '')''"

definition display_submit_rollback_poll :: "Printers \<Rightarrow> txid \<Rightarrow> bool \<Rightarrow> string" where
  "display_submit_rollback_poll p t is_approved =
     ''SubmitRollbackPoll('' @ p_hash p t @ '':'' @ show_bool is_approved @ '')''"

definition display_vault_key_presubmission :: "nat \<Rightarrow> string" where
  "display_vault_key_presubmission keys = ''VaultKeyPresubmission('' @ show_nat keys @ '')''"

definition display_submit_utxo :: "Printers \<Rightarrow> txid \<Rightarrow> u32 \<Rightarrow> u64 \<Rightarrow> string" where
  "display_submit_utxo p t vout sats =
     ''SubmitUtxo('' @ p_txid p t @ '':'' @ show_word vout @ '':'' @ p_sats p sats @ '')''"

definition display_broadcast_poll :: "Printers \<Rightarrow> txid \<Rightarrow> string" where
  "display_broadcast_poll p t = ''BroadcastPoll('' @ p_txid p t @ '')''"

definition display_submit_fee_rate :: "u64 \<Rightarrow> u64 \<Rightarrow> string" where
  "display_submit_fee_rate lt_fee_rate fee_rate =
     ''SubmitFeeRate('' @ show_word lt_fee_rate @ '','' @ show_word fee_rate @ '')''"

definition display_remove_outbound_messages :: "nat \<Rightarrow> string" where
  "display_remove_outbound_messages len = ''RemoveOutboundMessages('' @ show_nat len @ '')''"

definition display_approve_set_refunds :: "nat \<Rightarrow> nat \<Rightarrow> string" where
  "display_approve_set_refunds approved denied =
     ''ApproveSetRefunds(approved: '' @ show_nat approved @ '', denied: '' @ show_nat denied @ '')''"

fun display_tx :: "Printers \<Rightarrow> TxMetadata \<Rightarrow> string" where
  "display_tx p (SocketRelay m) = display_socket_relay m"
| "display_tx p (BitcoinRelay m) = display_bitcoin_relay p m"
| "display_tx p (Heartbeat r s) = display_heartbeat p r s"
| "display_tx p (PriceFeed prices) = display_price_feed p prices"
| "display_tx p (Rollback m) = display_rollback m"
| "display_tx p (Hook m) = display_hook p m"
| "display_tx p (VSPPhase1 r as) = display_vsp_phase1 p r as"
| "display_tx p (VSPPhase2 r dst) = display_vsp_phase2 p r dst"

fun display_xt :: "Printers \<Rightarrow> XtRequestMetadata \<Rightarrow> string" where
  "display_xt p (XtSubmitVaultKey who key) = display_submit_vault_key p who key"
| "display_xt p (XtSubmitSignedPsbt h) = display_submit_signed_psbt p h"
| "display_xt p (XtSubmitUnsignedPsbt h) = display_submit_unsigned_psbt p h"
| "display_xt p (XtSubmitExecutedRequest t) = display_submit_executed_request p t"
| "display_xt p (XtSubmitRollbackPoll t ok) = display_submit_rollback_poll p t ok"
| "display_xt p (XtVaultKeyPresubmission n) = display_vault_key_presubmission n"
| "display_xt p (XtSubmitUtxos t vout sats) = display_submit_utxo p t vout sats"
| "display_xt p (XtBroadcastPoll t) = display_broadcast_poll p t"
| "display_xt p (XtSubmitOutboundRequests m) = display_socket_relay m"
| "display_xt p (XtSubmitFeeRate lt fee) = display_submit_fee_rate lt fee"
| "display_xt p (XtRemoveOutboundMessages n) = display_remove_outbound_messages n"
| "display_xt p (XtApproveSetRefunds a d) = display_approve_set_refunds a d"
| "display_xt p (XtOnFlightPoll m) = display_on_flight_poll m"
| "display_xt p (XtFinalizePoll m) = display_finalize_poll m"

section \<open>Reports\<close>

text \<open>
  What the macros do: a line to the log under a target, and, for warnings and errors, the same line
  with the chain in front to the error tracker. \<open>fmt\<close> is the formatted message.
\<close>

datatype level = Error | Warning | Info

datatype report = Logged level string string | Captured level string

definition sub_display_format :: "string \<Rightarrow> string" where
  "sub_display_format log_target = log_target @ replicate (19 - length log_target) CHR '' ''"

fun log_and_capture :: "level \<Rightarrow> string \<Rightarrow> string \<Rightarrow> string option \<Rightarrow> string \<Rightarrow> report list" where
  "log_and_capture Info chain_name sub_target sender fmt =
     [Logged Info chain_name (''-['' @ sub_display_format sub_target @ ''] '' @ fmt)]"
| "log_and_capture lvl chain_name sub_target sender fmt =
     (let log_msg = ''-['' @ sub_display_format sub_target @ '']''
            @ (case sender of Some a \<Rightarrow> ''-['' @ a @ '']'' | None \<Rightarrow> []) @ '' '' @ fmt
      in [Logged lvl chain_name log_msg, Captured lvl (''['' @ chain_name @ '']'' @ log_msg)])"

definition log_and_capture_simple :: "level \<Rightarrow> string \<Rightarrow> string \<Rightarrow> report list" where
  "log_and_capture_simple lvl module_path log_msg = [Logged lvl module_path log_msg, Captured lvl log_msg]"

section \<open>Reading the lines\<close>

lemma digit_char: "d < 10 \<Longrightarrow> of_char (char_of (48 + d) :: char) = 48 + (d :: nat)"
  by (simp add: of_char_of)

lemma show_nat_digits: "list_all is_digit (show_nat n)"
proof (induction n rule: show_nat.induct)
  case (1 n)
  show ?case
  proof (cases "n < 10")
    case True
    then show ?thesis by (subst show_nat.simps) (simp add: is_digit_def digit_char del: of_char_of)
  next
    case False
    have "is_digit (char_of (48 + n mod 10))" by (simp add: is_digit_def digit_char del: of_char_of)
    with 1 False show ?thesis by (subst show_nat.simps) simp
  qed
qed

text \<open>A printed number is read back.\<close>

lemma digits_value_show_nat: "digits_value (show_nat n) = n"
proof (induction n rule: show_nat.induct)
  case (1 n)
  show ?case
  proof (cases "n < 10")
    case True
    then show ?thesis by (subst show_nat.simps) (simp add: digits_value_def digit_char del: of_char_of)
  next
    case False
    have "digits_value [char_of (48 + n mod 10)] = n mod 10"
      by (simp add: digits_value_def digit_char del: of_char_of)
    with 1 False show ?thesis by (subst show_nat.simps) (simp add: digits_value_append)
  qed
qed

lemma show_nat_eq_iff [simp]: "show_nat m = show_nat n \<longleftrightarrow> m = n"
  by (metis digits_value_show_nat)

lemma show_word_eq_iff [simp]: "show_word v = show_word w \<longleftrightarrow> v = w"
  by (simp add: show_word_def word_unat_eq_iff)

lemma show_nat_plain [simp]: "\<not> is_digit c \<Longrightarrow> c \<notin> set (show_nat n)"
  using show_nat_digits [of n] by (auto simp: list_all_iff)

lemma show_word_plain [simp]: "\<not> is_digit c \<Longrightarrow> c \<notin> set (show_word w)"
  by (simp add: show_word_def)

lemma separators [simp]:
  "\<not> is_digit CHR ''-''" "\<not> is_digit CHR '',''" "\<not> is_digit CHR '':''" "\<not> is_digit CHR '' ''" "\<not> is_digit CHR '')''"
  by (simp_all add: is_digit_def)

lemma debug_status_eq_iff [simp]: "debug_status s = debug_status t \<longleftrightarrow> s = t"
  by (cases s; cases t) simp_all

lemma debug_status_plain [simp]: "CHR ''-'' \<notin> set (debug_status s)"
  by (cases s) simp_all

lemma direction_name_simps [simp]:
  "direction_name a = direction_name b \<longleftrightarrow> a = b" "CHR ''-'' \<notin> set (direction_name a)"
  by (simp_all add: direction_name_def)

lemma show_bool_eq_iff [simp]: "show_bool a = show_bool b \<longleftrightarrow> a = b"
  by (simp add: show_bool_def)

text \<open>A line can be cut at a separator that the field before it does not contain.\<close>

lemma cut_field:
  "c \<notin> set x \<Longrightarrow> c \<notin> set y \<Longrightarrow> x @ c # r = y @ c # s \<longleftrightarrow> x = y \<and> r = s"
proof (induction x arbitrary: y)
  case Nil
  then show ?case by (cases y) auto
next
  case (Cons a x)
  then show ?case by (cases y) auto
qed

text \<open>The text in front of the parenthesis tells what was requested.\<close>

fun xt_tag :: "XtRequestMetadata \<Rightarrow> string" where
  "xt_tag (XtSubmitVaultKey _ _) = ''SubmitVaultKey''"
| "xt_tag (XtSubmitSignedPsbt _) = ''SubmitSignedPsbt''"
| "xt_tag (XtSubmitUnsignedPsbt _) = ''SubmitUnsignedPsbt''"
| "xt_tag (XtSubmitExecutedRequest _) = ''SubmitExecutedRequest''"
| "xt_tag (XtSubmitRollbackPoll _ _) = ''SubmitRollbackPoll''"
| "xt_tag (XtVaultKeyPresubmission _) = ''VaultKeyPresubmission''"
| "xt_tag (XtSubmitUtxos _ _ _) = ''SubmitUtxo''"
| "xt_tag (XtBroadcastPoll _) = ''BroadcastPoll''"
| "xt_tag (XtSubmitOutboundRequests _) = ''Relay''"
| "xt_tag (XtSubmitFeeRate _ _) = ''SubmitFeeRate''"
| "xt_tag (XtRemoveOutboundMessages _) = ''RemoveOutboundMessages''"
| "xt_tag (XtApproveSetRefunds _ _) = ''ApproveSetRefunds''"
| "xt_tag (XtOnFlightPoll _) = ''OnFlightPoll''"
| "xt_tag (XtFinalizePoll _) = ''FinalizePoll''"

lemmas display_defs = display_socket_relay_def display_on_flight_poll_def display_finalize_poll_def
  display_submit_vault_key_def display_submit_signed_psbt_def display_submit_unsigned_psbt_def
  display_submit_executed_request_def display_submit_rollback_poll_def display_vault_key_presubmission_def
  display_submit_utxo_def display_broadcast_poll_def display_submit_fee_rate_def
  display_remove_outbound_messages_def display_approve_set_refunds_def

lemma display_xt_tag: "takeWhile (\<lambda>c. c \<noteq> CHR ''('') (display_xt p m) = xt_tag m"
  by (cases m) (simp_all add: display_defs)

text \<open>What the printers of the libraries are relied on for: different values look different, and fields contain no colon.\<close>

definition plain_printers :: "Printers \<Rightarrow> bool" where
  "plain_printers p \<longleftrightarrow>
     inj (p_address_debug p) \<and> inj (p_pub_key p) \<and> inj (p_b256 p) \<and> inj (p_hash p) \<and> inj (p_txid p) \<and> inj (p_sats p)
     \<and> (\<forall>a. CHR '':'' \<notin> set (p_address_debug p a)) \<and> (\<forall>t. CHR '':'' \<notin> set (p_hash p t))
     \<and> (\<forall>t. CHR '':'' \<notin> set (p_txid p t))"

text \<open>A relay is logged without its receiver and without the flag of the bootstrap.\<close>

fun shown :: "XtRequestMetadata \<Rightarrow> XtRequestMetadata" where
  "shown (XtSubmitOutboundRequests m) = XtSubmitOutboundRequests (m\<lparr>srm_receiver := 0, srm_is_bootstrap := False\<rparr>)"
| "shown m = m"

text \<open>
  The log line of an extrinsic identifies the request. Two requests with the same line are of the
  same kind and agree in every field, a relay in every field but the receiver and the bootstrap flag,
  which are not printed.
\<close>

theorem xt_line_identifies:
  assumes "plain_printers p" and "display_xt p m = display_xt p m'"
  shows "shown m = shown m'"
proof -
  have inj: "p_address_debug p a = p_address_debug p a' \<longleftrightarrow> a = a'" "p_pub_key p k = p_pub_key p k' \<longleftrightarrow> k = k'"
    "p_b256 p h = p_b256 p h' \<longleftrightarrow> h = h'" "p_hash p t = p_hash p t' \<longleftrightarrow> t = t'" "p_txid p t = p_txid p t' \<longleftrightarrow> t = t'"
    "p_sats p s = p_sats p s' \<longleftrightarrow> s = s'" for a a' k k' h h' t t' s s'
    using assms(1) by (simp_all add: plain_printers_def inj_eq)
  have plain: "CHR '':'' \<notin> set (p_address_debug p a)" "CHR '':'' \<notin> set (p_hash p t)" "CHR '':'' \<notin> set (p_txid p t)" for a t
    using assms(1) by (simp_all add: plain_printers_def)
  have "xt_tag m = xt_tag m'"
    using display_xt_tag [of p m] display_xt_tag [of p m'] assms(2) by simp
  then show ?thesis
    using assms(2)
    by (cases m; cases m') (simp_all add: display_defs cut_field inj plain split: if_splits)
qed

end
