(* ===== verification/Node_Access.thy ===== *)
theory Node_Access
  imports Storage_Queries Hook_Executor Btc_Block_Manager
begin

text \<open>
  How the relayer reaches its nodes: the retry layer with its pauses (\<open>mod retry\<close> of
  \<open>client/src/eth/mod.rs\<close>), the two contract caches (\<open>ContractCache\<close> of \<open>primitives/src/eth.rs\<close>,
  \<open>get_erc20\<close> and \<open>get_erc20_decimals\<close>), the repeated calls of the rollback verifier
  (\<open>periodic/src/bitcoin_rollback_verifier.rs\<close>) and the storage lookups of the hook executor
  (\<open>client/src/eth/traits.rs\<close>).
\<close>

section \<open>The retry layer\<close>

text \<open>
  What a node says in \<open>rate.backoff_seconds\<close> of an error: a number that fits 64 bits, another number
  (the argument is what \<open>as u64\<close> makes of the floating-point number, which saturates) or nothing of
  the kind.
\<close>

datatype backoff_seconds = Json_u64 u64 | Json_f64 u64 | Json_other

datatype TransportError = ErrorResp "backoff_seconds option" | OtherError

definition should_retry :: "TransportError \<Rightarrow> bool" where
  "should_retry e = True"

text \<open>Seconds; adding one to a saturated number wraps.\<close>

definition backoff_hint :: "TransportError \<Rightarrow> u64 option" where
  "backoff_hint e =
     (case e of
        ErrorResp (Some (Json_u64 seconds)) \<Rightarrow> Some seconds
      | ErrorResp (Some (Json_f64 seconds)) \<Rightarrow> Some (seconds + 1)
      | _ \<Rightarrow> None)"

record RetryBackoffService =
  rb_max_retries :: u32
  rb_initial_backoff :: u64
  rb_requests_enqueued :: u32

definition RetryBackoffLayer_layer :: "u32 \<Rightarrow> u64 \<Rightarrow> RetryBackoffService" where
  "RetryBackoffLayer_layer retries backoff =
     \<lparr>rb_max_retries = retries, rb_initial_backoff = backoff, rb_requests_enqueued = 0\<rparr>"

text \<open>
  A response is the node's answer, or an error, whether of the transport or in the body. The pauses are
  in milliseconds. Without enough responses the call is still waiting.
\<close>

fun service_loop ::
    "RetryBackoffService \<Rightarrow> nat \<Rightarrow> (TransportError + 'r) list \<Rightarrow> ('r res \<times> nat list \<times> u32) option" where
  "service_loop this retry_count [] = None"
| "service_loop this retry_count (Inr r # rest) = Some (Ok r, [], rb_requests_enqueued this - 1)"
| "service_loop this retry_count (Inl err # rest) =
     (if should_retry err
      then if unat (rb_max_retries this) < retry_count + 1 then Some (Err RpcError, [], rb_requests_enqueued this)
           else
             (let next_backoff = (case backoff_hint err of
                     Some seconds \<Rightarrow> 1000 * unat seconds
                   | None \<Rightarrow> unat (rb_initial_backoff this))
              in case service_loop this (retry_count + 1) rest of
                   None \<Rightarrow> None
                 | Some (r, pauses, enq) \<Rightarrow> Some (r, next_backoff # pauses, enq))
      else Some (Err RpcError, [], rb_requests_enqueued this - 1))"

definition service_call ::
    "RetryBackoffService \<Rightarrow> (TransportError + 'r) list \<Rightarrow> ('r res \<times> nat list \<times> u32) option" where
  "service_call this responses =
     service_loop (this\<lparr>rb_requests_enqueued := rb_requests_enqueued this + 1\<rparr>) 0 responses"

definition answer_of :: "TransportError + 'r \<Rightarrow> 'r option" where
  "answer_of resp = (case resp of Inr r \<Rightarrow> Some r | Inl _ \<Rightarrow> None)"

lemma answer_of_simps [simp]: "answer_of (Inr r) = Some r" "answer_of (Inl e) = None"
  by (simp_all add: answer_of_def)

text \<open>Without its pauses the service is the abstract retry loop of \<open>Eth_Client\<close>.\<close>

lemma service_loop_refines:
  "map_option (\<lambda>(r, _, enq). (r, enq)) (service_loop this k responses)
    = retry_loop (unat (rb_max_retries this)) k (map answer_of responses) (rb_requests_enqueued this)"
proof (induction this k responses rule: service_loop.induct)
  case (3 this k err rest)
  then show ?case
    by (cases "service_loop this (k + 1) rest") (auto simp: should_retry_def Let_def)
qed simp_all

lemma service_call_refines:
  "map_option (\<lambda>(r, _, enq). (r, enq)) (service_call this responses)
    = retry_call (unat (rb_max_retries this)) (map answer_of responses) (rb_requests_enqueued this)"
  by (simp add: service_call_def retry_call_def service_loop_refines)

text \<open>A call pauses once per error it survives, never more often than it may retry.\<close>

lemma service_loop_pauses:
  "service_loop this k responses = Some (r, pauses, enq) \<Longrightarrow> k \<le> unat (rb_max_retries this) \<Longrightarrow>
     length pauses + k \<le> unat (rb_max_retries this)
   \<and> (\<forall>p \<in> set pauses. p = unat (rb_initial_backoff this)
        \<or> (\<exists>e s. Inl e \<in> set responses \<and> backoff_hint e = Some s \<and> p = 1000 * unat s))"
proof (induction this k responses arbitrary: r pauses enq rule: service_loop.induct)
  case (3 this k err rest)
  show ?case
  proof (cases "unat (rb_max_retries this) < k + 1")
    case True
    with 3 show ?thesis by (auto simp: should_retry_def)
  next
    case False
    with 3(2) obtain ps where rec: "service_loop this (k + 1) rest = Some (r, ps, enq)"
      and p: "pauses = (case backoff_hint err of Some s \<Rightarrow> 1000 * unat s | None \<Rightarrow> unat (rb_initial_backoff this)) # ps"
      by (auto simp: should_retry_def Let_def split: option.splits)
    from 3(1) [OF _ False _ rec] False show ?thesis
      by (auto simp: p should_retry_def split: option.splits)
  qed
qed auto

lemma service_call_pauses:
  assumes "service_call this responses = Some (r, pauses, enq)"
  shows "length pauses \<le> unat (rb_max_retries this)
    \<and> (\<forall>p \<in> set pauses. p = unat (rb_initial_backoff this)
        \<or> (\<exists>e s. Inl e \<in> set responses \<and> backoff_hint e = Some s \<and> p = 1000 * unat s))"
  using service_loop_pauses [OF assms [unfolded service_call_def]] by simp

section \<open>Contract caches\<close>

record 'i ContractCache =
  cc_erc20s :: "address \<rightharpoonup> 'i"
  cc_erc20_decimals :: "address \<rightharpoonup> u8"

definition ContractCache_new :: "'i ContractCache" where
  "ContractCache_new = \<lparr>cc_erc20s = Map.empty, cc_erc20_decimals = Map.empty\<rparr>"

text \<open>\<open>instance_at\<close> makes the binding to the contract at an address.\<close>

definition get_erc20 :: "(address \<Rightarrow> 'i) \<Rightarrow> (address \<rightharpoonup> 'i) \<Rightarrow> address \<Rightarrow> 'i \<times> (address \<rightharpoonup> 'i)" where
  "get_erc20 instance_at cache a =
     (case cache a of
        Some erc20 \<Rightarrow> (erc20, cache)
      | None \<Rightarrow> (let erc20 = instance_at a in (erc20, cache(a \<mapsto> erc20))))"

text \<open>
  What both caches promise: a hit answers without asking, a miss asks and remembers a success, and a
  failure is not remembered.
\<close>

locale memo_table =
  fixes source :: "'k \<Rightarrow> 'v res" and ask :: "('k \<rightharpoonup> 'v) \<Rightarrow> 'k \<Rightarrow> 'v res \<times> ('k \<rightharpoonup> 'v)"
  assumes hit: "cache k = Some v \<Longrightarrow> ask cache k = (Ok v, cache)"
    and miss: "cache k = None \<Longrightarrow> source k = Ok v \<Longrightarrow> ask cache k = (Ok v, cache(k \<mapsto> v))"
    and failure: "cache k = None \<Longrightarrow> (\<And>v. source k \<noteq> Ok v) \<Longrightarrow> ask cache k = (source k, cache)"
begin

definition faithful :: "('k \<rightharpoonup> 'v) \<Rightarrow> bool" where
  "faithful cache \<longleftrightarrow> (\<forall>k v. cache k = Some v \<longrightarrow> source k = Ok v)"

fun ask_all :: "('k \<rightharpoonup> 'v) \<Rightarrow> 'k list \<Rightarrow> 'v res list" where
  "ask_all cache [] = []"
| "ask_all cache (k # ks) = (case ask cache k of (r, cache') \<Rightarrow> r # ask_all cache' ks)"

lemma ask_cases:
  assumes "faithful cache"
  shows "fst (ask cache k) = source k \<and> faithful (snd (ask cache k))
    \<and> dom (snd (ask cache k)) = dom cache \<union> {k' \<in> {k}. \<exists>v. source k' = Ok v}"
proof (cases "cache k")
  case None
  show ?thesis
  proof (cases "\<exists>v. source k = Ok v")
    case True
    then obtain v where "source k = Ok v" by blast
    with assms miss [of cache k v] None show ?thesis by (auto simp: faithful_def)
  next
    case False
    with assms failure [of cache k] None show ?thesis by auto
  qed
next
  case (Some v)
  with assms hit [of cache k v] show ?thesis by (auto simp: faithful_def)
qed

lemma ask_all_source: "faithful cache \<Longrightarrow> ask_all cache ks = map source ks"
proof (induction ks arbitrary: cache)
  case (Cons k ks)
  obtain r cache' where "ask cache k = (r, cache')" by fastforce
  with ask_cases [OF Cons.prems, of k] Cons.IH [of cache'] show ?case by simp
qed simp

lemma fresh_cache: "ask_all Map.empty ks = map source ks"
  by (rule ask_all_source) (simp add: faithful_def)

end

interpretation decimals_cache: memo_table decimals_of "get_erc20_decimals decimals_of" for decimals_of
  by unfold_locales (auto simp: get_erc20_decimals_def split: res.split)

interpretation contract_cache: memo_table "\<lambda>a. Ok (instance_at a)" "\<lambda>cache a. apfst Ok (get_erc20 instance_at cache a)"
  for instance_at
  by unfold_locales (auto simp: get_erc20_def)

text \<open>Whatever is asked of the caches of a new client, the answers are those of the contracts.\<close>

lemma caches_transparent:
  "contract_cache.ask_all instance_at (cc_erc20s ContractCache_new) as = map (\<lambda>a. Ok (instance_at a)) as"
  "decimals_cache.ask_all decimals_of (cc_erc20_decimals ContractCache_new) as = map decimals_of as"
  by (simp_all add: ContractCache_new_def contract_cache.fresh_cache decimals_cache.fresh_cache)

section \<open>Calls of the rollback verifier\<close>

fun verifier_attempts :: "nat \<Rightarrow> (nat \<Rightarrow> 'a res) \<Rightarrow> nat \<Rightarrow> error \<Rightarrow> 'a res" where
  "verifier_attempts 0 answers k latest_error = Err latest_error"
| "verifier_attempts (Suc n) answers k latest_error =
     (case answers k of
        Ok v \<Rightarrow> Ok v
      | Err e \<Rightarrow> verifier_attempts n answers (Suc k) e
      | Panic \<Rightarrow> Panic)"

definition verifier_call :: "(nat \<Rightarrow> 'a res) \<Rightarrow> 'a res" where
  "verifier_call answers = verifier_attempts DEFAULT_CALL_RETRIES answers 0 ProviderInternalError"

text \<open>
  It gets the first answer within the allowed attempts, as the block manager does, but reports the
  last error where the block manager panics.
\<close>

lemma verifier_call_first:
  assumes "\<And>k. answers k \<noteq> Panic"
  shows "verifier_call answers =
    (case rpc_retry (\<lambda>k. case answers k of Ok v \<Rightarrow> Some v | _ \<Rightarrow> None) of
       Some v \<Rightarrow> Ok v
     | None \<Rightarrow> answers (DEFAULT_CALL_RETRIES - 1))"
proof -
  have upt: "[0..<DEFAULT_CALL_RETRIES] = [0, 1, 2]" by (simp add: DEFAULT_CALL_RETRIES_def upt_rec)
  have three: "DEFAULT_CALL_RETRIES = Suc (Suc (Suc 0))" by (simp add: DEFAULT_CALL_RETRIES_def)
  show ?thesis
    using assms [of 0] assms [of 1] assms [of 2]
    by (cases "answers 0"; cases "answers 1"; cases "answers 2")
      (simp_all add: verifier_call_def rpc_retry_def upt three numeral_2_eq_2)
qed

section \<open>Storage lookups of the hook executor\<close>

text \<open>
  A lookup needs the current block and the entry in it; an absent entry is an answer, an entry that
  cannot be read or decoded is an error.
\<close>

definition fetch_entry :: "'b res \<Rightarrow> ('b \<Rightarrow> 'a fetched) \<Rightarrow> 'a option res" where
  "fetch_entry current_block entry =
     bind_res current_block (\<lambda>at.
       case entry at of
         Fetched v \<Rightarrow> Ok (Some v)
       | Missing \<Rightarrow> Ok None
       | Undecodable \<Rightarrow> Err RpcError
       | Fetch_failed \<Rightarrow> Err RpcError)"

definition fetch_oracle_oid :: "'b res \<Rightarrow> ('b \<Rightarrow> OracleKey \<Rightarrow> b256 fetched) \<Rightarrow> OracleKey \<Rightarrow> b256 option res" where
  "fetch_oracle_oid current_block oracles oracle_key = fetch_entry current_block (\<lambda>at. oracles at oracle_key)"

definition fetch_asset_id_from_relay_queue ::
    "'b res \<Rightarrow> ('b \<Rightarrow> b256 \<Rightarrow> address fetched) \<Rightarrow> b256 \<Rightarrow> address option res" where
  "fetch_asset_id_from_relay_queue current_block asset_indexes asset_index_hash =
     fetch_entry current_block (\<lambda>at. asset_indexes at asset_index_hash)"

definition fetch_aggregator_info ::
    "'b res \<Rightarrow> ('b \<Rightarrow> address \<Rightarrow> (address \<times> u8) fetched) \<Rightarrow> address \<Rightarrow> (address \<times> u8) option res" where
  "fetch_aggregator_info current_block aggregators asset_id =
     fetch_entry current_block (\<lambda>at. aggregators at asset_id)"

text \<open>The lookups as the surroundings of the hook executor.\<close>

definition with_storage ::
    "'b res \<Rightarrow> ('b \<Rightarrow> OracleKey \<Rightarrow> b256 fetched) \<Rightarrow> ('b \<Rightarrow> b256 \<Rightarrow> address fetched)
      \<Rightarrow> ('b \<Rightarrow> address \<Rightarrow> (address \<times> u8) fetched) \<Rightarrow> HookEnv \<Rightarrow> HookEnv" where
  "with_storage current_block oracles asset_indexes aggregators env =
     env\<lparr>h_oracles := fetch_oracle_oid current_block oracles,
         h_asset_indexes := fetch_asset_id_from_relay_queue current_block asset_indexes,
         h_aggregators := fetch_aggregator_info current_block aggregators\<rparr>"

lemma fetch_entry_Some:
  "fetch_entry b entry = Ok (Some v) \<longleftrightarrow> (\<exists>at. b = Ok at \<and> entry at = Fetched v)"
  by (cases b) (auto simp: fetch_entry_def split: fetched.split)

text \<open>
  A hook is executed only on prices the runtime knows: a transaction is sent only when the node gave a
  block in which the currency of the chain, the asset of the message and the price of that asset are
  registered. An unreachable node, a missing entry and one that cannot be decoded send nothing.
\<close>

lemma hook_needs_registered_prices:
  assumes "fst (execute_hook (with_storage current_block oracles asset_indexes aggregators env) msg v is_inbound) \<noteq> []"
  shows "\<exists>at native asset price. current_block = Ok at
    \<and> oracles at (NativeCurrency (md_id (metadata (h_client env)))) = Fetched native
    \<and> asset_indexes at (tokenIDX0 (params msg)) = Fetched asset
    \<and> oracles at (Asset asset) = Fetched price"
proof -
  let ?env = "with_storage current_block oracles asset_indexes aggregators env"
  have client: "h_client ?env = h_client env" by (simp add: with_storage_def)
  obtain h where h: "hooks (protocol_contracts (h_client ?env)) = Some h"
    using assms by (auto simp: execute_hook_def ret_def split: option.splits)
  define tx where "tx = \<lparr>tx_to = h, tx_from = Some (default_address (h_client ?env)),
      tx_call = HooksExecute (v_max_tx_fee v) msg, tx_gas_limit = None\<rparr>"
  obtain fee gas where est: "estimate_hook_gas ?env msg (v_max_tx_fee v) tx is_inbound = Ok (fee, gas)" "fee \<noteq> 0"
    using assms
    by (cases "estimate_hook_gas ?env msg (v_max_tx_fee v) tx is_inbound")
      (auto simp: execute_hook_def h Let_def ret_def simp flip: tx_def split: if_splits)
  then obtain native asset price where
    "get_oracle_oid_for_chain ?env (md_id (metadata (h_client env))) = Ok (Some native)"
    "h_asset_indexes ?env (tokenIDX0 (params msg)) = Ok (Some asset)"
    "get_oracle_oid_for_asset ?env asset = Ok (Some price)"
    by (auto simp: estimate_hook_gas_def skip_none_Ok_iff bind_res_Ok_iff client split: if_splits)
  then show ?thesis
    by (auto simp: get_oracle_oid_for_chain_def get_oracle_oid_for_asset_def with_storage_def fetch_oracle_oid_def
        fetch_asset_id_from_relay_queue_def fetch_entry_Some)
qed

end
