(* ===== verification/Spec2Isabelle.thy ===== *)
theory Spec2Isabelle
  imports Socket_Onflight Rollback_Emitter Roundup Bootstrap_Progress Unsigned_Manager
    Btc_Handlers Psbt_Workers Vault_Key_Workers Price_Oracle Tx_Submission Storage_Queries Roundup_Run
    Relayer_Service Event_Path Initial_States Relayer_Main Log_Lines Node_Access
begin

text \<open>
  A verification library of the Bifrost relayer.

  The program. A relayer watches the socket contracts of the EVM chains and the Bitcoin chain,
  and moves every cross-chain request to its next stage by sending contract calls to the target
  chain and unsigned extrinsics to the Bifrost runtime. It consists of tasks that communicate
  over broadcast and unbounded channels and a few shared tables:

  \<^item> an event manager per EVM chain broadcasts the logs of new blocks; the socket relay handler,
    the queue poller and the round-up relay handler consume them;
  \<^item> the on-flight handler follows the runtime's relay queue and hands approved transfers to the
    relay handler of the source chain;
  \<^item> the block manager follows Bitcoin; the inbound, outbound and fee-rate handlers consume its
    messages;
  \<^item> periodic workers roll back expired requests, poll the relayer set of a new round, sign and
    broadcast PSBTs, verify refund requests, submit vault keys, feed prices to the oracle and
    report being alive;
  \<^item> one manager submits every unsigned extrinsic; EVM calls are sent by the client of their
    chain, in a task per transaction;
  \<^item> the service builds all of these from the configuration file; a separate command re-encrypts
    the vault keys.

  The shape of the model. A struct is a record with the source's field names (with a short prefix
  where two structs share a name), an enumeration a datatype. Integers keep their width as words;
  where the code adds or subtracts with saturation or a check, so does the model. Code that may
  fail returns \<open>'a res\<close>: \<open>Ok\<close>, \<open>Err\<close> for an error that the caller can handle, \<open>Panic\<close> for
  one that unwinds. What an operation sends out is collected by a writer of effects
  (\<open>('e, 'a) eff\<close>), in order; what is sent before a failure stays sent. Answers of nodes,
  contracts, the runtime and of cryptographic and encoding libraries are arguments, gathered in
  one record of surroundings per component, so that every theorem holds for all answers unless it
  names what it needs of them.

  Theories and sources (below \<open>src/\<close>):

  \<^item> \<open>Relayer_Prelude\<close>: words, results, effects, list lemmas; the interfaces \<open>pending_pool\<close> (a
    sweep that marks indices and then edits a vector is a pass that decides per entry) and
    \<open>block_cursor\<close> (a cursor that follows a chain visits consecutive ranges).
  \<^item> \<open>Cccp_Types\<close>, \<open>Provider_Config\<close>: \<open>primitives/src/eth.rs\<close>, \<open>contracts/socket.rs\<close>,
    \<open>utils.rs\<close>, \<open>cli.rs\<close>, \<open>constants\<close>, \<open>relayer/src/verification.rs\<close>. Interface \<open>wire_code\<close>:
    a decoder that inverts its encoder and rejects everything else.
  \<^item> \<open>Eth_Client\<close>, \<open>Tx_Requests\<close>, \<open>Tx_Submission\<close>, \<open>Unsigned_Manager\<close>: \<open>client/src/eth/mod.rs\<close>,
    \<open>primitives/src/tx.rs\<close>, \<open>client/src/substrate\<close>; \<open>Tx_Submission\<close> holds gas filling, the task that
    submits a transaction and the flush of stalled ones.
  \<^item> \<open>Node_Access\<close>: the retry layer with its pauses and the contract caches of \<open>client/src/eth/mod.rs\<close>,
    the repeated calls of the rollback verifier and the storage lookups of the hook executor. Interface
    \<open>memo_table\<close>: a cache that is invisible to its users.
  \<^item> \<open>Event_Manager\<close>: \<open>client/src/eth/events.rs\<close>.
  \<^item> \<open>Hook_Executor\<close>, \<open>Socket_Relay\<close>, \<open>Socket_Pending\<close>: \<open>client/src/eth/traits.rs\<close> and
    \<open>handlers/socket_relay_handler.rs\<close>; \<open>Socket_Pending\<close> holds the pool of unconfirmed events.
  \<^item> \<open>Event_Path\<close>: the event manager and the relay handler of a chain together, from a block to the
    relay of its events.
  \<^item> \<open>Socket_Queue_Poller\<close>, \<open>Socket_Onflight\<close>: the handlers of the same names; \<open>Onflight_Run\<close>: the loop
    of the on-flight handler over the blocks of a run.
  \<^item> \<open>Rollback_Emitter\<close>: \<open>periodic/src/socket_rollback_emitter.rs\<close>.
  \<^item> \<open>Roundup\<close>, \<open>Roundup_Run\<close>: \<open>periodic/src/roundup_emitter.rs\<close>,
    \<open>handlers/roundup_relay_handler.rs\<close>; \<open>Roundup_Run\<close> holds the handler's loop and the history
    that both tasks start from.
  \<^item> \<open>Bootstrap\<close>, \<open>Bootstrap_Progress\<close>: \<open>primitives/src/bootstrap.rs\<close> and the start-up code of
    all tasks, as a transition system of program counters. Interface \<open>handover_cache\<close>.
  \<^item> \<open>Btc_Block_Manager\<close>, \<open>Btc_Handlers\<close>: \<open>client/src/btc/block.rs\<close>, \<open>btc/handlers\<close>.
  \<^item> \<open>Keypair_Storage\<close>, \<open>Vault_Key_Workers\<close>: \<open>client/src/btc/storage/keypair\<close>,
    \<open>periodic/src/keypair_migrator.rs\<close>, \<open>pub_key_submitter.rs\<close>, \<open>pub_key_presubmitter.rs\<close>,
    \<open>heartbeat_sender.rs\<close>. \<open>Storage_Queries\<close>: the queries these workers repeat until the runtime
    answers. Interface \<open>attempts\<close>: a loop that ends at the first attempt that decides, and only then.
  \<^item> \<open>Psbt_Workers\<close>: \<open>periodic/src/psbt_signer.rs\<close>, \<open>psbt_broadcaster.rs\<close>,
    \<open>bitcoin_rollback_verifier.rs\<close>.
  \<^item> \<open>Ordered_Map\<close>, \<open>Exchange_Rate\<close>, \<open>Price_Sources\<close>, \<open>Price_Oracle\<close>: \<open>periodic/src/price_source\<close>,
    \<open>price_feeder.rs\<close>, \<open>price_deviation_checker.rs\<close>. Interfaces \<open>keyed_store\<close> (an ordered map with
    insertion) and \<open>ticker_loop\<close> (a loop that enters the answer to one query per symbol).
  \<^item> \<open>Keystore_Migration\<close>: \<open>relayer/src/commands/migrate_keystore_cmd.rs\<close>.
  \<^item> \<open>Relayer_Service\<close>: \<open>relayer/src/service.rs\<close>, \<open>service_deps\<close>; \<open>Initial_States\<close>: the constructors of the
    tasks and \<open>service_deps/periodic_deps.rs\<close>, the channels between them included.
  \<^item> \<open>Relayer_Main\<close>: \<open>relayer/src/main.rs\<close>, \<open>relayer/src/cli.rs\<close>, \<open>client/cli/src\<close>,
    \<open>metrics/src/sentry.rs\<close>: the program as a whole.
  \<^item> \<open>Log_Lines\<close>: the display code of \<open>primitives/src/tx.rs\<close> and the macros of
    \<open>primitives/src/macros.rs\<close>.
  \<^item> \<open>Example_Setup\<close>: a concrete deployment for the witnesses.

  What is shown. For the relay path: every relay sent was asked for by an event that fits it and
  carries a sorted quorum of signatures; no event is relayed before it has its confirmations, and
  one that a reorganisation moved waits again; the index-based edits of both pools agree with a
  pass that decides entry by entry; an event of a block is relayed or still in the pool, unless its
  transaction was missed five times; a transfer that stays in the queue is handed over
  exactly once in a run; hooks stay within the limits their user set. For Bitcoin: a vote names an output that is deep enough and pays a
  listed vault; blocks are processed in order and once; settlement, refunds and PSBT signing
  follow their rules. For keys: a public key is submitted only when its private key is kept and
  can be read back; the migrator follows the rounds. For start-up: the order of the phases, that
  normal operation is reached, the waits that never end, which configurations provide the tasks
  that the protocol needs, and that the tasks of a started service fit each other: the parties of
  the barrier, the clients of the handlers, the receivers of the rollback channels. For submission: retries are bounded, a filled request is within
  its limits, and a flush sends every stalled transaction again, in order and never cheaper. For
  prices: the average equals its definition over natural numbers, currency conversion is exact up
  to rounding, a feed writes every price under its asset, and the deviation checker feeds exactly
  what moved. For the program: a migration command that exits successfully has lost no key. For log
  lines: the line of an extrinsic tells which request it was.
  Lemmas named in the list of findings exhibit behaviour that contradicts the documentation or
  the evident intent.

  Bounds. Loops with a fixed number of attempts (three or ten) take the answers as a function of
  the attempt or as a list and recurse over it; what happens past the last answer is stated where
  it is defined. Loops that may run for ever are partial functions into \<open>option\<close>, and theorems
  about them say that a result exists. Sums of block numbers saturate at 64 bits as in the code,
  so statements about the last block number carry that bound as a hypothesis.

  Not modelled. Floating-point operations themselves (gas coefficients, fee rates, products of
  prices) are arguments; the HTTP clients of the price sources, the contract bindings and runtime
  metadata are third-party or generated code; the parsing of the command line and of the configuration
  file is done by libraries and is an argument of \<open>Relayer_Main\<close>; metrics gauges are written and never
  read; random and scheduled waits, and accessors and constructors that only return or store their
  arguments, have no logic of their own.
\<close>

section \<open>From Bitcoin outputs to votes\<close>

definition ex_event_manager :: EventManager where
  "ex_event_manager = \<lparr>em_client = ex_client 1 False, waiting_block = 5, is_balance_sync_enabled = False\<rparr>"

lemma events_paying_mem:
  assumes "e \<in> set (events_paying P txs)"
  obtains tx v where "tx \<in> set txs" and "v \<in> set (btx_vout tx)" and "vout_address v = Some (be_address e)"
    and "P (be_address e)" and "e = vout_event (btx_txid tx) v (be_address e)"
  using assms
  by (auto simp: events_paying_def List.map_filter_def block_outputs_def output_event_def vout_event_def
      split: option.splits if_splits)

lemma inbound_message_events:
  assumes "m \<in> set (block_messages vaults refunds num txs)" and "bem_event_type m = EventInbound"
  shows "bem_events m = events_paying (\<lambda>a. a \<in> vaults) txs"
  using assms by (auto simp: block_messages_def msg_new_block_def msg_inbound_def msg_outbound_def)


lemma ex_bm_run_inbound:
  "\<lparr>bem_block_number = 101, bem_event_type = EventInbound,
    bem_events = events_paying (\<lambda>a. a \<in> {BtcAddress [1], BtcAddress [2]}) [ex_btc_tx]\<rparr>
     \<in> set (snd (bm_run [ex_btc_env 105] ex_block_manager))"
proof -
  have "bm_tick (ex_btc_env 105) ex_block_manager =
      process_confirmed_block (ex_btc_env 105) (saturating_sub 105 3)
        {BtcAddress [1], BtcAddress [2]} {BtcAddress [3]} ex_block_manager"
    using ex_is_block_confirmed
    by (simp add: bm_tick_def bm_call_def) (simp add: ex_block_manager_def)
  moreover have "word_range 101 (saturating_sub 105 3) = [101, 102]"
    by (simp add: word_range_def saturating_sub_def)
  ultimately show ?thesis
    using for_each_process_block_ok [of "[101, 102]" "ex_btc_env 105" "\<lambda>_. [ex_btc_tx]"]
    by (simp add: process_confirmed_block_def block_messages_def ex_block_manager_def msg_inbound_def)
qed


section \<open>Events of the EVM chains\<close>



end
